(* ===== verification/Prelude.thy ===== *)
theory Prelude
  imports Main "HOL-Library.Word" "HOL-Library.AList"
begin

text \<open>
  Shared vocabulary of the development: Go's time values, bytes, error results, the
  collections of rewrite rules the component theories feed, and the generic facts on
  lists, filters and association lists that several components use.
\<close>

section \<open>Shared vocabulary\<close>

named_theorems go_unfold \<open>definitions of Go library functions, unfolded on demand\<close>
named_theorems wf_intros \<open>well-formedness of a component's state is kept by its operations\<close>
named_theorems frame_simps \<open>fields an operation leaves alone\<close>

text \<open>
  A Go \<open>time.Time\<close> is a point on the clock in nanoseconds; a \<open>time.Duration\<close> is a
  difference of two of them. Both are unbounded integers here: the 64-bit duration
  covers 292 years on either side, which the model does not try to leave.
\<close>

type_synonym time = int
type_synonym duration = int
type_synonym byte = "8 word"
type_synonym 'a result = "string + 'a"

definition second :: duration where "second = 1000000000"
definition minute :: duration where "minute = 60 * second"
definition hour :: duration where "hour = 60 * minute"

lemmas time_units = second_def minute_def hour_def

lemma time_units_pos [simp]: "0 < second" "0 < minute" "0 < hour"
  by (simp_all add: time_units)

text \<open>Go's \<open>t.After(u)\<close> and \<open>t.Before(u)\<close>.\<close>

abbreviation after :: "time \<Rightarrow> time \<Rightarrow> bool" where "after t u \<equiv> u < t"
abbreviation before :: "time \<Rightarrow> time \<Rightarrow> bool" where "before t u \<equiv> t < u"

text \<open>
  The whole seconds of a duration, as Go's \<open>int(d.Seconds())\<close>: truncation towards zero.
\<close>

definition int_seconds :: "duration \<Rightarrow> int" where
  "int_seconds d = sgn d * (\<bar>d\<bar> div second)"

section \<open>Lists and filters\<close>

lemma filter_filter_gt:
  "a \<le> b \<Longrightarrow> filter (\<lambda>t. b < t) (filter (\<lambda>t. (a::int) < t) xs) = filter (\<lambda>t. b < t) xs"
  by (auto simp: filter_filter intro!: filter_cong)

lemma filter_gt_mono_eq:
  assumes "filter (\<lambda>t. (a::int) < t) xs = filter (\<lambda>t. a < t) ys" and "a \<le> b"
  shows "filter (\<lambda>t. b < t) xs = filter (\<lambda>t. b < t) ys"
proof -
  have "filter (\<lambda>t. b < t) (filter (\<lambda>t. a < t) xs) = filter (\<lambda>t. b < t) (filter (\<lambda>t. a < t) ys)"
    using assms(1) by simp
  then show ?thesis using assms(2) by (simp only: filter_filter_gt)
qed

lemma length_filter_mono:
  assumes "\<And>x. x \<in> set xs \<Longrightarrow> P x \<Longrightarrow> Q x"
  shows "length (filter P xs) \<le> length (filter Q xs)"
  using assms by (induction xs) (auto intro: le_SucI)

lemma distinct_map_inj:
  "distinct (map f xs) \<Longrightarrow> x \<in> set xs \<Longrightarrow> y \<in> set xs \<Longrightarrow> f x = f y \<Longrightarrow> x = y"
  by (auto simp: distinct_map inj_on_def)

section \<open>Association lists\<close>

text \<open>
  A Go map is an association list with distinct keys where its iteration matters:
  \<open>AList.update\<close> stores, \<open>AList.delete\<close> removes, \<open>map_of\<close> looks up.
\<close>

lemma snd_update_fresh:
  "k \<notin> fst ` set xs \<Longrightarrow> AList.update k v xs = xs @ [(k, v)]"
  by (induction xs) auto

lemma map_of_notin: "map_of xs k = None \<longleftrightarrow> k \<notin> fst ` set xs"
  by (induction xs) auto

lemma map_of_delete_eq: "map_of (AList.delete k xs) k' = (if k' = k then None else map_of xs k')"
  by (simp add: AList.delete_conv')

lemma map_of_update_eq: "map_of (AList.update k v xs) k' = (if k' = k then Some v else map_of xs k')"
  by (simp add: AList.update_conv')

lemma map_of_filter_key:
  "map_of (filter (\<lambda>(k, v). P k) xs) k = (if P k then map_of xs k else None)"
  by (induction xs) auto

lemma map_of_filter_distinct:
  assumes "distinct (map fst xs)"
  shows "map_of (filter (\<lambda>(k, v). P k v) xs) k =
    (case map_of xs k of None \<Rightarrow> None | Some v \<Rightarrow> if P k v then Some v else None)"
  using assms
proof (induction xs)
  case Nil
  then show ?case by simp
next
  case (Cons x xs)
  obtain a b where x: "x = (a, b)" by (cases x)
  show ?case
  proof (cases "k = a")
    case True
    with Cons.prems x have "map_of xs k = None"
      by (auto simp: map_of_notin image_iff)
    with Cons True x show ?thesis by auto
  next
    case False
    with Cons x show ?thesis by auto
  qed
qed

lemma set_alist_delete: "set (AList.delete k xs) = {p \<in> set xs. fst p \<noteq> k}"
  by (auto simp: AList.delete_eq)

lemma distinct_snd_delete: "distinct (map snd xs) \<Longrightarrow> distinct (map snd (AList.delete k xs))"
  by (simp add: AList.delete_eq distinct_map_filter)

end
