(* ===== verification/GoStrings.thy ===== *)
theory GoStrings
  imports Prelude
begin

text \<open>
  The functions of Go's \<^verbatim>\<open>strings\<close> and \<^verbatim>\<open>crypto/subtle\<close> packages the program calls.
  A Go string is a sequence of bytes, so a \<^typ>\<open>string\<close> is a list of 8-bit characters
  and a non-ASCII rune is its UTF-8 encoding.
\<close>

section \<open>Splitting and joining\<close>

text \<open>\<^verbatim>\<open>strings.Split(s, sep)\<close> for a separator of one byte.\<close>

fun split_on :: "char \<Rightarrow> string \<Rightarrow> string list" where
  "split_on c [] = [[]]"
| "split_on c (x # xs) =
     (if x = c then [] # split_on c xs
      else case split_on c xs of [] \<Rightarrow> [[x]] | y # ys \<Rightarrow> (x # y) # ys)"

text \<open>\<^verbatim>\<open>strings.Join(xs, sep)\<close>.\<close>

fun join :: "string \<Rightarrow> string list \<Rightarrow> string" where
  "join sep [] = []"
| "join sep [x] = x"
| "join sep (x # y # ys) = x @ sep @ join sep (y # ys)"

lemma split_on_not_Nil [simp]: "split_on c s \<noteq> []"
  by (induction s) (auto split: list.splits)

lemma length_split_on: "length (split_on c s) = Suc (length (filter (\<lambda>x. x = c) s))"
  by (induction s) (auto split: list.splits)

lemma split_on_no_sep: "p \<in> set (split_on c s) \<Longrightarrow> c \<notin> set p"
  by (induction s arbitrary: p) (auto split: list.splits if_splits)

lemma split_on_single: "c \<notin> set s \<Longrightarrow> split_on c s = [s]"
  by (induction s) auto

lemma split_on_append: "split_on c (xs @ c # ys) = split_on c xs @ split_on c ys"
proof (induction xs)
  case Nil
  then show ?case by simp
next
  case (Cons x xs)
  obtain y zs where "split_on c xs = y # zs"
    by (meson neq_Nil_conv split_on_not_Nil)
  with Cons show ?case by simp
qed

lemma join_Cons: "ys \<noteq> [] \<Longrightarrow> join sep (x # ys) = x @ sep @ join sep ys"
  by (cases ys) auto

lemma join_split_on: "join [c] (split_on c s) = s"
proof (induction s)
  case Nil
  then show ?case by simp
next
  case (Cons x s)
  obtain y ys where y: "split_on c s = y # ys"
    by (meson neq_Nil_conv split_on_not_Nil)
  with Cons show ?case
    by (cases ys) auto
qed

lemma split_on_join:
  "ps \<noteq> [] \<Longrightarrow> \<forall>p \<in> set ps. c \<notin> set p \<Longrightarrow> split_on c (join [c] ps) = ps"
  by (induction "[c]" ps rule: join.induct) (auto simp: split_on_single split_on_append)

section \<open>White space\<close>

text \<open>
  \<^verbatim>\<open>unicode.IsSpace\<close>: the six ASCII blanks, and the Unicode ones by their UTF-8 bytes
  (U+0085, U+00A0, U+1680, U+2000 to U+200A, U+2028, U+2029, U+202F, U+205F, U+3000).
  No encoding is a prefix or a suffix of another, and each starts with a byte that no
  other rune contains but as its first, so matching the bytes is decoding the runes.
\<close>

definition space_runes :: "string list" where
  "space_runes =
     [[CHR 0x20], [CHR 0x09], [CHR 0x0A], [CHR 0x0B], [CHR 0x0C], [CHR 0x0D],
      [CHR 0xC2, CHR 0x85], [CHR 0xC2, CHR 0xA0], [CHR 0xE1, CHR 0x9A, CHR 0x80]]
     @ map (\<lambda>b. [CHR 0xE2, CHR 0x80, b])
         [CHR 0x80, CHR 0x81, CHR 0x82, CHR 0x83, CHR 0x84, CHR 0x85, CHR 0x86, CHR 0x87,
          CHR 0x88, CHR 0x89, CHR 0x8A, CHR 0xA8, CHR 0xA9, CHR 0xAF]
     @ [[CHR 0xE2, CHR 0x81, CHR 0x9F], [CHR 0xE3, CHR 0x80, CHR 0x80]]"

definition rune_len :: "string list \<Rightarrow> string \<Rightarrow> nat" where
  "rune_len rs s = (case find (\<lambda>r. take (length r) s = r) rs of None \<Rightarrow> 0 | Some r \<Rightarrow> length r)"

lemma rune_len_le: "rune_len rs s \<le> length s"
proof (cases "find (\<lambda>r. take (length r) s = r) rs")
  case (Some r)
  then have "take (length r) s = r" by (auto simp: find_Some_iff)
  then have "length r \<le> length s" by (metis length_take min.cobounded1)
  with Some show ?thesis by (simp add: rune_len_def)
qed (simp add: rune_len_def)

function trim_front :: "string list \<Rightarrow> string \<Rightarrow> string" where
  "trim_front rs s = (if rune_len rs s = 0 then s else trim_front rs (drop (rune_len rs s) s))"
  by pat_completeness auto
termination
proof (relation "measure (\<lambda>(rs, s). length s)")
  fix rs s assume "rune_len rs s \<noteq> 0"
  then show "((rs, drop (rune_len rs s) s), (rs, s)) \<in> measure (\<lambda>(rs, s). length s)"
    using rune_len_le [of rs s] by auto
qed simp

declare trim_front.simps [simp del]

text \<open>\<^verbatim>\<open>strings.TrimSpace\<close>: blanks off the front, then off the back.\<close>

definition trim_space :: "string \<Rightarrow> string" where
  "trim_space s =
     rev (trim_front (map rev space_runes) (rev (trim_front space_runes s)))"

text \<open>\<^verbatim>\<open>strings.Fields\<close>: the maximal runs without a blank.\<close>

function fields_from :: "string \<Rightarrow> string \<Rightarrow> string list" where
  "fields_from cur s =
     (case s of
        [] \<Rightarrow> (if cur = [] then [] else [cur])
      | c # cs \<Rightarrow>
          (let n = rune_len space_runes s in
           if n \<noteq> 0 then (if cur = [] then [] else [cur]) @ fields_from [] (drop n s)
           else fields_from (cur @ [c]) cs))"
  by pat_completeness auto
termination
  by (relation "measure (\<lambda>(cur, s). length s)") auto

declare fields_from.simps [simp del]

definition Fields :: "string \<Rightarrow> string list" where
  "Fields s = fields_from [] s"

section \<open>Prefixes and suffixes\<close>

definition has_prefix :: "string \<Rightarrow> string \<Rightarrow> bool" where
  "has_prefix s p \<longleftrightarrow> take (length p) s = p"

definition trim_prefix :: "string \<Rightarrow> string \<Rightarrow> string" where
  "trim_prefix s p = (if has_prefix s p then drop (length p) s else s)"

definition trim_suffix :: "string \<Rightarrow> string \<Rightarrow> string" where
  "trim_suffix s p =
     (if drop (length s - length p) s = p \<and> length p \<le> length s
      then take (length s - length p) s else s)"

text \<open>\<^verbatim>\<open>strings.TrimRight(s, cutset)\<close> for a cutset of one byte.\<close>

definition trim_right :: "string \<Rightarrow> char \<Rightarrow> string" where
  "trim_right s c = rev (dropWhile (\<lambda>x. x = c) (rev s))"

text \<open>\<^verbatim>\<open>strings.Index\<close> of one byte, cut as the callers do.\<close>

definition before_char :: "char \<Rightarrow> string \<Rightarrow> string option" where
  "before_char c s = (if c \<in> set s then Some (takeWhile (\<lambda>x. x \<noteq> c) s) else None)"

text \<open>
  \<^verbatim>\<open>strings.EqualFold(s, "true")\<close>: none of the four letters has a case variant outside
  ASCII, so lower-casing ASCII decides it.
\<close>

definition ascii_lower :: "char \<Rightarrow> char" where
  "ascii_lower c = (if 65 \<le> (of_char c :: nat) \<and> (of_char c :: nat) \<le> 90
     then char_of ((of_char c :: nat) + 32) else c)"

definition equal_fold_true :: "string \<Rightarrow> bool" where
  "equal_fold_true s \<longleftrightarrow> map ascii_lower s = ''true''"

section \<open>Constant-time comparison\<close>

text \<open>
  \<^verbatim>\<open>subtle.ConstantTimeCompare(x, y)\<close>: 0 on different lengths, else the OR of the XORs of
  all bytes, compared with 0.
\<close>

definition bytes_of :: "string \<Rightarrow> byte list" where
  "bytes_of s = map of_char s"

unbundle bit_operations_syntax

fun ct_diff :: "byte list \<Rightarrow> byte list \<Rightarrow> byte \<Rightarrow> byte" where
  "ct_diff (x # xs) (y # ys) v = ct_diff xs ys (v OR (x XOR y))"
| "ct_diff _ _ v = v"

definition constant_time_compare :: "string \<Rightarrow> string \<Rightarrow> int" where
  "constant_time_compare x y =
     (if length x \<noteq> length y then 0
      else if ct_diff (bytes_of x) (bytes_of y) 0 = 0 then 1 else 0)"

lemma or_eq_0_word: "(a :: byte) OR b = 0 \<longleftrightarrow> a = 0 \<and> b = 0"
  by (auto simp: bit_eq_iff bit_or_iff)

lemma xor_eq_0_word: "(a :: byte) XOR b = 0 \<longleftrightarrow> a = b"
  by (auto simp: bit_eq_iff bit_xor_iff)

lemma ct_diff_eq_0:
  "length xs = length ys \<Longrightarrow> ct_diff xs ys v = 0 \<longleftrightarrow> v = 0 \<and> xs = ys"
  by (induction xs ys v rule: ct_diff.induct) (auto simp: or_eq_0_word xor_eq_0_word)

lemma of_char_byte_eq: "(of_char c :: byte) = of_char d \<longleftrightarrow> c = d"
proof
  assume "(of_char c :: byte) = of_char d"
  then have "(of_nat (of_char c) :: byte) = of_nat (of_char d)"
    by (metis of_nat_of_char)
  then have "(of_char c :: nat) mod 256 = of_char d mod 256"
    by (simp add: word_of_nat_eq_iff take_bit_eq_mod)
  then show "c = d" by simp
qed simp

lemma bytes_of_eq: "bytes_of x = bytes_of y \<longleftrightarrow> x = y"
  by (auto simp: bytes_of_def inj_map_eq_map inj_def of_char_byte_eq)

text \<open>The comparison decides equality: the property every secret check below rests on.\<close>

lemma constant_time_compare_eq [simp]: "constant_time_compare x y = 1 \<longleftrightarrow> x = y"
proof (cases "length x = length y")
  case True
  then have "length (bytes_of x) = length (bytes_of y)" by (simp add: bytes_of_def)
  with True show ?thesis by (simp add: constant_time_compare_def ct_diff_eq_0 bytes_of_eq)
qed (auto simp: constant_time_compare_def)

lemmas trim_eval = trim_space_def trim_front.simps space_runes_def rune_len_def

end
