(* ===== verification/NetIP.thy ===== *)
theory NetIP
  imports GoStrings
begin

text \<open>
  The part of Go's \<^verbatim>\<open>net\<close> and \<^verbatim>\<open>net/netip\<close> packages the program relies on: parsing an
  address and a CIDR block, masks, containment in a network, equality of addresses and
  \<^verbatim>\<open>net.SplitHostPort\<close>. The functions follow the library's source, byte by byte; the last
  section relates the masking of bytes to the prefix of bits an operator means by
  \<open>a.b.c.d/n\<close>.
\<close>

section \<open>Addresses\<close>

text \<open>A \<^verbatim>\<open>net.IP\<close> is a list of 4 or 16 bytes.\<close>

type_synonym ip = "byte list"

datatype addr = V4 ip | V6 ip string \<comment> \<open>the zone of an IPv6 address, or empty\<close>

definition code :: "char \<Rightarrow> nat" where
  "code c = of_char c"

definition is_digit :: "char \<Rightarrow> bool" where
  "is_digit c \<longleftrightarrow> 48 \<le> code c \<and> code c \<le> 57"

definition digit_val :: "char \<Rightarrow> nat" where
  "digit_val c = code c - 48"

definition hex_val :: "char \<Rightarrow> nat option" where
  "hex_val c =
     (if is_digit c then Some (code c - 48)
      else if 97 \<le> code c \<and> code c \<le> 102 then Some (code c - 87)
      else if 65 \<le> code c \<and> code c \<le> 70 then Some (code c - 55)
      else None)"

text \<open>
  \<^verbatim>\<open>netip.parseIPv4Fields\<close>: \<open>prev\<close> is the character before the current one, \<open>fs\<close> the
  fields stored so far.
\<close>

fun parse_v4 :: "char option \<Rightarrow> string \<Rightarrow> nat \<Rightarrow> nat \<Rightarrow> nat list \<Rightarrow> nat list option" where
  "parse_v4 prev [] val digLen fs = (if length fs < 3 then None else Some (fs @ [val]))"
| "parse_v4 prev (c # cs) val digLen fs =
     (if is_digit c then
        if digLen = 1 \<and> val = 0 then None
        else let val' = val * 10 + digit_val c in
          if 255 < val' then None else parse_v4 (Some c) cs val' (digLen + 1) fs
      else if c = CHR ''.'' then
        if prev = None \<or> cs = [] \<or> prev = Some (CHR ''.'') then None
        else if length fs = 3 then None
        else parse_v4 (Some c) cs 0 0 (fs @ [val])
      else None)"

definition parse_v4_fields :: "string \<Rightarrow> ip option" where
  "parse_v4_fields s = map_option (map of_nat) (parse_v4 None s 0 0 [])"

text \<open>
  The run of hexadecimal digits at the front of a group: its value, its length and the
  rest of the string; \<open>None\<close> when it has more than four digits.
\<close>

fun hex_run :: "string \<Rightarrow> nat \<Rightarrow> nat \<Rightarrow> (nat \<times> nat \<times> string) option" where
  "hex_run [] acc off = Some (acc, off, [])"
| "hex_run (c # cs) acc off =
     (case hex_val c of
        None \<Rightarrow> Some (acc, off, c # cs)
      | Some d \<Rightarrow> if 3 < off then None else hex_run cs (acc * 16 + d) (off + 1))"

text \<open>
  The loop of \<^verbatim>\<open>netip.parseIPv6\<close>. The state is the rest of the string, the position of the
  ellipsis and the bytes stored so far; the result is that state when the loop ends.
\<close>

function v6_loop :: "string \<Rightarrow> nat option \<Rightarrow> ip \<Rightarrow> (string \<times> nat option \<times> ip) option" where
  "v6_loop s ell bs =
     (if 16 \<le> length bs then Some (s, ell, bs)
      else case hex_run s 0 0 of
        None \<Rightarrow> None
      | Some (acc, off, rest) \<Rightarrow>
          if off = 0 then None
          else if rest \<noteq> [] \<and> hd rest = CHR ''.'' then
            (if ell = None \<and> length bs \<noteq> 12 then None
             else if 16 < length bs + 4 then None
             else case parse_v4_fields s of
                None \<Rightarrow> None
              | Some four \<Rightarrow> Some ([], ell, bs @ four))
          else
            (let bs' = bs @ [of_nat (acc div 256), of_nat (acc mod 256)] in
             case rest of
               [] \<Rightarrow> Some ([], ell, bs')
             | [c] \<Rightarrow> None
             | c # d # rest' \<Rightarrow>
                 if c \<noteq> CHR '':'' then None
                 else if d = CHR '':'' then
                   (if ell \<noteq> None then None
                    else if rest' = [] then Some ([], Some (length bs'), bs')
                    else v6_loop rest' (Some (length bs')) bs')
                 else v6_loop (d # rest') ell bs'))"
  by pat_completeness auto
termination
  by (relation "measure (\<lambda>(s, ell, bs). 16 - length bs)") auto

declare v6_loop.simps [simp del]

text \<open>\<^verbatim>\<open>netip.parseIPv6\<close>: the zone, a leading ellipsis, the loop, the expansion.\<close>

definition expand_v6 :: "(string \<times> nat option \<times> ip) option \<Rightarrow> ip option" where
  "expand_v6 r =
     (case r of
        None \<Rightarrow> None
      | Some (s, ell, bs) \<Rightarrow>
          if s \<noteq> [] then None
          else if length bs < 16 then
            (case ell of
               None \<Rightarrow> None
             | Some e \<Rightarrow> Some (take e bs @ replicate (16 - length bs) 0 @ drop e bs))
          else if ell \<noteq> None then None
          else Some bs)"

definition parse_v6 :: "string \<Rightarrow> addr option" where
  "parse_v6 s0 =
     (let has_zone = CHR ''%'' \<in> set s0;
          s = takeWhile (\<lambda>c. c \<noteq> CHR ''%'') s0;
          zone = drop (length s + 1) s0
      in if has_zone \<and> zone = [] then None
         else if has_prefix s ''::'' then
           (if length s = 2 then Some (V6 (replicate 16 0) zone)
            else map_option (\<lambda>bs. V6 bs zone) (expand_v6 (v6_loop (drop 2 s) (Some 0) [])))
         else map_option (\<lambda>bs. V6 bs zone) (expand_v6 (v6_loop s None [])))"

text \<open>\<^verbatim>\<open>netip.ParseAddr\<close>: the first dot, colon or percent sign decides.\<close>

definition parse_addr :: "string \<Rightarrow> addr option" where
  "parse_addr s =
     (case find (\<lambda>c. c = CHR ''.'' \<or> c = CHR '':'' \<or> c = CHR ''%'') s of
        None \<Rightarrow> None
      | Some c \<Rightarrow>
          if c = CHR ''.'' then map_option V4 (parse_v4_fields s)
          else if c = CHR '':'' then parse_v6 s
          else None)"

definition v4_in_v6_prefix :: ip where
  "v4_in_v6_prefix = replicate 10 0 @ [255, 255]"

fun as16 :: "addr \<Rightarrow> ip" where
  "as16 (V4 bs) = v4_in_v6_prefix @ bs"
| "as16 (V6 bs z) = bs"

fun zone_of :: "addr \<Rightarrow> string" where
  "zone_of (V4 bs) = []"
| "zone_of (V6 bs z) = z"

fun bit_len :: "addr \<Rightarrow> nat" where
  "bit_len (V4 bs) = 32"
| "bit_len (V6 bs z) = 128"

text \<open>\<^verbatim>\<open>net.ParseIP\<close>: the 16-byte form, or nothing.\<close>

definition ParseIP :: "string \<Rightarrow> ip option" where
  "ParseIP s =
     (case parse_addr s of
        None \<Rightarrow> None
      | Some a \<Rightarrow> if zone_of a \<noteq> [] then None else Some (as16 a))"

text \<open>\<^verbatim>\<open>IP.To4\<close>.\<close>

definition To4 :: "ip \<Rightarrow> ip option" where
  "To4 a =
     (if length a = 4 then Some a
      else if length a = 16 \<and> take 12 a = v4_in_v6_prefix then Some (drop 12 a)
      else None)"

text \<open>\<^verbatim>\<open>IP.Equal\<close>: an IPv4 address and its IPv6 form are equal.\<close>

definition ip_Equal :: "ip \<Rightarrow> ip \<Rightarrow> bool" where
  "ip_Equal a b =
     (if length a = length b then a = b
      else if length a = 4 \<and> length b = 16 then take 12 b = v4_in_v6_prefix \<and> a = drop 12 b
      else if length a = 16 \<and> length b = 4 then take 12 a = v4_in_v6_prefix \<and> drop 12 a = b
      else False)"

section \<open>Networks\<close>

record ipnet =
  net_ip :: ip
  net_mask :: "byte list"

text \<open>
  \<^verbatim>\<open>net.CIDRMask(ones, bits)\<close>, whose callers pass \<open>0 \<le> ones \<le> bits\<close> and 32 or 128 bits:
  whole bytes of ones, then \<open>^byte(0xff >> n)\<close>.
\<close>

fun mask_bytes :: "nat \<Rightarrow> nat \<Rightarrow> byte list" where
  "mask_bytes 0 n = []"
| "mask_bytes (Suc l) n =
     (if 8 \<le> n then 255 # mask_bytes l (n - 8)
      else NOT (drop_bit n 255) # mask_bytes l 0)"

definition CIDRMask :: "nat \<Rightarrow> nat \<Rightarrow> byte list" where
  "CIDRMask ones bits = mask_bytes (bits div 8) ones"

definition and_bytes :: "byte list \<Rightarrow> byte list \<Rightarrow> byte list" where
  "and_bytes a m = map2 (AND) a m"

text \<open>
  \<^verbatim>\<open>IP.Mask(m)\<close> on a 16-byte address with a mask of 4 or 16 bytes, as \<^verbatim>\<open>ParseCIDR\<close> calls
  it; an IPv4 address is cut to four bytes for a mask of four.
\<close>

definition ip_Mask :: "ip \<Rightarrow> byte list \<Rightarrow> ip" where
  "ip_Mask a m =
     (let a' = (if length m = 4 \<and> length a = 16 \<and> take 12 a = v4_in_v6_prefix
                then drop 12 a else a)
      in if length a' \<noteq> length m then [] else and_bytes a' m)"

text \<open>\<^verbatim>\<open>dtoi\<close>: a decimal number below \<open>0xFFFFFF\<close>, its end, and whether there was one.\<close>

fun dtoi :: "string \<Rightarrow> nat \<Rightarrow> nat \<Rightarrow> (nat \<times> nat) option" where
  "dtoi [] n i = (if i = 0 then None else Some (n, i))"
| "dtoi (c # cs) n i =
     (if is_digit c then
        let n' = n * 10 + digit_val c in if 16777215 \<le> n' then None else dtoi cs n' (i + 1)
      else if i = 0 then None else Some (n, i))"

text \<open>\<^verbatim>\<open>net.ParseCIDR\<close>, the network it returns.\<close>

definition ParseCIDR :: "string \<Rightarrow> ipnet option" where
  "ParseCIDR s =
     (if CHR ''/'' \<notin> set s then None
      else let a = takeWhile (\<lambda>c. c \<noteq> CHR ''/'') s; m = drop (length a + 1) s in
        case parse_addr a of
          None \<Rightarrow> None
        | Some ad \<Rightarrow>
            if zone_of ad \<noteq> [] then None
            else case dtoi m 0 0 of
              None \<Rightarrow> None
            | Some (n, i) \<Rightarrow>
                if i \<noteq> length m \<or> bit_len ad < n then None
                else let mk = CIDRMask n (bit_len ad)
                     in Some \<lparr>net_ip = ip_Mask (as16 ad) mk, net_mask = mk\<rparr>)"

text \<open>\<^verbatim>\<open>networkNumberAndMask\<close> and \<^verbatim>\<open>IPNet.Contains\<close>.\<close>

definition network_number_and_mask :: "ipnet \<Rightarrow> (ip \<times> byte list) option" where
  "network_number_and_mask n =
     (case (case To4 (net_ip n) of
              Some a \<Rightarrow> Some a
            | None \<Rightarrow> if length (net_ip n) \<noteq> 16 then None else Some (net_ip n)) of
        None \<Rightarrow> None
      | Some a \<Rightarrow>
          (let m = net_mask n in
           if length m = 4 then (if length a \<noteq> 4 then None else Some (a, m))
           else if length m = 16 then Some (a, if length a = 4 then drop 12 m else m)
           else None))"

definition Contains :: "ipnet \<Rightarrow> ip \<Rightarrow> bool" where
  "Contains n a0 =
     (let a = (case To4 a0 of Some x \<Rightarrow> x | None \<Rightarrow> a0) in
      case network_number_and_mask n of
        None \<Rightarrow> length a = 0
      | Some (nn, m) \<Rightarrow>
          length a = length nn \<and> and_bytes nn m = and_bytes a m)"

section \<open>What a CIDR block means\<close>

text \<open>The bits of a list of bytes, most significant first.\<close>

definition byte_bits :: "byte \<Rightarrow> bool list" where
  "byte_bits b = map (bit b) (rev [0..<8])"

definition bits :: "byte list \<Rightarrow> bool list" where
  "bits a = concat (map byte_bits a)"

lemma length_byte_bits [simp]: "length (byte_bits b) = 8"
  by (simp add: byte_bits_def)

lemma bits_simps [simp]: "bits [] = []" "bits (b # bs) = byte_bits b @ bits bs"
  by (simp_all add: bits_def)

lemma byte_eq_iff: "a = b \<longleftrightarrow> (\<forall>i < 8. bit a i = bit b i)" for a b :: byte
  by (auto intro: bit_word_eqI)

lemma byte_bits_inj: "byte_bits a = byte_bits b \<longleftrightarrow> a = b"
  by (auto simp: byte_eq_iff byte_bits_def map_eq_conv)

lemma set_take_positions: "n \<le> 8 \<Longrightarrow> set (take n (rev [0..<8])) = {8 - n..<8}"
  by (simp add: take_rev)

lemma byte_255: "(255 :: byte) = mask 8"
  by (simp add: mask_eq_exp_minus_1)

lemma bit_byte_mask:
  "i < 8 \<Longrightarrow> n \<le> 8 \<Longrightarrow> bit (NOT (drop_bit n (255 :: byte))) i \<longleftrightarrow> 8 - n \<le> i"
  unfolding byte_255 by (auto simp: bit_not_iff bit_drop_bit_eq bit_mask_iff)

lemma and_255 [simp]: "(a :: byte) AND 255 = a"
  unfolding byte_255 by (simp flip: take_bit_eq_mask add: take_bit_word_eq_self)

lemma byte_mask_eq:
  fixes a b :: byte
  assumes "n \<le> 8"
  shows "a AND NOT (drop_bit n 255) = b AND NOT (drop_bit n 255)
    \<longleftrightarrow> take n (byte_bits a) = take n (byte_bits b)"
proof -
  have "a AND NOT (drop_bit n 255) = b AND NOT (drop_bit n 255)
      \<longleftrightarrow> (\<forall>i < 8. 8 - n \<le> i \<longrightarrow> bit a i = bit b i)"
    using assms by (auto simp: byte_eq_iff bit_and_iff bit_byte_mask)
  also have "\<dots> \<longleftrightarrow> (\<forall>i \<in> set (take n (rev [0..<8])). bit a i = bit b i)"
    unfolding set_take_positions [OF assms] by auto
  also have "\<dots> \<longleftrightarrow> take n (byte_bits a) = take n (byte_bits b)"
    by (simp only: byte_bits_def take_map map_eq_conv)
  finally show ?thesis .
qed

lemma length_mask_bytes [simp]: "length (mask_bytes l n) = l"
  by (induction l n rule: mask_bytes.induct) auto

lemma mask_bytes_bits:
  assumes "length a = l" and "length b = l"
  shows "and_bytes a (mask_bytes l n) = and_bytes b (mask_bytes l n)
    \<longleftrightarrow> take n (bits a) = take n (bits b)"
  using assms
proof (induction l n arbitrary: a b rule: mask_bytes.induct)
  case (1 n)
  then show ?case by (simp add: and_bytes_def)
next
  case (2 l n)
  obtain x xs y ys where ab: "a = x # xs" "b = y # ys"
    using "2.prems" by (metis length_Suc_conv)
  show ?case
  proof (cases "8 \<le> n")
    case True
    with ab "2.IH"(1) [OF True, of xs ys] "2.prems" show ?thesis
      by (auto simp: and_bytes_def byte_bits_inj)
  next
    case False
    with ab "2.IH"(2) [OF False, of xs ys] "2.prems" show ?thesis
      by (simp add: and_bytes_def byte_mask_eq)
  qed
qed

lemma and_bytes_idem [simp]: "and_bytes (and_bytes a m) m = and_bytes a m"
  by (induction a m rule: list_induct2') (simp_all add: and_bytes_def and.assoc)

lemma length_and_bytes [simp]: "length (and_bytes a m) = min (length a) (length m)"
  by (simp add: and_bytes_def)

lemma parse_v4_length: "parse_v4 prev s v d fs = Some r \<Longrightarrow> length fs \<le> 3 \<Longrightarrow> length r = 4"
  by (induction prev s v d fs rule: parse_v4.induct)
    (auto simp: Let_def split: if_splits)

lemma parse_v4_fields_length: "parse_v4_fields s = Some r \<Longrightarrow> length r = 4"
  by (auto simp: parse_v4_fields_def dest: parse_v4_length)

lemma parse_addr_V4_length: "parse_addr s = Some (V4 bs) \<Longrightarrow> length bs = 4"
  by (auto simp: parse_addr_def parse_v6_def Let_def
      dest: parse_v4_fields_length split: option.splits if_splits)

lemma v6_loop_inv:
  "v6_loop s ell bs = Some (s', ell', bs') \<Longrightarrow> length bs \<le> 16 \<Longrightarrow> even (length bs) \<Longrightarrow>
   (\<forall>e. ell = Some e \<longrightarrow> e \<le> length bs) \<Longrightarrow>
   length bs' \<le> 16 \<and> (\<forall>e. ell' = Some e \<longrightarrow> e \<le> length bs')"
proof (induction s ell bs arbitrary: s' ell' bs' rule: v6_loop.induct)
  case (1 s ell bs)
  show ?case
  proof (cases "16 \<le> length bs")
    case True
    with "1.prems" show ?thesis by (simp add: v6_loop.simps [of s ell bs])
  next
    case False
    have len: "length bs \<le> 14" using False "1.prems"(3) by presburger
    obtain acc off rest where run: "hex_run s 0 0 = Some (acc, off, rest)"
      using "1.prems"(1) False by (auto simp: v6_loop.simps [of s ell bs] split: option.splits)
    note eq = "1.prems"(1) [unfolded v6_loop.simps [of s ell bs]]
    note IH = "1.IH" [OF False run refl refl]
    show ?thesis
    proof (cases "rest \<noteq> [] \<and> hd rest = CHR ''.''")
      case True
      with eq run False "1.prems"(4) show ?thesis
        by (auto dest!: parse_v4_fields_length split: if_splits option.splits)
    next
      case noDot: False
      have "\<forall>e. ell = Some e \<longrightarrow> e \<le> Suc (Suc (length bs))"
        using "1.prems"(4) by auto
      then show ?thesis
        using eq run False noDot len "1.prems" IH(1,2)
        by (auto simp: Let_def split: if_splits list.splits)
    qed
  qed
qed

lemma expand_v6_length:
  assumes "expand_v6 (v6_loop s ell []) = Some bs" and "ell = None \<or> ell = Some 0"
  shows "length bs = 16"
proof -
  obtain s' ell' bs' where loop: "v6_loop s ell [] = Some (s', ell', bs')"
    using assms(1) by (auto simp: expand_v6_def split: option.splits prod.splits)
  have "length bs' \<le> 16 \<and> (\<forall>e. ell' = Some e \<longrightarrow> e \<le> length bs')"
    using v6_loop_inv [OF loop] assms(2) by auto
  with assms(1) loop show ?thesis
    by (auto simp: expand_v6_def split: if_splits option.splits)
qed

lemma parse_addr_V6_length: "parse_addr s = Some (V6 bs z) \<Longrightarrow> length bs = 16"
  by (auto simp: parse_addr_def parse_v6_def Let_def dest: expand_v6_length
      split: option.splits if_splits)

lemma length_v4_prefix [simp]: "length v4_in_v6_prefix = 12"
  by (simp add: v4_in_v6_prefix_def)

lemma parse_addr_as16_length: "parse_addr s = Some ad \<Longrightarrow> length (as16 ad) = 16"
  by (cases ad) (auto dest: parse_addr_V4_length parse_addr_V6_length)

lemma ParseIP_length: "ParseIP s = Some a \<Longrightarrow> length a = 16"
  by (auto simp: ParseIP_def dest: parse_addr_as16_length split: option.splits if_splits)

lemma To4_length: "To4 a = Some b \<Longrightarrow> length b = 4"
  by (auto simp: To4_def split: if_splits)

lemma To4_v4_prefix [simp]: "length b = 4 \<Longrightarrow> To4 (v4_in_v6_prefix @ b) = Some b"
  by (simp add: To4_def)

lemma To4_4 [simp]: "length b = 4 \<Longrightarrow> To4 b = Some b"
  by (simp add: To4_def)

lemma To4_None_length: "To4 a = None \<Longrightarrow> length a \<noteq> 4"
  by (auto simp: To4_def)

text \<open>
  The network of an IPv4 block \<open>a/n\<close>: it holds exactly the addresses that are IPv4 (in
  either form) and agree with \<open>a\<close> on the first \<open>n\<close> bits.
\<close>

definition v4_net :: "ip \<Rightarrow> nat \<Rightarrow> ipnet" where
  "v4_net a n = \<lparr>net_ip = ip_Mask (v4_in_v6_prefix @ a) (CIDRMask n 32), net_mask = CIDRMask n 32\<rparr>"

lemma Contains_v4_net:
  assumes "length a = 4"
  shows "Contains (v4_net a n) b \<longleftrightarrow>
    (\<exists>c. To4 b = Some c \<and> take n (bits c) = take n (bits a))"
proof -
  let ?m = "mask_bytes 4 n"
  have net: "network_number_and_mask (v4_net a n) = Some (and_bytes a ?m, ?m)"
    using assms by (simp add: v4_net_def ip_Mask_def CIDRMask_def network_number_and_mask_def Let_def)
  show ?thesis
  proof (cases "To4 b")
    case None
    then show ?thesis
      using To4_None_length [OF None] assms by (auto simp: Contains_def net)
  next
    case (Some c)
    then have "length c = 4" by (rule To4_length)
    with assms have "and_bytes a ?m = and_bytes c ?m \<longleftrightarrow> take n (bits c) = take n (bits a)"
      using mask_bytes_bits [of a 4 c n] by auto
    with Some assms \<open>length c = 4\<close> show ?thesis
      by (simp add: Contains_def net)
  qed
qed

text \<open>
  An IPv6 block against an address that is not IPv4 in disguise: the same reading on 128
  bits, as long as the block itself is not inside \<open>::ffff:0:0/96\<close>.
\<close>

definition v6_net :: "ip \<Rightarrow> nat \<Rightarrow> ipnet" where
  "v6_net a n = \<lparr>net_ip = ip_Mask a (CIDRMask n 128), net_mask = CIDRMask n 128\<rparr>"

lemma Contains_v6_net:
  assumes "length a = 16" and "length b = 16" and "To4 b = None"
    and "To4 (and_bytes a (CIDRMask n 128)) = None"
  shows "Contains (v6_net a n) b \<longleftrightarrow> take n (bits b) = take n (bits a)"
proof -
  let ?m = "mask_bytes 16 n"
  have "network_number_and_mask (v6_net a n) = Some (and_bytes a ?m, ?m)"
    using assms by (simp add: v6_net_def ip_Mask_def CIDRMask_def network_number_and_mask_def Let_def)
  moreover have "and_bytes a ?m = and_bytes b ?m \<longleftrightarrow> take n (bits b) = take n (bits a)"
    using mask_bytes_bits [of a 16 b n] assms by auto
  ultimately show ?thesis using assms by (simp add: Contains_def)
qed

lemma ParseCIDR_v4:
  assumes "CHR ''/'' \<notin> set a" and "parse_addr a = Some (V4 bs)"
    and "dtoi m 0 0 = Some (n, length m)" and "n \<le> 32"
  shows "ParseCIDR (a @ ''/'' @ m) = Some (v4_net bs n)"
proof -
  have "takeWhile (\<lambda>c. c \<noteq> CHR ''/'') (a @ CHR ''/'' # m) = a"
    using assms(1) by (simp add: takeWhile_append2 takeWhile_eq_all_conv takeWhile_tail)
      (metis (mono_tags, lifting) takeWhile_append2 takeWhile.simps(2) append_Nil2)
  with assms show ?thesis
    by (simp add: ParseCIDR_def v4_net_def Let_def)
qed

section \<open>Host and port\<close>

definition last_index :: "char \<Rightarrow> string \<Rightarrow> nat option" where
  "last_index c s =
     (if c \<in> set s then Some (length s - 1 - length (takeWhile (\<lambda>x. x \<noteq> c) (rev s))) else None)"

definition first_index :: "char \<Rightarrow> string \<Rightarrow> nat option" where
  "first_index c s =
     (if c \<in> set s then Some (length (takeWhile (\<lambda>x. x \<noteq> c) s)) else None)"

text \<open>\<^verbatim>\<open>net.SplitHostPort\<close>: host and port, or nothing for every error.\<close>

definition SplitHostPort :: "string \<Rightarrow> (string \<times> string) option" where
  "SplitHostPort hp =
     (case last_index (CHR '':'') hp of
        None \<Rightarrow> None
      | Some i \<Rightarrow>
          (case (if hd hp = CHR ''['' then
                   (case first_index (CHR '']'') hp of
                      None \<Rightarrow> None
                    | Some e \<Rightarrow> if e + 1 = i then Some (take (e - 1) (drop 1 hp), 1, e + 1) else None)
                 else if CHR '':'' \<in> set (take i hp) then None
                 else Some (take i hp, 0, 0)) of
             None \<Rightarrow> None
           | Some (host, j, k) \<Rightarrow>
               if CHR ''['' \<in> set (drop j hp) \<or> CHR '']'' \<in> set (drop k hp) then None
               else Some (host, drop (i + 1) hp)))"

lemmas [go_unfold] =
  code_def is_digit_def digit_val_def hex_val_def parse_v4_fields_def parse_addr_def
  parse_v6_def expand_v6_def ParseIP_def To4_def ip_Equal_def CIDRMask_def and_bytes_def
  ip_Mask_def ParseCIDR_def network_number_and_mask_def Contains_def last_index_def
  first_index_def SplitHostPort_def v4_in_v6_prefix_def has_prefix_def

end
