(* ===== verification/Http.thy ===== *)
theory Http
  imports NetIP
begin

text \<open>
  Requests, responses and JSON values: what the handlers of the program read from
  \<^verbatim>\<open>net/http\<close> and write to it. Headers are looked up under their canonical name; a header
  that occurs on several lines has several values and \<^verbatim>\<open>Header.Get\<close> returns the first.
\<close>

section \<open>JSON values\<close>

text \<open>
  What \<^verbatim>\<open>encoding/json\<close> stores in an \<^verbatim>\<open>interface{}\<close>. A number is a float64, so a dyadic
  rational: \<open>JNum m k\<close> is \<open>m / 2 ^ k\<close>.
\<close>

datatype json =
    JNull
  | JBool bool
  | JNum int nat
  | JStr string
  | JArr "json list"
  | JObj "(string \<times> json) list"

section \<open>Requests and responses\<close>

record request =
  Method :: string
  Path :: string \<comment> \<open>as sent, escaped\<close>
  RemoteAddr :: string
  Header :: "string \<Rightarrow> string list"
  Body :: "string option" \<comment> \<open>\<open>None\<close>: the connection fails while the body is read\<close>
  Cookies :: "(string \<times> string) list"
  Form :: "(string \<times> string) list option" \<comment> \<open>\<open>None\<close>: \<^verbatim>\<open>ParseForm\<close> fails\<close>
  over_TLS :: bool
  Proto :: string

datatype 'p body =
    Text string
  | Json json
  | Page 'p

record 'p response =
  status :: nat
  headers :: "(string \<times> string) list"
  body :: "'p body"

text \<open>A handler runs on a state of the server and answers a request.\<close>

type_synonym ('s, 'p) handler = "'s \<Rightarrow> request \<Rightarrow> 's \<times> 'p response"

definition header_get :: "request \<Rightarrow> string \<Rightarrow> string" where
  "header_get r k = (case Header r k of [] \<Rightarrow> [] | v # vs \<Rightarrow> v)"

definition json_header :: "(string \<times> string) list" where
  "json_header = [(''Content-Type'', ''application/json'')]"

abbreviation "StatusOK \<equiv> 200 :: nat"
abbreviation "StatusSeeOther \<equiv> 303 :: nat"
abbreviation "StatusBadRequest \<equiv> 400 :: nat"
abbreviation "StatusUnauthorized \<equiv> 401 :: nat"
abbreviation "StatusForbidden \<equiv> 403 :: nat"
abbreviation "StatusNotFound \<equiv> 404 :: nat"
abbreviation "StatusMethodNotAllowed \<equiv> 405 :: nat"
abbreviation "StatusRequestEntityTooLarge \<equiv> 413 :: nat"
abbreviation "StatusTooManyRequests \<equiv> 429 :: nat"
abbreviation "StatusInternalServerError \<equiv> 500 :: nat"

text \<open>A decimal number as \<^verbatim>\<open>fmt\<close> prints it with \<^verbatim>\<open>%d\<close>.\<close>

fun dec_nat :: "nat \<Rightarrow> string" where
  "dec_nat n = (if n < 10 then [char_of (n + 48)] else dec_nat (n div 10) @ [char_of (n mod 10 + 48)])"

declare dec_nat.simps [simp del]

definition dec_int :: "int \<Rightarrow> string" where
  "dec_int i = (if i < 0 then ''-'' @ dec_nat (nat (- i)) else dec_nat (nat i))"

section \<open>The client address behind proxies\<close>

text \<open>The host of the direct peer, or its whole address when it has no port.\<close>

definition peer :: "request \<Rightarrow> string" where
  "peer r = (case SplitHostPort (RemoteAddr r) of Some (h, p) \<Rightarrow> h | None \<Rightarrow> RemoteAddr r)"

definition forwarded_parts :: "request \<Rightarrow> string list" where
  "forwarded_parts r = map trim_space (split_on (CHR '','') (header_get r ''X-Forwarded-For''))"

lemma peer_Header [simp]: "peer (r\<lparr>Header := h\<rparr>) = peer r"
  by (simp add: peer_def split: option.split)

text \<open>Searching a list from its end.\<close>

lemma find_rev_last:
  assumes "xs = ls @ x # ts" and "P x" and "\<forall>t \<in> set ts. \<not> P t"
  shows "find P (rev xs) = Some x"
proof -
  have "find P (rev ts @ [x] @ rev ls) = Some x"
    using assms(2,3) by (induction ts rule: rev_induct) auto
  then show ?thesis using assms(1) by simp
qed

text \<open>
  The contract both middleware packages give for the address they act on, each with its
  own copy of the code: the peer itself when it is no trusted proxy or when every hop is
  one, else the last hop of the first \<open>X-Forwarded-For\<close> line that is not a trusted proxy.
\<close>

locale forwarded_for =
  fixes trusted_ip :: "string \<Rightarrow> bool"
    and client_ip :: "request \<Rightarrow> string"
  assumes direct_peer: "\<not> trusted_ip (peer r) \<Longrightarrow> client_ip r = peer r"
    and no_header: "header_get r ''X-Forwarded-For'' = [] \<Longrightarrow> client_ip r = peer r"
    and last_untrusted: "trusted_ip (peer r) \<Longrightarrow> header_get r ''X-Forwarded-For'' \<noteq> [] \<Longrightarrow>
      forwarded_parts r = ls @ x # ts \<Longrightarrow> \<not> trusted_ip x \<Longrightarrow> \<forall>t \<in> set ts. trusted_ip t \<Longrightarrow>
      client_ip r = x"
    and all_trusted: "trusted_ip (peer r) \<Longrightarrow> \<forall>t \<in> set (forwarded_parts r). trusted_ip t \<Longrightarrow>
      client_ip r = peer r"
begin

lemma headers_ignored: "\<not> trusted_ip (peer r) \<Longrightarrow> client_ip (r\<lparr>Header := h\<rparr>) = peer r"
  using direct_peer [of "r\<lparr>Header := h\<rparr>"] by simp

lemma client_ip_cases:
  "client_ip r = peer r \<or>
   trusted_ip (peer r) \<and> \<not> trusted_ip (client_ip r) \<and> client_ip r \<in> set (forwarded_parts r)"
proof (cases "trusted_ip (peer r) \<and> header_get r ''X-Forwarded-For'' \<noteq> []
    \<and> \<not> (\<forall>t \<in> set (forwarded_parts r). trusted_ip t)")
  case True
  then have "\<exists>t \<in> set (forwarded_parts r). \<not> trusted_ip t" by blast
  from split_list_last_prop [OF this] obtain ls x ts where
    parts: "forwarded_parts r = ls @ x # ts" "\<not> trusted_ip x" "\<forall>t \<in> set ts. trusted_ip t"
    by auto
  then have "client_ip r = x" using last_untrusted True by blast
  with True parts show ?thesis by simp
next
  case False
  then show ?thesis using direct_peer no_header all_trusted by blast
qed

text \<open>What a proxy appends to the line decides; what the client wrote before it does not.\<close>

lemma appended_hop_decides:
  assumes "trusted_ip (peer r)"
    and "Header r ''X-Forwarded-For'' = (forged @ '','' @ hop) # rest"
    and "CHR '','' \<notin> set hop" and "\<not> trusted_ip (trim_space hop)"
  shows "client_ip r = trim_space hop"
proof (rule last_untrusted [OF assms(1)])
  show "forwarded_parts r =
      map trim_space (split_on (CHR '','') forged) @ trim_space hop # []"
    using assms(2,3) by (simp add: forwarded_parts_def header_get_def split_on_append split_on_single)
qed (use assms in \<open>auto simp: header_get_def\<close>)

text \<open>
  A second line is never read: the address comes from the first line alone, even when the
  proxy reports the true peer on a line of its own.
\<close>

lemma later_lines_ignored:
  assumes "Header r ''X-Forwarded-For'' = v # vs" and "Header r' = (Header r)(''X-Forwarded-For'' := v # ws)"
    and "RemoteAddr r' = RemoteAddr r"
  shows "client_ip r' = client_ip r"
proof -
  have same: "peer r' = peer r" "header_get r' ''X-Forwarded-For'' = header_get r ''X-Forwarded-For''"
    "forwarded_parts r' = forwarded_parts r"
    using assms by (simp_all add: peer_def header_get_def forwarded_parts_def split: option.split)
  show ?thesis
  proof (cases "trusted_ip (peer r) \<and> header_get r ''X-Forwarded-For'' \<noteq> []
      \<and> (\<exists>t \<in> set (forwarded_parts r). \<not> trusted_ip t)")
    case True
    then obtain ls x ts where
      parts: "forwarded_parts r = ls @ x # ts" "\<not> trusted_ip x" "\<forall>t \<in> set ts. trusted_ip t"
      using split_list_last_prop [of "forwarded_parts r" "\<lambda>t. \<not> trusted_ip t"] by auto
    then show ?thesis
      using True same last_untrusted [of r ls x ts] last_untrusted [of r' ls x ts] by simp
  next
    case False
    then have "client_ip r = peer r"
      using direct_peer no_header all_trusted by blast
    moreover have "client_ip r' = peer r'"
      using False same direct_peer [of r'] no_header [of r'] all_trusted [of r'] by auto
    ultimately show ?thesis using same by simp
  qed
qed

end

text \<open>Code that searches the hops from the right for an address it does not trust keeps the contract.\<close>

definition forwarded_client :: "(string \<Rightarrow> bool) \<Rightarrow> request \<Rightarrow> string" where
  "forwarded_client trusted r =
     (if trusted (peer r) \<and> header_get r ''X-Forwarded-For'' \<noteq> [] then
        case find (\<lambda>ip. \<not> trusted ip) (rev (forwarded_parts r)) of
          Some ip \<Rightarrow> ip | None \<Rightarrow> peer r
      else peer r)"

lemma forwarded_forI:
  assumes "client = forwarded_client trusted"
  shows "forwarded_for trusted client"
proof
  fix r ls x ts
  assume "forwarded_parts r = ls @ x # ts" "\<not> trusted x" "\<forall>t \<in> set ts. trusted t"
  then have "find (\<lambda>ip. \<not> trusted ip) (rev (forwarded_parts r)) = Some x"
    by (intro find_rev_last) auto
  moreover assume "trusted (peer r)" "header_get r ''X-Forwarded-For'' \<noteq> []"
  ultimately show "client r = x" by (simp add: assms forwarded_client_def)
next
  fix r
  assume "\<forall>t \<in> set (forwarded_parts r). trusted t"
  then have "find (\<lambda>ip. \<not> trusted ip) (rev (forwarded_parts r)) = None"
    by (simp add: find_None_iff)
  then show "client r = peer r" by (simp add: assms forwarded_client_def)
qed (simp_all add: assms forwarded_client_def)

end
