(* ===== verification/RateLimit.thy ===== *)
theory RateLimit
  imports Http
begin

text \<open>
  \<^verbatim>\<open>pkg/ratelimit\<close>: the sliding-window limiter per client address. The map from address to
  \<^verbatim>\<open>*client\<close> is an association list of addresses and references, and the \<^verbatim>\<open>client\<close> objects
  live in a store, because a request keeps its reference while the map changes under it.
  The clock value a method reads with \<^verbatim>\<open>time.Now()\<close> is an argument.
\<close>

section \<open>The limiter\<close>

record limiter =
  rl_requests :: int
  rl_window :: duration
  rl_clients :: "(string \<times> nat) list"
  rl_heap :: "nat \<Rightarrow> time list"
  rl_next :: nat
  rl_trusted :: "ipnet list"

fun rl_parseNets :: "string list \<Rightarrow> ipnet list" where
  "rl_parseNets [] = []"
| "rl_parseNets (e # es) =
     (let s = trim_space e in
      if s = [] then rl_parseNets es
      else case ParseCIDR s of
        Some n \<Rightarrow> n # rl_parseNets es
      | None \<Rightarrow>
          (case ParseIP s of
             Some a \<Rightarrow>
               (let bits = (if To4 a = None then 128 else 32)
                in \<lparr>net_ip = a, net_mask = CIDRMask bits bits\<rparr> # rl_parseNets es)
           | None \<Rightarrow> rl_parseNets es))"

definition rl_New :: "int \<Rightarrow> duration \<Rightarrow> string list \<Rightarrow> limiter" where
  "rl_New reqs win trustedProxies =
     \<lparr>rl_requests = reqs,
      rl_window = (if win \<le> 0 then minute else win),
      rl_clients = [],
      rl_heap = (\<lambda>c. []),
      rl_next = 0,
      rl_trusted = rl_parseNets trustedProxies\<rparr>"

text \<open>The receiver may be a nil pointer.\<close>

definition rl_IsEnabled :: "limiter option \<Rightarrow> bool" where
  "rl_IsEnabled l = (case l of None \<Rightarrow> False | Some l \<Rightarrow> 0 < rl_requests l)"

text \<open>
  \<^verbatim>\<open>Allow\<close> takes two locks one after the other: the limiter's, to find or make the client
  object, and then the client's, to count.
\<close>

definition rl_lookup :: "limiter \<Rightarrow> string \<Rightarrow> limiter \<times> nat" where
  "rl_lookup l ip =
     (case map_of (rl_clients l) ip of
        Some c \<Rightarrow> (l, c)
      | None \<Rightarrow>
          (let c = rl_next l in
           (l\<lparr>rl_heap := (rl_heap l)(c := []),
              rl_clients := AList.update ip c (rl_clients l),
              rl_next := c + 1\<rparr>, c)))"

definition rl_count :: "limiter \<Rightarrow> nat \<Rightarrow> time \<Rightarrow> limiter \<times> bool" where
  "rl_count l c now =
     (let cutoff = now - rl_window l;
          valid = filter (\<lambda>ts. after ts cutoff) (rl_heap l c);
          l1 = l\<lparr>rl_heap := (rl_heap l)(c := valid)\<rparr>
      in if rl_requests l \<le> int (length valid) then (l1, False)
         else (l1\<lparr>rl_heap := (rl_heap l1)(c := valid @ [now])\<rparr>, True))"

definition rl_Allow :: "limiter \<Rightarrow> string \<Rightarrow> time \<Rightarrow> limiter \<times> bool" where
  "rl_Allow l ip now =
     (if \<not> rl_IsEnabled (Some l) then (l, True)
      else let (l1, c) = rl_lookup l ip in rl_count l1 c now)"

text \<open>\<^verbatim>\<open>Cleanup\<close>: one pass over the map, in whatever order, with the limiter's lock held.\<close>

definition rl_cleanup_client :: "time \<Rightarrow> string \<times> nat \<Rightarrow> limiter \<Rightarrow> limiter" where
  "rl_cleanup_client cutoff e l =
     (let (ip, c) = e;
          valid = filter (\<lambda>ts. after ts cutoff) (rl_heap l c);
          l1 = l\<lparr>rl_heap := (rl_heap l)(c := valid)\<rparr>
      in if valid = [] then l1\<lparr>rl_clients := AList.delete ip (rl_clients l1)\<rparr> else l1)"

definition rl_Cleanup :: "limiter \<Rightarrow> time \<Rightarrow> limiter" where
  "rl_Cleanup l now =
     (if \<not> rl_IsEnabled (Some l) then l
      else fold (rl_cleanup_client (now - rl_window l)) (rl_clients l) l)"

section \<open>The client address and the middleware\<close>

definition rl_isTrustedProxy :: "limiter \<Rightarrow> string \<Rightarrow> bool" where
  "rl_isTrustedProxy l ip =
     (case ParseIP ip of
        None \<Rightarrow> False
      | Some parsed \<Rightarrow> list_ex (\<lambda>n. Contains n parsed) (rl_trusted l))"

definition rl_extractIP :: "limiter \<Rightarrow> request \<Rightarrow> string" where
  "rl_extractIP l r =
     (let host = (case SplitHostPort (RemoteAddr r) of Some (h, _) \<Rightarrow> h | None \<Rightarrow> RemoteAddr r)
      in if rl_isTrustedProxy l host then
           (let xff = header_get r ''X-Forwarded-For'' in
            if xff \<noteq> [] then
              (case find (\<lambda>ip. \<not> rl_isTrustedProxy l ip)
                      (map trim_space (rev (split_on (CHR '','') xff))) of
                 Some ip \<Rightarrow> ip
               | None \<Rightarrow> host)
            else host)
         else host)"

text \<open>
  The middleware wraps a handler over any server state: \<open>get\<close> and \<open>put\<close> reach the limiter
  the closure holds, \<open>clock\<close> is \<^verbatim>\<open>time.Now\<close>.
\<close>

definition rl_Middleware ::
  "('s \<Rightarrow> limiter) \<Rightarrow> (limiter \<Rightarrow> 's \<Rightarrow> 's) \<Rightarrow> ('s \<Rightarrow> time) \<Rightarrow> ('s, 'p) handler \<Rightarrow> ('s, 'p) handler" where
  "rl_Middleware get put clock next_handler s r =
     (if \<not> rl_IsEnabled (Some (get s)) then next_handler s r
      else let ip = rl_extractIP (get s) r;
               (l, ok) = rl_Allow (get s) ip (clock s);
               s1 = put l s
           in if \<not> ok then
                (s1, \<lparr>status = StatusTooManyRequests,
                      headers = json_header @ [(''Retry-After'', dec_int (int_seconds (rl_window l)))],
                      body = Text ''{\"error\": \"rate limit exceeded\"}''\<rparr>)
              else next_handler s1 r)"

section \<open>Well-formed limiters and the timestamps of an address\<close>

definition rl_wf :: "limiter \<Rightarrow> bool" where
  "rl_wf l \<longleftrightarrow>
     distinct (map fst (rl_clients l)) \<and> distinct (map snd (rl_clients l)) \<and>
     (\<forall>c \<in> snd ` set (rl_clients l). c < rl_next l) \<and> 0 < rl_window l"

definition stamps :: "limiter \<Rightarrow> string \<Rightarrow> time list" where
  "stamps l ip = (case map_of (rl_clients l) ip of None \<Rightarrow> [] | Some c \<Rightarrow> rl_heap l c)"

abbreviation live :: "time \<Rightarrow> time list \<Rightarrow> time list" where
  "live cutoff \<equiv> filter (\<lambda>ts. after ts cutoff)"

lemma rl_wf_New [wf_intros]: "rl_wf (rl_New n w ps)"
  by (simp add: rl_wf_def rl_New_def)

lemma stamps_New [simp]: "stamps (rl_New n w ps) ip = []"
  by (simp add: stamps_def rl_New_def)

lemma rl_IsEnabled_Some [simp]: "rl_IsEnabled (Some l) \<longleftrightarrow> 0 < rl_requests l"
  by (simp add: rl_IsEnabled_def)

lemma rl_wf_refs:
  assumes "rl_wf l" and "map_of (rl_clients l) a = Some c" and "map_of (rl_clients l) b = Some c"
  shows "a = b"
proof -
  have "(a, c) \<in> set (rl_clients l)" "(b, c) \<in> set (rl_clients l)"
    using assms(2,3) by (auto dest: map_of_SomeD)
  moreover have "distinct (map snd (rl_clients l))" using assms(1) by (simp add: rl_wf_def)
  ultimately show ?thesis using distinct_map_inj [of snd "rl_clients l" "(a, c)" "(b, c)"] by simp
qed

lemma rl_wf_fresh: "rl_wf l \<Longrightarrow> map_of (rl_clients l) a = Some c \<Longrightarrow> c \<noteq> rl_next l"
  by (auto simp: rl_wf_def dest: map_of_SomeD)

lemma rl_lookup_new:
  assumes "rl_wf l" and none: "map_of (rl_clients l) ip = None"
  shows "rl_wf (fst (rl_lookup l ip)) \<and> stamps (fst (rl_lookup l ip)) = stamps l"
proof -
  let ?l1 = "l\<lparr>rl_heap := (rl_heap l)(rl_next l := []),
      rl_clients := AList.update ip (rl_next l) (rl_clients l), rl_next := rl_next l + 1\<rparr>"
  have fresh: "ip \<notin> fst ` set (rl_clients l)" using none by (simp add: map_of_notin)
  have "fst (rl_lookup l ip) = ?l1" using none by (simp add: rl_lookup_def Let_def)
  moreover have "rl_wf ?l1"
    using assms(1) fresh by (fastforce simp: rl_wf_def snd_update_fresh [OF fresh])
  moreover have "stamps ?l1 x = stamps l x" for x
    using none rl_wf_fresh [OF assms(1), of x]
    by (cases "map_of (rl_clients l) x") (auto simp: stamps_def map_of_update_eq)
  ultimately show ?thesis by auto
qed

lemma rl_lookup_spec:
  assumes "rl_wf l" and "rl_lookup l ip = (l1, c)"
  shows "rl_wf l1" "map_of (rl_clients l1) ip = Some c" "rl_heap l1 c = stamps l ip"
    "stamps l1 = stamps l" "rl_window l1 = rl_window l" "rl_requests l1 = rl_requests l"
    "rl_trusted l1 = rl_trusted l"
proof -
  have "rl_wf l1 \<and> stamps l1 = stamps l"
  proof (cases "map_of (rl_clients l) ip")
    case None
    with rl_lookup_new [OF assms(1) None] assms(2) show ?thesis by simp
  next
    case (Some c')
    with assms show ?thesis by (simp add: rl_lookup_def)
  qed
  then show "rl_wf l1" "stamps l1 = stamps l" by simp_all
  show "map_of (rl_clients l1) ip = Some c" "rl_window l1 = rl_window l"
    "rl_requests l1 = rl_requests l" "rl_trusted l1 = rl_trusted l"
    using assms(2) by (auto simp: rl_lookup_def Let_def map_of_update_eq split: option.splits)
  show "rl_heap l1 c = stamps l ip"
    using assms(2) unfolding stamps_def
    by (cases "map_of (rl_clients l) ip") (auto simp: rl_lookup_def Let_def)
qed

lemma stamps_heap_upd:
  assumes "rl_wf l" and "map_of (rl_clients l) ip = Some c"
  shows "stamps (l\<lparr>rl_heap := (rl_heap l)(c := v)\<rparr>) = (stamps l)(ip := v)"
proof
  fix x
  show "stamps (l\<lparr>rl_heap := (rl_heap l)(c := v)\<rparr>) x = ((stamps l)(ip := v)) x"
  proof (cases "map_of (rl_clients l) x")
    case None
    with assms(2) show ?thesis by (auto simp: stamps_def)
  next
    case (Some d)
    then have "d = c \<longleftrightarrow> x = ip"
      using rl_wf_refs [OF assms(1), of x c ip] assms(2) by auto
    with Some show ?thesis by (simp add: stamps_def)
  qed
qed

lemma rl_wf_heap [simp]: "rl_wf (l\<lparr>rl_heap := h\<rparr>) = rl_wf l"
  by (simp add: rl_wf_def)

lemma rl_count_unfold:
  "rl_count l c now =
     (let v = live (now - rl_window l) (rl_heap l c);
          ok = (int (length v) < rl_requests l)
      in (l\<lparr>rl_heap := (rl_heap l)(c := v @ (if ok then [now] else []))\<rparr>, ok))"
  by (simp add: rl_count_def Let_def)

lemma rl_count_spec:
  assumes "rl_wf l" and "map_of (rl_clients l) ip = Some c" and "rl_heap l c = stamps l ip"
    and "rl_count l c now = (l', ok)"
  shows "rl_wf l'" "rl_window l' = rl_window l" "rl_requests l' = rl_requests l"
    "ok \<longleftrightarrow> int (length (live (now - rl_window l) (stamps l ip))) < rl_requests l"
    "stamps l' = (stamps l)(ip := live (now - rl_window l) (stamps l ip) @ (if ok then [now] else []))"
proof -
  let ?v = "live (now - rl_window l) (stamps l ip)"
  have ok: "ok \<longleftrightarrow> int (length ?v) < rl_requests l"
    and l': "l' = l\<lparr>rl_heap := (rl_heap l)(c := ?v @ (if ok then [now] else []))\<rparr>"
    using assms(4) unfolding rl_count_unfold Let_def assms(3) by auto
  show "ok \<longleftrightarrow> int (length ?v) < rl_requests l" by (rule ok)
  show "stamps l' = (stamps l)(ip := ?v @ (if ok then [now] else []))"
    unfolding l' by (rule stamps_heap_upd [OF assms(1,2)])
  show "rl_wf l'" "rl_window l' = rl_window l" "rl_requests l' = rl_requests l"
    using assms(1) by (simp_all add: l')
qed

text \<open>One request, seen from the outside: the verdict and the timestamps it leaves.\<close>

lemma rl_Allow_spec:
  assumes "rl_wf l" and "0 < rl_requests l" and "rl_Allow l ip now = (l', ok)"
  shows "rl_wf l'" "rl_window l' = rl_window l" "rl_requests l' = rl_requests l"
    "ok \<longleftrightarrow> int (length (live (now - rl_window l) (stamps l ip))) < rl_requests l"
    "stamps l' = (stamps l)(ip := live (now - rl_window l) (stamps l ip) @ (if ok then [now] else []))"
proof -
  obtain l1 c where look: "rl_lookup l ip = (l1, c)" by (cases "rl_lookup l ip")
  then have count: "rl_count l1 c now = (l', ok)"
    using assms(2,3) by (simp add: rl_Allow_def)
  note l1 = rl_lookup_spec [OF assms(1) look]
  have "rl_heap l1 c = stamps l1 ip" using l1 by simp
  note res = rl_count_spec [OF l1(1,2) this count]
  show "rl_wf l'" "rl_window l' = rl_window l" "rl_requests l' = rl_requests l"
    "ok \<longleftrightarrow> int (length (live (now - rl_window l) (stamps l ip))) < rl_requests l"
    "stamps l' = (stamps l)(ip := live (now - rl_window l) (stamps l ip) @ (if ok then [now] else []))"
    using res l1 by simp_all
qed

lemma rl_cleanup_client_spec:
  assumes "rl_wf l" and "(ip, c) \<in> set (rl_clients l)"
    and l'_def: "l' = rl_cleanup_client cutoff (ip, c) l"
  shows "rl_wf l'" "rl_window l' = rl_window l" "rl_requests l' = rl_requests l"
    "stamps l' = (stamps l)(ip := live cutoff (stamps l ip))"
    "set (rl_clients l') \<subseteq> set (rl_clients l)" "set (rl_clients l) - {(ip, c)} \<subseteq> set (rl_clients l')"
    "(ip, c) \<in> set (rl_clients l') \<Longrightarrow> live cutoff (stamps l ip) \<noteq> []"
proof -
  have c: "map_of (rl_clients l) ip = Some c" and dist: "distinct (map fst (rl_clients l))"
    using assms(1,2) by (auto simp: rl_wf_def)
  then have heap: "rl_heap l c = stamps l ip" by (simp add: stamps_def)
  have "fst p = ip \<longleftrightarrow> p = (ip, c)" if "p \<in> set (rl_clients l)" for p
    using distinct_map_inj [OF dist that assms(2)] by auto
  then have del: "set (AList.delete ip (rl_clients l)) = set (rl_clients l) - {(ip, c)}"
    by (auto simp: set_alist_delete)
  show "rl_wf l'"
    using assms(1) del
    by (auto simp: l'_def rl_cleanup_client_def rl_wf_def Let_def distinct_snd_delete
        AList.distinct_delete)
  show "stamps l' = (stamps l)(ip := live cutoff (stamps l ip))"
  proof (cases "live cutoff (stamps l ip) = []")
    case True
    have "stamps l' x = (if x = ip then [] else stamps (l\<lparr>rl_heap := (rl_heap l)(c := [])\<rparr>) x)" for x
      by (simp add: l'_def rl_cleanup_client_def Let_def heap True)
        (simp add: stamps_def map_of_delete_eq split: option.split)
    then show ?thesis using True stamps_heap_upd [OF assms(1) c, of "[]"] by auto
  next
    case False
    then show ?thesis
      using stamps_heap_upd [OF assms(1) c, of "live cutoff (stamps l ip)"]
      by (simp add: l'_def rl_cleanup_client_def Let_def heap)
  qed
  show "rl_window l' = rl_window l" "rl_requests l' = rl_requests l"
    "set (rl_clients l') \<subseteq> set (rl_clients l)" "set (rl_clients l) - {(ip, c)} \<subseteq> set (rl_clients l')"
    "(ip, c) \<in> set (rl_clients l') \<Longrightarrow> live cutoff (stamps l ip) \<noteq> []"
    using del by (auto simp: l'_def rl_cleanup_client_def Let_def heap split: if_splits)
qed

lemma rl_cleanup_fold:
  assumes "rl_wf l" and "set cs \<subseteq> set (rl_clients l)" and "distinct (map fst cs)"
  shows "rl_wf (fold (rl_cleanup_client cutoff) cs l) \<and>
    rl_window (fold (rl_cleanup_client cutoff) cs l) = rl_window l \<and>
    rl_requests (fold (rl_cleanup_client cutoff) cs l) = rl_requests l \<and>
    stamps (fold (rl_cleanup_client cutoff) cs l) =
      (\<lambda>ip. if ip \<in> fst ` set cs then live cutoff (stamps l ip) else stamps l ip)"
  using assms
proof (induction cs arbitrary: l)
  case Nil
  then show ?case by simp
next
  case (Cons e cs)
  obtain ip c where e: "e = (ip, c)" by (cases e)
  let ?l' = "rl_cleanup_client cutoff (ip, c) l"
  have mem: "(ip, c) \<in> set (rl_clients l)" using Cons.prems(2) e by simp
  note step = rl_cleanup_client_spec [OF Cons.prems(1) mem refl, of cutoff]
  have "(ip, c) \<notin> set cs" and ip: "ip \<notin> fst ` set cs"
    using Cons.prems(3) e by (auto simp: image_iff)
  then have "set cs \<subseteq> set (rl_clients ?l')" using Cons.prems(2) step(6) by auto
  from Cons.IH [OF step(1) this] Cons.prems(3) ip show ?case
    by (auto simp: e step(2,3,4) fun_eq_iff)
qed

lemma stamps_outside: "ip \<notin> fst ` set (rl_clients l) \<Longrightarrow> stamps l ip = []"
  using map_of_notin [of "rl_clients l" ip] by (simp add: stamps_def)

lemma rl_Cleanup_spec:
  assumes "rl_wf l" and "0 < rl_requests l"
  shows "rl_wf (rl_Cleanup l now)" "rl_window (rl_Cleanup l now) = rl_window l"
    "rl_requests (rl_Cleanup l now) = rl_requests l"
    "stamps (rl_Cleanup l now) = (\<lambda>ip. live (now - rl_window l) (stamps l ip))"
  using assms rl_cleanup_fold [OF assms(1) order_refl, of "now - rl_window l"] stamps_outside [of _ l]
  by (auto simp: rl_Cleanup_def rl_wf_def fun_eq_iff)

section \<open>The sliding window as a specification\<close>

text \<open>
  What the limiter promises, over the history of admitted requests: a request is admitted
  when fewer than \<open>R\<close> requests of the same address were admitted in the window before it.
\<close>

type_synonym admission_log = "(string \<times> time) list"

definition admitted_since :: "admission_log \<Rightarrow> string \<Rightarrow> time \<Rightarrow> time list" where
  "admitted_since log ip cutoff = live cutoff (map snd (filter (\<lambda>(i, t). i = ip) log))"

datatype rl_op = OpAllow string time | OpCleanup time

fun op_time :: "rl_op \<Rightarrow> time" where
  "op_time (OpAllow ip t) = t"
| "op_time (OpCleanup t) = t"

fun spec_run :: "int \<Rightarrow> duration \<Rightarrow> admission_log \<Rightarrow> rl_op list \<Rightarrow> admission_log \<times> bool list" where
  "spec_run R W log [] = (log, [])"
| "spec_run R W log (OpAllow ip now # ops) =
     (let ok = (int (length (admitted_since log ip (now - W))) < R);
          (log', outs) = spec_run R W (log @ (if ok then [(ip, now)] else [])) ops
      in (log', ok # outs))"
| "spec_run R W log (OpCleanup now # ops) = spec_run R W log ops"

text \<open>The same run on the limiter: the verdicts of the requests, in order.\<close>

fun rl_run :: "limiter \<Rightarrow> rl_op list \<Rightarrow> limiter \<times> bool list" where
  "rl_run l [] = (l, [])"
| "rl_run l (OpAllow ip now # ops) =
     (let (l1, ok) = rl_Allow l ip now; (l2, outs) = rl_run l1 ops in (l2, ok # outs))"
| "rl_run l (OpCleanup now # ops) = rl_run (rl_Cleanup l now) ops"

text \<open>The clock does not run backwards from one operation to the next.\<close>

fun clock_from :: "time \<Rightarrow> rl_op list \<Rightarrow> bool" where
  "clock_from T [] \<longleftrightarrow> True"
| "clock_from T (x # xs) \<longleftrightarrow> T \<le> op_time x \<and> clock_from (op_time x) xs"

text \<open>
  The relation between the two: from time \<open>T\<close> on, the timestamps a limiter still holds for
  an address and the log agree on every window.
\<close>

definition rl_sim :: "limiter \<Rightarrow> admission_log \<Rightarrow> time \<Rightarrow> bool" where
  "rl_sim l log T \<longleftrightarrow>
     (\<forall>ip. live (T - rl_window l) (stamps l ip) = admitted_since log ip (T - rl_window l))"

lemma admitted_since_later:
  "c \<le> c' \<Longrightarrow> live c' (admitted_since log ip c) = admitted_since log ip c'"
  by (simp only: admitted_since_def filter_filter_gt)

lemmas admitted_since_idem [simp] = admitted_since_later [OF order_refl]

lemma admitted_since_snoc:
  "admitted_since (log @ [(i, t)]) ip c = admitted_since log ip c @ (if i = ip \<and> c < t then [t] else [])"
  by (simp add: admitted_since_def)

lemma rl_sim_later: "rl_sim l log T \<Longrightarrow> T \<le> T' \<Longrightarrow> rl_sim l log T'"
  unfolding rl_sim_def
  by (metis admitted_since_later diff_right_mono filter_filter_gt)

lemma rl_sim_Allow:
  assumes "rl_wf l" and "0 < rl_requests l" and "rl_sim l log now"
    and "rl_Allow l ip now = (l', ok)"
  shows "ok \<longleftrightarrow> int (length (admitted_since log ip (now - rl_window l))) < rl_requests l"
    and "rl_sim l' (log @ (if ok then [(ip, now)] else [])) now"
proof -
  note spec = rl_Allow_spec [OF assms(1,2,4)]
  show "ok \<longleftrightarrow> int (length (admitted_since log ip (now - rl_window l))) < rl_requests l"
    using spec(4) assms(3) by (simp add: rl_sim_def)
  have "0 < rl_window l" using assms(1) by (simp add: rl_wf_def)
  then show "rl_sim l' (log @ (if ok then [(ip, now)] else [])) now"
    using assms(3) by (auto simp: rl_sim_def spec(2,5) admitted_since_snoc)
qed

lemma rl_run_refines_from:
  assumes "rl_wf l" and "0 < rl_requests l" and "rl_sim l log T" and "clock_from T ops"
  shows "snd (rl_run l ops) = snd (spec_run (rl_requests l) (rl_window l) log ops)"
  using assms
proof (induction ops arbitrary: l log T)
  case Nil
  then show ?case by simp
next
  case (Cons x ops)
  then have sim: "rl_sim l log (op_time x)" and clock: "clock_from (op_time x) ops"
    by (auto intro: rl_sim_later)
  show ?case
  proof (cases x)
    case (OpAllow ip now)
    obtain l' ok where allow: "rl_Allow l ip now = (l', ok)" by (cases "rl_Allow l ip now")
    note spec = rl_Allow_spec [OF Cons.prems(1,2) allow]
    have sim': "rl_sim l log now" using sim OpAllow by simp
    have "snd (rl_run l' ops) =
        snd (spec_run (rl_requests l') (rl_window l') (log @ (if ok then [(ip, now)] else [])) ops)"
      using Cons.IH [OF spec(1) _ rl_sim_Allow(2) [OF Cons.prems(1,2) sim' allow]]
        spec(3) Cons.prems(2) clock OpAllow by simp
    then show ?thesis
      using rl_sim_Allow(1) [OF Cons.prems(1,2) sim' allow]
      by (simp add: OpAllow allow Let_def split_def spec(2,3))
  next
    case (OpCleanup now)
    note spec = rl_Cleanup_spec [OF Cons.prems(1,2), of now]
    have "rl_sim (rl_Cleanup l now) log now"
      using sim by (simp add: rl_sim_def spec(2,4) OpCleanup)
    then show ?thesis
      using Cons.IH [OF spec(1), of log now] Cons.prems(2) clock
      by (simp add: OpCleanup spec(2,3))
  qed
qed

lemma rl_sim_New: "rl_sim (rl_New R W ps) [] T"
  by (simp add: rl_sim_def admitted_since_def)

text \<open>The admitted requests of a run, read off its operations and verdicts.\<close>

fun admissions :: "rl_op list \<Rightarrow> bool list \<Rightarrow> admission_log" where
  "admissions (OpAllow ip now # ops) (ok # outs) =
     (if ok then [(ip, now)] else []) @ admissions ops outs"
| "admissions (OpCleanup now # ops) outs = admissions ops outs"
| "admissions _ _ = []"

definition in_span :: "admission_log \<Rightarrow> string \<Rightarrow> time \<Rightarrow> time \<Rightarrow> nat" where
  "in_span log ip a b = length (filter (\<lambda>(i, t). i = ip \<and> a < t \<and> t \<le> b) log)"

lemma in_span_le_since:
  "a \<le> b' \<Longrightarrow> in_span log ip b' c \<le> length (admitted_since log ip a)"
  unfolding in_span_def admitted_since_def
  by (induction log) (auto intro: le_SucI)

lemma spec_run_window:
  assumes "0 < R" and "0 < W" and "\<forall>(i, t) \<in> set log. t \<le> T"
    and "\<forall>ip a. int (in_span log ip a (a + W)) \<le> R" and "clock_from T ops"
  shows "int (in_span (log @ admissions ops (snd (spec_run R W log ops))) ip a (a + W)) \<le> R"
  using assms(3-5)
proof (induction ops arbitrary: log T)
  case Nil
  then show ?case by (simp add: split: prod.splits)
next
  case (Cons x ops)
  have past: "\<forall>(i, t) \<in> set log. t \<le> op_time x" and clock: "clock_from (op_time x) ops"
    using Cons.prems by fastforce+
  show ?case
  proof (cases x)
    case (OpCleanup now)
    with Cons.IH [OF past Cons.prems(2) clock] show ?thesis by simp
  next
    case (OpAllow i now)
    let ?n = "int (length (admitted_since log i (now - W)))"
    let ?log = "log @ (if ?n < R then [(i, now)] else [])"
    have "int (in_span ?log j b (b + W)) \<le> R" for j b
    proof (cases "?n < R \<and> j = i \<and> b < now \<and> now \<le> b + W")
      case True
      then have "in_span log i b (b + W) \<le> length (admitted_since log i (now - W))"
        by (intro in_span_le_since) simp
      with True show ?thesis by (simp add: in_span_def)
    next
      case False
      then have "in_span ?log j b (b + W) = in_span log j b (b + W)"
        by (auto simp: in_span_def)
      with Cons.prems(2) show ?thesis by simp
    qed
    moreover have "\<forall>(j, t) \<in> set ?log. t \<le> op_time x"
      using past by (auto simp: OpAllow)
    ultimately have "int (in_span (?log @ admissions ops (snd (spec_run R W ?log ops))) ip a (a + W)) \<le> R"
      using Cons.IH [OF _ _ clock] by blast
    then show ?thesis by (simp add: OpAllow Let_def split_def)
  qed
qed

text \<open>Requests of other addresses never change a verdict.\<close>

fun only_ip :: "string \<Rightarrow> rl_op list \<Rightarrow> rl_op list" where
  "only_ip ip [] = []"
| "only_ip ip (OpAllow i t # ops) = (if i = ip then [OpAllow i t] else []) @ only_ip ip ops"
| "only_ip ip (OpCleanup t # ops) = only_ip ip ops"

fun verdicts_for :: "string \<Rightarrow> rl_op list \<Rightarrow> bool list \<Rightarrow> bool list" where
  "verdicts_for ip (OpAllow i t # ops) (ok # outs) =
     (if i = ip then [ok] else []) @ verdicts_for ip ops outs"
| "verdicts_for ip (OpCleanup t # ops) outs = verdicts_for ip ops outs"
| "verdicts_for ip _ _ = []"

lemma spec_run_isolated:
  assumes "filter (\<lambda>(i, t). i = ip) log = filter (\<lambda>(i, t). i = ip) log'"
  shows "verdicts_for ip ops (snd (spec_run R W log ops)) = snd (spec_run R W log' (only_ip ip ops))"
  using assms
proof (induction ip ops arbitrary: log log' rule: only_ip.induct)
  case (2 ip i t ops)
  let ?ok = "\<lambda>log. int (length (admitted_since log i (t - W))) < R"
  show ?case
  proof (cases "i = ip")
    case True
    then have "?ok log = ?ok log'" using "2.prems" by (simp add: admitted_since_def)
    with True "2.IH" [of "log @ (if ?ok log then [(i, t)] else [])"
        "log' @ (if ?ok log' then [(i, t)] else [])"] "2.prems"
    show ?thesis by (cases "?ok log'") (simp_all add: Let_def split_def)
  next
    case False
    with "2.IH" [of "log @ (if ?ok log then [(i, t)] else [])" log'] "2.prems"
    show ?thesis by (simp add: Let_def split_def)
  qed
qed simp_all

lemma clock_only_ip: "clock_from T ops \<Longrightarrow> clock_from T (only_ip ip ops)"
proof (induction ip ops arbitrary: T rule: only_ip.induct)
  case (2 ip i t ops)
  have "clock_from T (only_ip ip ops)" if "clock_from t (only_ip ip ops)" and "T \<le> t"
    using that by (cases "only_ip ip ops") auto
  with 2 show ?case by auto
next
  case (3 ip t ops)
  have "clock_from T (only_ip ip ops)" if "clock_from t (only_ip ip ops)" and "T \<le> t"
    using that by (cases "only_ip ip ops") auto
  with 3 show ?case by auto
qed simp

lemma rl_New_fields [simp]:
  "rl_requests (rl_New R W ps) = R" "rl_window (rl_New R W ps) = (if W \<le> 0 then minute else W)"
  by (simp_all add: rl_New_def)

lemma rl_run_New_refines:
  "0 < R \<Longrightarrow> clock_from T ops \<Longrightarrow>
   snd (rl_run (rl_New R W ps) ops) = snd (spec_run R (if W \<le> 0 then minute else W) [] ops)"
  using rl_run_refines_from [of "rl_New R W ps" "[]" T ops] rl_wf_New rl_sim_New by simp

section \<open>Requests and the clean-up goroutine in parallel\<close>

text \<open>
  \<^verbatim>\<open>StartCleanup\<close> runs \<^verbatim>\<open>Cleanup\<close> beside the requests, and \<^verbatim>\<open>Allow\<close> releases the limiter's lock
  before it takes the client's. A step is one critical section; a request that has looked
  its client up and not counted yet holds the address, the reference and the clock value
  it read.
\<close>

record rl_sys =
  sys_lim :: limiter
  sys_clock :: time
  sys_pending :: "nat \<Rightarrow> (string \<times> nat \<times> time) option"
  sys_log :: admission_log

definition rl_start :: "limiter \<Rightarrow> time \<Rightarrow> rl_sys" where
  "rl_start l T = \<lparr>sys_lim = l, sys_clock = T, sys_pending = (\<lambda>i. None), sys_log = []\<rparr>"

inductive rl_step :: "rl_sys \<Rightarrow> rl_sys \<Rightarrow> bool" where
  tick: "sys_clock s \<le> T \<Longrightarrow> rl_step s (s\<lparr>sys_clock := T\<rparr>)"
| look: "rl_IsEnabled (Some (sys_lim s)) \<Longrightarrow> sys_pending s i = None \<Longrightarrow>
     rl_lookup (sys_lim s) ip = (l, c) \<Longrightarrow>
     rl_step s (s\<lparr>sys_lim := l, sys_pending := (sys_pending s)(i \<mapsto> (ip, c, sys_clock s))\<rparr>)"
| count: "sys_pending s i = Some (ip, c, now) \<Longrightarrow> rl_count (sys_lim s) c now = (l, ok) \<Longrightarrow>
     rl_step s (s\<lparr>sys_lim := l, sys_pending := (sys_pending s)(i := None),
                  sys_log := sys_log s @ (if ok then [(ip, now)] else [])\<rparr>)"
| sweep: "rl_step s (s\<lparr>sys_lim := rl_Cleanup (sys_lim s) (sys_clock s)\<rparr>)"

inductive rl_reach :: "rl_sys \<Rightarrow> rl_sys \<Rightarrow> bool" for s0 where
  start: "rl_reach s0 s0"
| step: "rl_reach s0 s \<Longrightarrow> rl_step s t \<Longrightarrow> rl_reach s0 t"

inductive_cases rl_stepE: "rl_step s t"

text \<open>Whatever the interleaving, no client object ever holds more timestamps than the limit.\<close>

definition rl_bounded :: "limiter \<Rightarrow> bool" where
  "rl_bounded l \<longleftrightarrow> (\<forall>c. int (length (rl_heap l c)) \<le> rl_requests l)"

lemma rl_bounded_upd:
  "rl_bounded l \<Longrightarrow> int (length v) \<le> rl_requests l \<Longrightarrow> rl_bounded (l\<lparr>rl_heap := (rl_heap l)(c := v)\<rparr>)"
  by (simp add: rl_bounded_def)

lemma live_bounded: "rl_bounded l \<Longrightarrow> int (length (live t (rl_heap l c))) \<le> rl_requests l"
  by (meson length_filter_le of_nat_le_iff order_trans rl_bounded_def)

lemma rl_bounded_lookup:
  "rl_bounded l \<Longrightarrow> 0 < rl_requests l \<Longrightarrow> rl_lookup l ip = (l', c) \<Longrightarrow>
   rl_bounded l' \<and> rl_requests l' = rl_requests l"
  by (auto simp: rl_lookup_def rl_bounded_def Let_def split: option.splits)

lemma rl_bounded_count:
  assumes "rl_bounded l" and "rl_count l c now = (l', ok)"
  shows "rl_bounded l' \<and> rl_requests l' = rl_requests l"
proof -
  let ?v = "live (now - rl_window l) (rl_heap l c)"
  have "int (length (?v @ (if int (length ?v) < rl_requests l then [now] else []))) \<le> rl_requests l"
    using live_bounded [OF assms(1)] by auto
  from rl_bounded_upd [OF assms(1) this] show ?thesis
    using assms(2) by (auto simp: rl_count_unfold Let_def)
qed

lemma rl_bounded_cleanup_client:
  "rl_bounded l \<Longrightarrow> rl_bounded (rl_cleanup_client t e l) \<and>
   rl_requests (rl_cleanup_client t e l) = rl_requests l"
  using live_bounded [of l t "snd e"]
  by (auto simp: rl_cleanup_client_def Let_def split_def rl_bounded_def)

lemma rl_bounded_fold:
  "rl_bounded l \<Longrightarrow> rl_bounded (fold (rl_cleanup_client t) cs l) \<and>
   rl_requests (fold (rl_cleanup_client t) cs l) = rl_requests l"
  by (induction cs arbitrary: l) (use rl_bounded_cleanup_client in force)+

lemma rl_bounded_Cleanup:
  "rl_bounded l \<Longrightarrow> rl_bounded (rl_Cleanup l now) \<and> rl_requests (rl_Cleanup l now) = rl_requests l"
  by (simp add: rl_Cleanup_def rl_bounded_fold)

lemma rl_step_bounded:
  "rl_step s t \<Longrightarrow> rl_bounded (sys_lim s) \<Longrightarrow>
   rl_bounded (sys_lim t) \<and> rl_requests (sys_lim t) = rl_requests (sys_lim s)"
  by (erule rl_stepE)
    (auto dest: rl_bounded_lookup rl_bounded_count rl_bounded_Cleanup)

lemma rl_reach_bounded:
  "rl_reach s0 s \<Longrightarrow> rl_bounded (sys_lim s0) \<Longrightarrow>
   rl_bounded (sys_lim s) \<and> rl_requests (sys_lim s) = rl_requests (sys_lim s0)"
  by (induction rule: rl_reach.induct) (auto dest: rl_step_bounded)

section \<open>The proxy contract\<close>

lemma rl_extractIP_client: "rl_extractIP l = forwarded_client (rl_isTrustedProxy l)"
  unfolding rl_extractIP_def Let_def forwarded_parts_def peer_def forwarded_client_def
  by (rule ext) (simp add: rev_map)

interpretation rl_proxy: forwarded_for "rl_isTrustedProxy l" "rl_extractIP l" for l
  by (rule forwarded_forI) (rule rl_extractIP_client)

section \<open>Properties\<close>

text \<open>
  C1. The limiter with its store of client objects, its pruning and its periodic
  \<^verbatim>\<open>Cleanup\<close> gives every request exactly the verdict of the sliding-window specification
  over the full history of admissions, for every sequence of requests and clean-ups on a
  clock that does not run backwards.
\<close>

theorem rl_refines_sliding_window:
  assumes "0 < R" and "clock_from T ops"
  shows "snd (rl_run (rl_New R W proxies) ops) =
    snd (spec_run R (if W \<le> 0 then minute else W) [] ops)"
  using assms by (rule rl_run_New_refines)

definition demo_ops :: "rl_op list" where
  "demo_ops = [OpAllow ''a'' 0, OpAllow ''a'' 1, OpCleanup 5, OpAllow ''b'' 6, OpAllow ''a'' 11, OpAllow ''a'' 12]"

lemma demo_ops_clock: "clock_from 0 demo_ops"
  by (simp add: demo_ops_def)

theorem rl_refines_sliding_window_witness:
  "snd (rl_run (rl_New 1 10 []) demo_ops) = [True, False, True, True, False]"
proof -
  have "snd (spec_run 1 10 [] demo_ops) = [True, False, True, True, False]"
    by (simp add: demo_ops_def admitted_since_def)
  then show ?thesis
    using rl_refines_sliding_window [OF _ demo_ops_clock, of 1 10 "[]"] by simp
qed

text \<open>
  No address is ever admitted more than \<open>R\<close> times in any half-open interval as long as
  the window, whatever the requests, the clean-ups and the traffic of other addresses.
\<close>

theorem rl_window_bound:
  assumes "0 < R" and "0 < W" and "clock_from T ops"
  shows "int (in_span (admissions ops (snd (rl_run (rl_New R W proxies) ops))) ip a (a + W)) \<le> R"
  using spec_run_window [OF assms(1,2) _ _ assms(3), of "[]" ip a] assms
  by (simp add: rl_run_New_refines in_span_def)

theorem rl_window_bound_witness:
  "int (in_span (admissions demo_ops (snd (rl_run (rl_New 1 10 []) demo_ops))) ''a'' 0 (0 + 10)) \<le> 1"
  by (rule rl_window_bound [OF _ _ demo_ops_clock]) simp_all

text \<open>
  One address cannot use up another's budget: the verdicts an address gets are those it
  would get if every other address stayed silent.
\<close>

theorem rl_isolation:
  assumes "0 < R" and "clock_from T ops"
  shows "verdicts_for ip ops (snd (rl_run (rl_New R W proxies) ops)) =
    snd (rl_run (rl_New R W proxies) (only_ip ip ops))"
  using spec_run_isolated [of ip "[]" "[]" ops R "if W \<le> 0 then minute else W"]
    rl_run_New_refines [OF assms] rl_run_New_refines [OF assms(1) clock_only_ip [OF assms(2)]]
  by simp

theorem rl_isolation_witness:
  "verdicts_for ''b'' demo_ops (snd (rl_run (rl_New 1 10 []) demo_ops)) = [True]"
  using rl_isolation [OF _ demo_ops_clock, of 1 "''b''" 10 "[]"]
  by (simp add: demo_ops_def rl_Allow_def rl_lookup_def rl_count_def Let_def rl_New_def)



text \<open>
  The steps of a race: request 0 looks its client up, the clean-up finds that client empty
  and drops it from the map, request 0 counts on the dropped object, and request 1 finds
  no client and starts a new one.
\<close>

definition race_lim :: "(string \<times> nat) list \<Rightarrow> (nat \<Rightarrow> time list) \<Rightarrow> nat \<Rightarrow> limiter" where
  "race_lim cs h n = \<lparr>rl_requests = 1, rl_window = minute, rl_clients = cs, rl_heap = h,
     rl_next = n, rl_trusted = []\<rparr>"

definition race_sys ::
  "limiter \<Rightarrow> (nat \<Rightarrow> (string \<times> nat \<times> time) option) \<Rightarrow> admission_log \<Rightarrow> rl_sys" where
  "race_sys l p log = \<lparr>sys_lim = l, sys_clock = 0, sys_pending = p, sys_log = log\<rparr>"

definition race_end :: rl_sys where
  "race_end = race_sys (race_lim [(''a'', 1)] ((\<lambda>c. [])(0 := [0], 1 := [0])) 2)
     (\<lambda>i. None) [(''a'', 0), (''a'', 0)]"

lemma race_look:
  assumes "map_of cs ''a'' = None" and "p i = None"
  shows "rl_step (race_sys (race_lim cs h n) p log)
    (race_sys (race_lim (AList.update ''a'' n cs) (h(n := [])) (n + 1)) (p(i \<mapsto> (''a'', n, 0))) log)"
proof -
  have "rl_lookup (race_lim cs h n) ''a'' = (race_lim (AList.update ''a'' n cs) (h(n := [])) (n + 1), n)"
    using assms(1) by (simp add: rl_lookup_def race_lim_def Let_def)
  then show ?thesis
    using look [of "race_sys (race_lim cs h n) p log" i "''a''"] assms(2)
    by (simp add: race_sys_def rl_IsEnabled_def race_lim_def)
qed

lemma race_count:
  assumes "p i = Some (''a'', c, 0)" and "h c = []"
  shows "rl_step (race_sys (race_lim cs h n) p log)
    (race_sys (race_lim cs (h(c := [0])) n) (p(i := None)) (log @ [(''a'', 0)]))"
proof -
  have "rl_count (race_lim cs h n) c 0 = (race_lim cs (h(c := [0])) n, True)"
    using assms(2) by (simp add: rl_count_unfold race_lim_def Let_def)
  then show ?thesis
    using count [of "race_sys (race_lim cs h n) p log" i "''a''" c 0] assms(1)
    by (simp add: race_sys_def)
qed

lemma race_sweep:
  assumes "h c = []"
  shows "rl_step (race_sys (race_lim [(''a'', c)] h n) p log) (race_sys (race_lim [] h n) p log)"
proof -
  have "rl_Cleanup (race_lim [(''a'', c)] h n) 0 = race_lim [] h n"
    using assms by (simp add: rl_Cleanup_def rl_cleanup_client_def race_lim_def Let_def fun_upd_idem)
  then show ?thesis using sweep [of "race_sys (race_lim [(''a'', c)] h n) p log"]
    by (simp add: race_sys_def)
qed

lemma race_reach: "rl_reach (rl_start (rl_New 1 minute []) 0) race_end"
proof -
  let ?h = "\<lambda>c. []" and ?p = "\<lambda>i. None"
  have start: "rl_start (rl_New 1 minute []) 0 = race_sys (race_lim [] ?h 0) ?p []"
    by (simp add: rl_start_def rl_New_def race_sys_def race_lim_def not_le)
  have "rl_step (race_sys (race_lim [] ?h 0) ?p [])
      (race_sys (race_lim [(''a'', 0)] ?h 1) (?p(0 \<mapsto> (''a'', 0, 0))) [])"
    using race_look [of "[]" ?p 0 ?h 0 "[]"] by (simp add: fun_upd_idem)
  moreover have "rl_step \<dots> (race_sys (race_lim [] ?h 1) (?p(0 \<mapsto> (''a'', 0, 0))) [])"
    by (rule race_sweep) simp
  moreover have "rl_step \<dots> (race_sys (race_lim [] (?h(0 := [0])) 1) ?p [(''a'', 0)])"
    using race_count [of "?p(0 \<mapsto> (''a'', 0, 0))" 0 0 ?h "[]" 1 "[]"] by (simp add: fun_upd_idem)
  moreover have "rl_step \<dots> (race_sys (race_lim [(''a'', 1)] (?h(0 := [0], 1 := [])) 2)
      (?p(1 \<mapsto> (''a'', 1, 0))) [(''a'', 0)])"
    using race_look [of "[]" ?p 1 "?h(0 := [0])" 1 "[(''a'', 0)]"] by (simp add: numeral_2_eq_2)
  moreover have "rl_step \<dots> race_end"
  proof -
    have h: "(?h(0 := [0], 1 := []))(1 := [0]) = ?h(0 := [0], 1 := [0])" by (rule fun_upd_upd)
    have p: "(?p(1 \<mapsto> (''a'', 1, 0)))(1 := None) = ?p" by (rule ext) simp
    have "rl_step
        (race_sys (race_lim [(''a'', 1)] (?h(0 := [0], 1 := [])) 2) (?p(1 \<mapsto> (''a'', 1, 0))) [(''a'', 0)])
        (race_sys (race_lim [(''a'', 1)] ((?h(0 := [0], 1 := []))(1 := [0])) 2)
          ((?p(1 \<mapsto> (''a'', 1, 0)))(1 := None)) ([(''a'', 0)] @ [(''a'', 0)]))"
      by (rule race_count [where i = 1 and c = 1 and h = "?h(0 := [0], 1 := [])"
          and p = "?p(1 \<mapsto> (''a'', 1, 0))" and cs = "[(''a'', 1)]" and n = 2 and log = "[(''a'', 0)]"])
        (rule fun_upd_same)+
    then show ?thesis
      by (simp only: h p race_end_def append_Cons append_Nil)
  qed
  ultimately show ?thesis unfolding start
    by (rule rl_reach.step [OF rl_reach.step [OF rl_reach.step [OF rl_reach.step [OF rl_reach.step
      [OF rl_reach.start]]]]])
qed

text \<open>
  C19. The bound on admissions does not survive the two-lock protocol: with a limit of one
  request per minute there is a reachable state in which the same address was admitted
  twice at the same instant, because \<^verbatim>\<open>Cleanup\<close> dropped the client object the first request
  was about to count on.
\<close>

theorem rl_cleanup_race:
  "\<exists>s. rl_reach (rl_start (rl_New 1 minute []) 0) s \<and> in_span (sys_log s) ''a'' (- 1) 0 = 2"
proof (intro exI conjI)
  show "rl_reach (rl_start (rl_New 1 minute []) 0) race_end" by (rule race_reach)
  show "in_span (sys_log race_end) ''a'' (- 1) 0 = 2"
    by (simp add: race_end_def race_sys_def in_span_def)
qed


definition demo_request :: "string \<Rightarrow> string list \<Rightarrow> request" where
  "demo_request addr lines = \<lparr>Method = ''GET'', Path = ''/exchange'', RemoteAddr = addr,
     Header = (\<lambda>_. [])(''X-Forwarded-For'' := lines), Body = Some [], Cookies = [], Form = Some [],
     over_TLS = True, Proto = ''HTTP/1.1''\<rparr>"

definition demo_proxied :: limiter where
  "demo_proxied = rl_New 1 minute [''10.0.0.0/8'']"

lemma demo_untrusted: "rl_trusted (rl_New 1 minute []) = []"
  by (simp add: rl_New_def)


end
