(* ===== verification/GoTime.thy ===== *)
theory GoTime
  imports Http
begin

text \<open>
  Go's readers of numbers and durations: \<^verbatim>\<open>time.ParseDuration\<close> and \<^verbatim>\<open>fmt.Sscanf\<close> with
  \<^verbatim>\<open>%d\<close>, and the round trip of the decimal numbers \<^verbatim>\<open>fmt\<close> prints.
\<close>

section \<open>Decimal digits\<close>

definition value_from :: "nat \<Rightarrow> string \<Rightarrow> nat" where
  "value_from n ds = foldl (\<lambda>n c. n * 10 + digit_val c) n ds"

lemma value_from_simps [simp]:
  "value_from n [] = n" "value_from n (c # cs) = value_from (n * 10 + digit_val c) cs"
  "value_from n (xs @ ys) = value_from (value_from n xs) ys"
  by (simp_all add: value_from_def)

lemma is_digit_char [simp]: "n < 10 \<Longrightarrow> is_digit (char_of (n + 48 :: nat))"
  by (simp add: is_digit_def code_def)

lemma digit_val_char [simp]: "n < 10 \<Longrightarrow> digit_val (char_of (n + 48 :: nat)) = n"
  by (simp add: digit_val_def code_def)

lemma dec_nat_digits: "c \<in> set (dec_nat n) \<Longrightarrow> is_digit c"
proof (induction n rule: dec_nat.induct)
  case (1 n)
  show ?case
  proof (cases "n < 10")
    case True
    with "1.prems" show ?thesis by (subst (asm) dec_nat.simps) simp
  next
    case False
    with 1 show ?thesis by (subst (asm) (2) dec_nat.simps) auto
  qed
qed

lemma dec_nat_not_Nil [simp]: "dec_nat n \<noteq> []"
  by (subst dec_nat.simps) simp

lemma value_dec_nat [simp]: "value_from 0 (dec_nat n) = n"
proof (induction n rule: dec_nat.induct)
  case (1 n)
  then show ?case
    by (cases "n < 10") (subst dec_nat.simps, simp add: mult.commute)+
qed

lemma dec_nat_inj: "dec_nat m = dec_nat n \<longleftrightarrow> m = n"
  by (metis value_dec_nat)

lemma value_from_ge: "n \<le> value_from n ds"
proof (induction ds arbitrary: n)
  case (Cons c ds)
  have "n \<le> n * 10 + digit_val c" by simp
  also have "\<dots> \<le> value_from n (c # ds)" using Cons by simp
  finally show ?case .
qed simp

section \<open>\<^verbatim>\<open>time.ParseDuration\<close>\<close>

text \<open>\<^verbatim>\<open>leadingInt\<close>: the digits at the front, or nothing beyond \<open>2^63\<close>.\<close>

fun leadingInt :: "nat \<Rightarrow> string \<Rightarrow> (nat \<times> string) option" where
  "leadingInt x [] = Some (x, [])"
| "leadingInt x (c # cs) =
     (if \<not> is_digit c then Some (x, c # cs)
      else if 2 ^ 63 div 10 < x then None
      else let y = x * 10 + digit_val c in if 2 ^ 63 < y then None else leadingInt y cs)"

text \<open>\<^verbatim>\<open>leadingFraction\<close>: digits beyond the precision are skipped; the scale is a power of ten.\<close>

fun leadingFraction :: "nat \<Rightarrow> nat \<Rightarrow> bool \<Rightarrow> string \<Rightarrow> nat \<times> nat \<times> string" where
  "leadingFraction x scale over [] = (x, scale, [])"
| "leadingFraction x scale over (c # cs) =
     (if \<not> is_digit c then (x, scale, c # cs)
      else if over \<or> (2 ^ 63 - 1) div 10 < x then leadingFraction x scale True cs
      else let y = x * 10 + digit_val c in
        if 2 ^ 63 < y then leadingFraction x scale True cs
        else leadingFraction y (scale * 10) False cs)"

definition unit_of :: "string \<Rightarrow> nat option" where
  "unit_of u = map_of
     [(''ns'', 1), (''us'', 1000), ([CHR 0xC2, CHR 0xB5, CHR ''s''], 1000),
      ([CHR 0xCE, CHR 0xBC, CHR ''s''], 1000), (''ms'', 1000000), (''s'', 1000000000),
      (''m'', 60000000000), (''h'', 3600000000000)] u"

text \<open>
  One number with its unit. Go scales the fraction in \<^verbatim>\<open>float64\<close>; here it is the exact
  floor, which is the same value as long as the products fit 53 bits.
\<close>

definition duration_part :: "string \<Rightarrow> (nat \<times> string) option" where
  "duration_part s =
     (case leadingInt 0 s of
        None \<Rightarrow> None
      | Some (v, s1) \<Rightarrow>
          (let pre = length s1 \<noteq> length s;
               dot = s1 \<noteq> [] \<and> hd s1 = CHR ''.'';
               (f, scale, s2) = (if dot then leadingFraction 0 1 False (tl s1) else (0, 1, s1));
               post = dot \<and> length s2 \<noteq> length (tl s1);
               u = takeWhile (\<lambda>c. c \<noteq> CHR ''.'' \<and> \<not> is_digit c) s2
           in if \<not> pre \<and> \<not> post \<or> u = [] then None
              else case unit_of u of
                None \<Rightarrow> None
              | Some n \<Rightarrow>
                  if 2 ^ 63 div n < v then None
                  else let w = v * n + f * n div scale in
                    if 2 ^ 63 < w then None else Some (w, drop (length u) s2)))"

lemma leadingInt_length: "leadingInt x s = Some (v, r) \<Longrightarrow> length r \<le> length s"
  by (induction x s rule: leadingInt.induct) (auto simp: Let_def split: if_splits)

lemma leadingFraction_length: "leadingFraction x sc b s = (f, sc', r) \<Longrightarrow> length r \<le> length s"
  by (induction x sc b s rule: leadingFraction.induct) (auto simp: Let_def split: if_splits)

lemma duration_part_length: "duration_part s = Some (w, r) \<Longrightarrow> length r < length s"
  by (auto simp: duration_part_def Let_def takeWhile_eq_Nil_iff neq_Nil_conv
      dest!: leadingInt_length leadingFraction_length
      split: option.splits if_splits prod.splits)

text \<open>The sum wraps at 64 bits, as in \<^verbatim>\<open>d += v\<close> on \<^verbatim>\<open>uint64\<close>.\<close>

function duration_loop :: "nat \<Rightarrow> string \<Rightarrow> nat option" where
  "duration_loop d s =
     (if s = [] then Some d
      else if \<not> (hd s = CHR ''.'' \<or> is_digit (hd s)) then None
      else case duration_part s of
        None \<Rightarrow> None
      | Some (w, r) \<Rightarrow>
          (let d1 = (d + w) mod 2 ^ 64 in if 2 ^ 63 < d1 then None else duration_loop d1 r))"
  by pat_completeness auto
termination
  by (relation "measure (\<lambda>(d, s). length s)") (auto dest: duration_part_length)

declare duration_loop.simps [simp del]

definition ParseDuration :: "string \<Rightarrow> duration option" where
  "ParseDuration orig =
     (let sgn = orig \<noteq> [] \<and> (hd orig = CHR ''-'' \<or> hd orig = CHR ''+'');
          neg = sgn \<and> hd orig = CHR ''-'';
          s = (if sgn then tl orig else orig)
      in if s = ''0'' then Some 0
         else if s = [] then None
         else case duration_loop 0 s of
           None \<Rightarrow> None
         | Some d \<Rightarrow>
             if neg then Some (- int d)
             else if 2 ^ 63 - 1 < d then None else Some (int d))"

lemma leadingInt_digits:
  assumes "\<forall>c \<in> set ds. is_digit c" and "value_from x ds < 2 ^ 63" and "r = [] \<or> \<not> is_digit (hd r)"
  shows "leadingInt x (ds @ r) = Some (value_from x ds, r)"
  using assms
proof (induction ds arbitrary: x)
  case Nil
  then show ?case by (cases r) auto
next
  case (Cons c ds)
  let ?y = "x * 10 + digit_val c"
  have "?y < 2 ^ 63" using value_from_ge [of ?y ds] Cons.prems(2) by simp
  moreover from this have "\<not> 2 ^ 63 div 10 < x" by linarith
  ultimately show ?case using Cons by (simp add: Let_def)
qed

text \<open>What \<open>n\<close> followed by a unit reads as, in front of the rest of a duration.\<close>

lemma duration_part_dec:
  assumes "unit_of u = Some k" and "u \<noteq> []" and "\<forall>c \<in> set u. c \<noteq> CHR ''.'' \<and> \<not> is_digit c"
    and "n * k < 2 ^ 63" and "0 < k" and "r = [] \<or> is_digit (hd r)"
  shows "duration_part (dec_nat n @ u @ r) = Some (n * k, r)"
proof -
  have n: "n < 2 ^ 63" using assms(4,5) by (metis One_nat_def Suc_leI le_less_trans mult.right_neutral mult_le_mono2)
  have lead: "leadingInt 0 (dec_nat n @ u @ r) = Some (n, u @ r)"
    using leadingInt_digits [of "dec_nat n" 0 "u @ r"] n assms(2,3)
    by (auto dest: dec_nat_digits simp: hd_append)
  have no_dot: "hd (u @ r) \<noteq> CHR ''.''" using assms(2,3) by (cases u) auto
  have tw: "takeWhile (\<lambda>c. c \<noteq> CHR ''.'' \<and> \<not> is_digit c) (u @ r) = u"
    using assms(3,6) by (cases r) (auto simp: takeWhile_append2 takeWhile_eq_all_conv)
  have "\<not> 2 ^ 63 div k < n"
  proof
    assume "2 ^ 63 div k < n"
    then have "2 ^ 63 < n * k" using assms(5) by (simp add: div_less_iff_less_mult)
    with assms(4) show False by simp
  qed
  then show ?thesis
    using assms(1,2,4) no_dot by (simp add: duration_part_def lead tw Let_def)
qed

lemma unit_of_units [simp]:
  "unit_of ''h'' = Some 3600000000000" "unit_of ''m'' = Some 60000000000" "unit_of ''s'' = Some 1000000000"
  by (simp_all add: unit_of_def)

section \<open>\<^verbatim>\<open>fmt.Sscanf\<close> with \<^verbatim>\<open>%d\<close>\<close>

text \<open>
  The blanks before the number are skipped, but a line feed is an error; the token is a
  sign and digits, and whatever follows is left alone. No result is an error, on which the
  variable keeps its value.
\<close>

definition scan_int :: "string \<Rightarrow> int option" where
  "scan_int str =
     (let s = trim_front (remove1 [CHR 0x0A] space_runes) str;
          sgn = s \<noteq> [] \<and> (hd s = CHR ''-'' \<or> hd s = CHR ''+'');
          ds = takeWhile is_digit (if sgn then tl s else s);
          n = int (value_from 0 ds);
          i = (if sgn \<and> hd s = CHR ''-'' then - n else n)
      in if ds = [] then None
         else if - (2 ^ 63) \<le> i \<and> i < 2 ^ 63 then Some i else None)"

section \<open>Printing and rounding durations\<close>

text \<open>\<^verbatim>\<open>fmtFrac\<close>: the digits after the point, without the trailing zeros.\<close>

definition fmt_frac :: "nat \<Rightarrow> nat \<Rightarrow> string" where
  "fmt_frac v prec =
     (let f = v mod 10 ^ prec; ds = dec_nat f;
          padded = replicate (prec - length ds) (CHR ''0'') @ ds
      in if f = 0 then [] else ''.'' @ rev (dropWhile (\<lambda>c. c = CHR ''0'') (rev padded)))"

definition Duration_String :: "duration \<Rightarrow> string" where
  "Duration_String d =
     (let u = nat \<bar>d\<bar>;
          sign = (if d < 0 then ''-'' else []);
          secs = u div 1000000000
      in if u = 0 then ''0s''
         else if u < 1000 then sign @ dec_nat u @ ''ns''
         else if u < 1000000 then sign @ dec_nat (u div 1000) @ fmt_frac u 3 @ [CHR 0xC2, CHR 0xB5, CHR ''s'']
         else if u < 1000000000 then sign @ dec_nat (u div 1000000) @ fmt_frac u 6 @ ''ms''
         else sign
           @ (if 3600 \<le> secs then dec_nat (secs div 3600) @ ''h'' else [])
           @ (if 60 \<le> secs then dec_nat (secs div 60 mod 60) @ ''m'' else [])
           @ dec_nat (secs mod 60) @ fmt_frac u 9 @ ''s'')"

text \<open>\<^verbatim>\<open>d.Round(m)\<close>: to the nearest multiple of a positive \<open>m\<close>, halves away from zero.\<close>

definition Duration_Round :: "duration \<Rightarrow> duration \<Rightarrow> duration" where
  "Duration_Round d m =
     (if m \<le> 0 then d
      else let r = \<bar>d\<bar> mod m; a = (if r + r < m then \<bar>d\<bar> - r else \<bar>d\<bar> + m - r) in sgn d * a)"

end
