(* ===== verification/Allowlist.thy ===== *)
theory Allowlist
  imports Http
begin

text \<open>
  \<^verbatim>\<open>pkg/allowlist\<close>: the list of addresses and networks that may reach the exchange
  endpoint, the errors of a list that does not parse, and the middleware.
\<close>

section \<open>The allowlist\<close>

record allowlist =
  al_nets :: "ipnet list"
  al_ips :: "ip list"
  al_trusted :: "ipnet list"

text \<open>\<^verbatim>\<open>ParseError\<close> carries the entry and, from \<^verbatim>\<open>New\<close> only, the error of \<^verbatim>\<open>ParseCIDR\<close>.\<close>

datatype parse_error = ParseError (perr_input: string) (perr_wraps: bool)

definition perr_Error :: "parse_error \<Rightarrow> string" where
  "perr_Error e = ''invalid IP or CIDR: '' @ perr_input e"

fun al_parseNets :: "string list \<Rightarrow> parse_error + ipnet list" where
  "al_parseNets [] = Inr []"
| "al_parseNets (e # es) =
     (let s = trim_space e in
      if s = [] then al_parseNets es
      else case ParseCIDR s of
        Some n \<Rightarrow> map_sum id ((#) n) (al_parseNets es)
      | None \<Rightarrow>
          (case ParseIP s of
             Some a \<Rightarrow>
               (let bits = (if To4 a = None then 128 else 32)
                in map_sum id ((#) \<lparr>net_ip = a, net_mask = CIDRMask bits bits\<rparr>) (al_parseNets es))
           | None \<Rightarrow> Inl (ParseError s False)))"

text \<open>The loop of \<^verbatim>\<open>New\<close> over the entries, appending to the two lists.\<close>

fun al_entries :: "string list \<Rightarrow> allowlist \<Rightarrow> parse_error + allowlist" where
  "al_entries [] a = Inr a"
| "al_entries (e # es) a =
     (let s = trim_space e in
      if s = [] then al_entries es a
      else case ParseCIDR s of
        Some n \<Rightarrow> al_entries es (a\<lparr>al_nets := al_nets a @ [n]\<rparr>)
      | None \<Rightarrow>
          (case ParseIP s of
             Some i \<Rightarrow> al_entries es (a\<lparr>al_ips := al_ips a @ [i]\<rparr>)
           | None \<Rightarrow> Inl (ParseError s True)))"

definition al_New :: "string list \<Rightarrow> string list \<Rightarrow> parse_error + allowlist" where
  "al_New allowed trustedProxies =
     (case al_parseNets trustedProxies of
        Inl e \<Rightarrow> Inl e
      | Inr t \<Rightarrow> al_entries allowed \<lparr>al_nets = [], al_ips = [], al_trusted = t\<rparr>)"

text \<open>The receiver may be a nil pointer.\<close>

definition al_IsEnabled :: "allowlist option \<Rightarrow> bool" where
  "al_IsEnabled a = (case a of None \<Rightarrow> False | Some a \<Rightarrow> al_nets a \<noteq> [] \<or> al_ips a \<noteq> [])"

definition al_Allowed :: "allowlist \<Rightarrow> string \<Rightarrow> bool" where
  "al_Allowed a ip =
     (if \<not> al_IsEnabled (Some a) then True
      else case ParseIP ip of
        None \<Rightarrow> False
      | Some parsed \<Rightarrow>
          if list_ex (\<lambda>i. ip_Equal i parsed) (al_ips a) then True
          else list_ex (\<lambda>n. Contains n parsed) (al_nets a))"

definition al_isTrustedProxy :: "allowlist \<Rightarrow> string \<Rightarrow> bool" where
  "al_isTrustedProxy a ip =
     (case ParseIP ip of
        None \<Rightarrow> False
      | Some parsed \<Rightarrow> list_ex (\<lambda>n. Contains n parsed) (al_trusted a))"

definition al_extractIP :: "allowlist \<Rightarrow> request \<Rightarrow> string" where
  "al_extractIP a r =
     (let host = (case SplitHostPort (RemoteAddr r) of Some (h, _) \<Rightarrow> h | None \<Rightarrow> RemoteAddr r)
      in if al_isTrustedProxy a host then
           (let xff = header_get r ''X-Forwarded-For'' in
            if xff \<noteq> [] then
              (case find (\<lambda>ip. \<not> al_isTrustedProxy a ip)
                      (map trim_space (rev (split_on (CHR '','') xff))) of
                 Some ip \<Rightarrow> ip
               | None \<Rightarrow> host)
            else host)
         else host)"

definition al_Middleware :: "allowlist \<Rightarrow> ('s, 'p) handler \<Rightarrow> ('s, 'p) handler" where
  "al_Middleware a next_handler s r =
     (if \<not> al_IsEnabled (Some a) then next_handler s r
      else let ip = al_extractIP a r
           in if \<not> al_Allowed a ip then
                (s, \<lparr>status = StatusForbidden, headers = json_header,
                     body = Text ''{\"error\": \"IP not allowed\"}''\<rparr>)
              else next_handler s r)"

section \<open>What an entry stands for\<close>

text \<open>
  The meaning of a list entry, apart from the two lists the code sorts it into: a network
  holds its addresses, a single address holds itself, in either of its forms.
\<close>

definition entry_matches :: "string \<Rightarrow> ip \<Rightarrow> bool" where
  "entry_matches e ip \<longleftrightarrow>
     (case ParseCIDR (trim_space e) of
        Some n \<Rightarrow> Contains n ip
      | None \<Rightarrow> (case ParseIP (trim_space e) of Some i \<Rightarrow> ip_Equal i ip | None \<Rightarrow> False))"

definition blank :: "string \<Rightarrow> bool" where
  "blank e \<longleftrightarrow> trim_space e = []"

definition entry_ok :: "string \<Rightarrow> bool" where
  "entry_ok e \<longleftrightarrow> blank e \<or> ParseCIDR (trim_space e) \<noteq> None \<or> ParseIP (trim_space e) \<noteq> None"

definition al_holds :: "allowlist \<Rightarrow> ip \<Rightarrow> bool" where
  "al_holds a ip \<longleftrightarrow> list_ex (\<lambda>i. ip_Equal i ip) (al_ips a) \<or> list_ex (\<lambda>n. Contains n ip) (al_nets a)"

lemma al_entries_ok: "(\<exists>b. al_entries es a = Inr b) \<longleftrightarrow> (\<forall>e \<in> set es. entry_ok e)"
  by (induction es a rule: al_entries.induct)
    (auto simp: entry_ok_def blank_def Let_def split: option.split)

lemma al_entries_holds:
  "al_entries es a = Inr b \<Longrightarrow>
   al_holds b ip \<longleftrightarrow> al_holds a ip \<or> (\<exists>e \<in> set es. \<not> blank e \<and> entry_matches e ip)"
proof (induction es a rule: al_entries.induct)
  case (2 e es a)
  then show ?case
    by (auto simp: Let_def blank_def entry_matches_def al_holds_def split: if_splits option.splits)
qed simp

lemma al_entries_enabled:
  "al_entries es a = Inr b \<Longrightarrow>
   al_IsEnabled (Some b) \<longleftrightarrow> al_IsEnabled (Some a) \<or> (\<exists>e \<in> set es. \<not> blank e)"
  by (induction es a rule: al_entries.induct)
    (auto simp: Let_def blank_def al_IsEnabled_def split: if_splits option.splits)

lemma al_entries_trusted: "al_entries es a = Inr b \<Longrightarrow> al_trusted b = al_trusted a"
  by (induction es a rule: al_entries.induct)
    (auto simp: Let_def split: if_splits option.splits)

lemma al_entries_error:
  "al_entries es a = Inl (ParseError s w) \<Longrightarrow> w \<and> (\<exists>e \<in> set es. s = trim_space e \<and> \<not> entry_ok e)"
  by (induction es a rule: al_entries.induct)
    (auto simp: Let_def entry_ok_def blank_def split: if_splits option.splits)

lemma al_parseNets_ok: "(\<exists>ns. al_parseNets es = Inr ns) \<longleftrightarrow> (\<forall>e \<in> set es. entry_ok e)"
proof (induction es)
  case (Cons e es)
  then show ?case
    by (cases "al_parseNets es") (auto simp: entry_ok_def blank_def Let_def split: option.split)
qed simp

lemma al_parseNets_error:
  "al_parseNets es = Inl (ParseError s w) \<Longrightarrow> \<not> w \<and> (\<exists>e \<in> set es. s = trim_space e \<and> \<not> entry_ok e)"
proof (induction es)
  case (Cons e es)
  then show ?case
    by (cases "al_parseNets es")
      (auto simp: entry_ok_def blank_def Let_def split: if_splits option.splits)
qed simp

lemma al_Allowed_holds:
  "al_Allowed a ip \<longleftrightarrow>
   \<not> al_IsEnabled (Some a) \<or> (\<exists>parsed. ParseIP ip = Some parsed \<and> al_holds a parsed)"
  by (auto simp: al_Allowed_def al_holds_def split: option.split)

section \<open>The proxy contract\<close>

lemma al_extractIP_client: "al_extractIP a = forwarded_client (al_isTrustedProxy a)"
  unfolding al_extractIP_def Let_def forwarded_parts_def peer_def forwarded_client_def
  by (rule ext) (simp add: rev_map)

interpretation al_proxy: forwarded_for "al_isTrustedProxy a" "al_extractIP a" for a
  by (rule forwarded_forI) (rule al_extractIP_client)

lemma al_Middleware_pass:
  "al_Middleware a h s r =
   (if al_Allowed a (al_extractIP a r) then h s r
    else (s, \<lparr>status = StatusForbidden, headers = json_header,
              body = Text ''{\"error\": \"IP not allowed\"}''\<rparr>))"
  by (simp add: al_Middleware_def al_Allowed_def Let_def)

section \<open>Properties\<close>

text \<open>
  Building an allowlist is all or nothing: it succeeds exactly when every entry of both
  lists is blank, a network or an address, and an error names an entry that is none of them.
\<close>

theorem al_New_all_or_error:
  "case al_New allowed proxies of
     Inr a \<Rightarrow> \<forall>e \<in> set (proxies @ allowed). entry_ok e
   | Inl err \<Rightarrow> \<exists>e \<in> set (proxies @ allowed).
       perr_Error err = ''invalid IP or CIDR: '' @ trim_space e \<and> \<not> entry_ok e"
proof (cases "al_parseNets proxies")
  case (Inl err)
  then show ?thesis
    using al_parseNets_error [of proxies "perr_input err" "perr_wraps err"]
    by (auto simp: al_New_def perr_Error_def)
next
  case (Inr t)
  let ?a = "\<lparr>al_nets = [], al_ips = [], al_trusted = t\<rparr>"
  have proxies: "\<forall>e \<in> set proxies. entry_ok e" using al_parseNets_ok Inr by blast
  show ?thesis
  proof (cases "al_entries allowed ?a")
    case (Inl err)
    then show ?thesis
      using al_entries_error [of allowed ?a "perr_input err" "perr_wraps err"] Inr
      by (auto simp: al_New_def perr_Error_def)
  next
    case inr: (Inr a)
    then have "\<forall>e \<in> set allowed. entry_ok e" using al_entries_ok by blast
    with inr Inr proxies show ?thesis by (auto simp: al_New_def)
  qed
qed

theorem al_New_all_or_error_witness:
  "case al_New [''10.0.0.0/8'', ''nonsense''] [] of
     Inr a \<Rightarrow> False
   | Inl err \<Rightarrow> perr_Error err = ''invalid IP or CIDR: nonsense''"
proof -
  have t: "trim_space ''10.0.0.0/8'' = ''10.0.0.0/8''" "trim_space ''nonsense'' = ''nonsense''"
    by (simp_all add: trim_eval)
  have ok: "entry_ok ''10.0.0.0/8''" "\<not> entry_ok ''nonsense''"
    by (simp_all add: entry_ok_def blank_def t go_unfold Let_def)
  show ?thesis
    using al_New_all_or_error [where allowed = "[''10.0.0.0/8'', ''nonsense'']" and proxies = "[]"] ok
    by (auto simp: t split: sum.splits)
qed

text \<open>
  An address is let through exactly when the list is empty of entries or one of them
  matches it, whichever of the two internal lists the entry went to.
\<close>

theorem al_Allowed_iff:
  assumes "al_New allowed proxies = Inr a"
  shows "al_Allowed a ip \<longleftrightarrow>
    (\<forall>e \<in> set allowed. blank e) \<or>
    (\<exists>parsed. ParseIP ip = Some parsed \<and> (\<exists>e \<in> set allowed. \<not> blank e \<and> entry_matches e parsed))"
proof -
  obtain t where "al_entries allowed \<lparr>al_nets = [], al_ips = [], al_trusted = t\<rparr> = Inr a"
    using assms by (auto simp: al_New_def split: sum.splits)
  note made = al_entries_enabled [OF this] al_entries_holds [OF this]
  then show ?thesis
    by (auto simp: al_Allowed_holds al_IsEnabled_def al_holds_def)
qed



theorem al_Allowed_iff_witness:
  "al_Allowed \<lparr>al_nets = [], al_ips = [], al_trusted = []\<rparr> ''anyone''"
  by (rule al_Allowed_iff [THEN iffD2, of "[''  '']" "[]"])
    (simp_all add: al_New_def trim_eval blank_def Let_def)

end
