(* ===== verification/Config.thy ===== *)
theory Config
  imports GoTime Allowlist
begin

text \<open>
  \<^verbatim>\<open>pkg/config\<close>: the YAML file, the environment that overrides it, defaults and validation.
  The YAML decoder is third-party code and stays a parameter; the environment is the
  function \<^verbatim>\<open>os.Getenv\<close> (empty when unset) and \<^verbatim>\<open>os.ReadFile\<close> a function that may fail.
\<close>

section \<open>Configuration values\<close>

record RBACRule =
  rule_Claim :: string
  rule_Value :: string
  rule_Roles :: "string list"

record FileConfig =
  f_TalosConfig :: string
  f_IssuerURL :: string
  f_ClientID :: string
  f_ClientSecret :: string
  f_ClientSecretFile :: string
  f_Listen :: string
  f_Endpoints :: "string list"
  f_CertTTL :: string
  f_Roles :: "string list"
  f_TLSCert :: string
  f_TLSKey :: string
  f_Insecure :: bool
  f_DataDir :: string
  f_AuditLog :: string
  f_CertLog :: string
  f_AdminToken :: string
  f_RateLimitRequests :: int
  f_RateLimitWindow :: duration
  f_IPAllowlist :: "string list"
  f_TrustedProxies :: "string list"
  f_RBAC :: "RBACRule list"

definition empty_FileConfig :: FileConfig where
  "empty_FileConfig =
     \<lparr>f_TalosConfig = [], f_IssuerURL = [], f_ClientID = [], f_ClientSecret = [],
      f_ClientSecretFile = [], f_Listen = [], f_Endpoints = [], f_CertTTL = [], f_Roles = [],
      f_TLSCert = [], f_TLSKey = [], f_Insecure = False, f_DataDir = [], f_AuditLog = [],
      f_CertLog = [], f_AdminToken = [], f_RateLimitRequests = 0, f_RateLimitWindow = 0,
      f_IPAllowlist = [], f_TrustedProxies = [], f_RBAC = []\<rparr>"

record ResolvedConfig =
  rc_TalosConfig :: string
  rc_IssuerURL :: string
  rc_ClientID :: string
  rc_ClientSecret :: string
  rc_ClientSecretFile :: string
  rc_Listen :: string
  rc_Endpoints :: "string list"
  rc_CertTTL :: string
  rc_Roles :: "string list"
  rc_TLSCert :: string
  rc_TLSKey :: string
  rc_Insecure :: bool
  rc_DataDir :: string
  rc_AuditLog :: string
  rc_CertLog :: string
  rc_AdminToken :: string
  rc_RateLimitRequests :: int
  rc_RateLimitWindow :: duration
  rc_IPAllowlist :: "string list"
  rc_TrustedProxies :: "string list"
  rc_RBAC :: "RBACRule list"

datatype config_error =
    ReadingConfigFile string
  | ParsingConfigFile string
  | RequiredNotSet "string list"
  | TLSPairIncomplete
  | TLSCertAndInsecure
  | ReadingSecretFile string
  | InvalidCertTTL string

section \<open>Loading\<close>

definition LoadFile ::
  "(string \<Rightarrow> string option) \<Rightarrow> (string \<Rightarrow> FileConfig option) \<Rightarrow> string \<Rightarrow> config_error + FileConfig" where
  "LoadFile readfile yaml path =
     (if path = [] then Inr empty_FileConfig
      else case readfile path of
        None \<Rightarrow> Inl (ReadingConfigFile path)
      | Some data \<Rightarrow>
          (case yaml data of None \<Rightarrow> Inl (ParsingConfigFile path) | Some cfg \<Rightarrow> Inr cfg))"

definition envOrDefault :: "(string \<Rightarrow> string) \<Rightarrow> string \<Rightarrow> string \<Rightarrow> string" where
  "envOrDefault env key fallback = (if env key \<noteq> [] then env key else fallback)"

definition splitCSV :: "string \<Rightarrow> string list" where
  "splitCSV v = filter (\<lambda>p. p \<noteq> []) (map trim_space (split_on (CHR '','') v))"

text \<open>A list option: the variable, split, when it is set; else the list of the file.\<close>

definition envListOr :: "(string \<Rightarrow> string) \<Rightarrow> string \<Rightarrow> string list \<Rightarrow> string list" where
  "envListOr env key file =
     (if env key \<noteq> [] then splitCSV (env key) else if file \<noteq> [] then file else [])"

definition Load ::
  "(string \<Rightarrow> string) \<Rightarrow> (string \<Rightarrow> string option) \<Rightarrow> (string \<Rightarrow> FileConfig option) \<Rightarrow> string
     \<Rightarrow> config_error + ResolvedConfig" where
  "Load env readfile yaml path =
     (let configPath = (if path = [] then env ''TALOSCTL_OIDC_CONFIG'' else path) in
      case LoadFile readfile yaml configPath of
        Inl e \<Rightarrow> Inl e
      | Inr f \<Rightarrow> Inr
          \<lparr>rc_TalosConfig = envOrDefault env ''TALOSCTL_OIDC_TALOS_CONFIG'' (f_TalosConfig f),
           rc_IssuerURL = envOrDefault env ''TALOSCTL_OIDC_ISSUER_URL'' (f_IssuerURL f),
           rc_ClientID = envOrDefault env ''TALOSCTL_OIDC_CLIENT_ID'' (f_ClientID f),
           rc_ClientSecret = envOrDefault env ''TALOSCTL_OIDC_CLIENT_SECRET'' (f_ClientSecret f),
           rc_ClientSecretFile = envOrDefault env ''TALOSCTL_OIDC_CLIENT_SECRET_FILE'' (f_ClientSecretFile f),
           rc_Listen = envOrDefault env ''TALOSCTL_OIDC_LISTEN'' (f_Listen f),
           rc_Endpoints = envListOr env ''TALOSCTL_OIDC_ENDPOINTS'' (f_Endpoints f),
           rc_CertTTL = envOrDefault env ''TALOSCTL_OIDC_CERT_TTL'' (f_CertTTL f),
           rc_Roles = envListOr env ''TALOSCTL_OIDC_ROLES'' (f_Roles f),
           rc_TLSCert = envOrDefault env ''TALOSCTL_OIDC_TLS_CERT'' (f_TLSCert f),
           rc_TLSKey = envOrDefault env ''TALOSCTL_OIDC_TLS_KEY'' (f_TLSKey f),
           rc_Insecure =
             (let v = env ''TALOSCTL_OIDC_INSECURE'' in
              if v \<noteq> [] then equal_fold_true v \<or> v = ''1'' else f_Insecure f),
           rc_DataDir = envOrDefault env ''TALOSCTL_OIDC_DATA_DIR'' (f_DataDir f),
           rc_AuditLog = envOrDefault env ''TALOSCTL_OIDC_AUDIT_LOG'' (f_AuditLog f),
           rc_CertLog = envOrDefault env ''TALOSCTL_OIDC_CERT_LOG'' (f_CertLog f),
           rc_AdminToken = envOrDefault env ''TALOSCTL_OIDC_ADMIN_TOKEN'' (f_AdminToken f),
           rc_RateLimitRequests =
             (let v = env ''TALOSCTL_OIDC_RATE_LIMIT_REQUESTS'' in
              if v \<noteq> [] then (case scan_int v of Some i \<Rightarrow> i | None \<Rightarrow> f_RateLimitRequests f)
              else f_RateLimitRequests f),
           rc_RateLimitWindow =
             (let v = env ''TALOSCTL_OIDC_RATE_LIMIT_WINDOW'' in
              if v \<noteq> [] then (case ParseDuration v of Some d \<Rightarrow> d | None \<Rightarrow> f_RateLimitWindow f)
              else f_RateLimitWindow f),
           rc_IPAllowlist = envListOr env ''TALOSCTL_OIDC_IP_ALLOWLIST'' (f_IPAllowlist f),
           rc_TrustedProxies = envListOr env ''TALOSCTL_OIDC_TRUSTED_PROXIES'' (f_TrustedProxies f),
           rc_RBAC = f_RBAC f\<rparr>)"

definition missing_fields :: "ResolvedConfig \<Rightarrow> string list" where
  "missing_fields rc =
     (if rc_IssuerURL rc = [] then [''issuer_url / TALOSCTL_OIDC_ISSUER_URL''] else []) @
     (if rc_ClientID rc = [] then [''client_id / TALOSCTL_OIDC_CLIENT_ID''] else []) @
     (if rc_Endpoints rc = [] then [''endpoints / TALOSCTL_OIDC_ENDPOINTS''] else [])"

definition Validate :: "ResolvedConfig \<Rightarrow> config_error option" where
  "Validate rc =
     (let missing = missing_fields rc in
      if missing \<noteq> [] then Some (RequiredNotSet missing)
      else if (rc_TLSCert rc \<noteq> []) \<noteq> (rc_TLSKey rc \<noteq> []) then Some TLSPairIncomplete
      else if rc_TLSCert rc \<noteq> [] \<and> rc_Insecure rc then Some TLSCertAndInsecure
      else None)"

definition ApplyDefaults :: "ResolvedConfig \<Rightarrow> ResolvedConfig" where
  "ApplyDefaults rc =
     (let rc1 = (if rc_Listen rc = [] then rc\<lparr>rc_Listen := '':8443''\<rparr> else rc)
      in if rc_Roles rc1 = [] \<and> rc_RBAC rc1 = [] then rc1\<lparr>rc_Roles := [''os:admin'']\<rparr> else rc1)"

definition LoadClientSecret ::
  "(string \<Rightarrow> string option) \<Rightarrow> ResolvedConfig \<Rightarrow> config_error + ResolvedConfig" where
  "LoadClientSecret readfile rc =
     (if rc_ClientSecretFile rc = [] then Inr rc
      else case readfile (rc_ClientSecretFile rc) of
        None \<Rightarrow> Inl (ReadingSecretFile (rc_ClientSecretFile rc))
      | Some data \<Rightarrow> Inr (rc\<lparr>rc_ClientSecret := trim_space data\<rparr>))"

definition ParseCertTTL :: "ResolvedConfig \<Rightarrow> config_error + duration" where
  "ParseCertTTL rc =
     (if rc_CertTTL rc = [] then Inr (5 * minute)
      else case ParseDuration (rc_CertTTL rc) of
        None \<Rightarrow> Inl (InvalidCertTTL (rc_CertTTL rc))
      | Some d \<Rightarrow> Inr d)"

text \<open>The first lines of \<^verbatim>\<open>runServe\<close>: what the server is started with.\<close>

definition resolve ::
  "(string \<Rightarrow> string) \<Rightarrow> (string \<Rightarrow> string option) \<Rightarrow> (string \<Rightarrow> FileConfig option) \<Rightarrow> string
     \<Rightarrow> config_error + ResolvedConfig \<times> duration" where
  "resolve env readfile yaml path =
     (case Load env readfile yaml path of
        Inl e \<Rightarrow> Inl e
      | Inr rc0 \<Rightarrow>
          (let rc = ApplyDefaults rc0 in
           case Validate rc of
             Some e \<Rightarrow> Inl e
           | None \<Rightarrow>
               (case LoadClientSecret readfile rc of
                  Inl e \<Rightarrow> Inl e
                | Inr rc' \<Rightarrow>
                    (case ParseCertTTL rc' of Inl e \<Rightarrow> Inl e | Inr ttl \<Rightarrow> Inr (rc', ttl)))))"

section \<open>What a resolved configuration guarantees\<close>

lemma trim_front_idem: "rune_len rs s = 0 \<Longrightarrow> trim_front rs s = s"
  by (simp add: trim_front.simps)

lemma splitCSV_entries: "p \<in> set (splitCSV v) \<Longrightarrow> p \<noteq> []"
  by (simp add: splitCSV_def)

lemma missing_fields_Nil:
  "missing_fields rc = [] \<longleftrightarrow> rc_IssuerURL rc \<noteq> [] \<and> rc_ClientID rc \<noteq> [] \<and> rc_Endpoints rc \<noteq> []"
  by (simp add: missing_fields_def)

lemma Validate_None:
  "Validate rc = None \<longleftrightarrow>
   missing_fields rc = [] \<and> (rc_TLSCert rc \<noteq> [] \<longleftrightarrow> rc_TLSKey rc \<noteq> []) \<and>
   \<not> (rc_TLSCert rc \<noteq> [] \<and> rc_Insecure rc)"
  by (simp add: Validate_def Let_def)

lemma ApplyDefaults_set:
  "rc_Listen (ApplyDefaults rc) \<noteq> []"
  "rc_Roles (ApplyDefaults rc) \<noteq> [] \<or> rc_RBAC (ApplyDefaults rc) \<noteq> []"
  by (simp_all add: ApplyDefaults_def Let_def)

lemma ApplyDefaults_keeps:
  "rc_Roles rc \<noteq> [] \<Longrightarrow> rc_Roles (ApplyDefaults rc) = rc_Roles rc"
  "rc_RBAC rc \<noteq> [] \<Longrightarrow> rc_Roles (ApplyDefaults rc) = rc_Roles rc"
  by (simp_all add: ApplyDefaults_def Let_def)

lemma ApplyDefaults_idem: "ApplyDefaults (ApplyDefaults rc) = ApplyDefaults rc"
  by (simp add: ApplyDefaults_def Let_def)

lemma LoadClientSecret_cases:
  assumes "LoadClientSecret readfile rc = Inr rc'"
  obtains s where "rc' = rc\<lparr>rc_ClientSecret := s\<rparr>"
proof (cases "rc_ClientSecretFile rc = []")
  case True
  with assms have "rc' = rc\<lparr>rc_ClientSecret := rc_ClientSecret rc\<rparr>" by (simp add: LoadClientSecret_def)
  then show thesis by (rule that)
next
  case False
  with assms that show thesis by (auto simp: LoadClientSecret_def split: option.splits)
qed

lemma resolve_InrE:
  assumes "resolve env readfile yaml path = Inr (rc, ttl)"
  obtains rc0 s where "Load env readfile yaml path = Inr rc0"
    and "rc = (ApplyDefaults rc0)\<lparr>rc_ClientSecret := s\<rparr>"
    and "Validate (ApplyDefaults rc0) = None" and "ParseCertTTL rc = Inr ttl"
proof -
  obtain rc0 where load: "Load env readfile yaml path = Inr rc0"
    using assms by (auto simp: resolve_def split: sum.splits)
  with assms have val: "Validate (ApplyDefaults rc0) = None"
    and sec: "LoadClientSecret readfile (ApplyDefaults rc0) = Inr rc"
    and ttl: "ParseCertTTL rc = Inr ttl"
    by (auto simp: resolve_def Let_def split: sum.splits option.splits)
  from sec obtain s where "rc = (ApplyDefaults rc0)\<lparr>rc_ClientSecret := s\<rparr>"
    by (rule LoadClientSecret_cases)
  from load this val ttl show thesis by (rule that)
qed

lemma duration_loop_part:
  assumes "s \<noteq> []" and "is_digit (hd s)" and "duration_part s = Some (w, r)" and "d + w \<le> 2 ^ 63"
  shows "duration_loop d s = duration_loop (d + w) r"
  using assms by (subst duration_loop.simps) (simp add: Let_def)

lemma hd_dec_nat: "is_digit (hd (dec_nat n @ r))"
  using dec_nat_digits [of "hd (dec_nat n)" n] by (simp add: hd_append)

lemma dec_nat_not_sign: "hd (dec_nat n @ r) \<noteq> CHR ''-''" "hd (dec_nat n @ r) \<noteq> CHR ''+''"
  using hd_dec_nat [of n r] by (auto simp: is_digit_def code_def)

lemma ParseDuration_hms:
  assumes "h * 3600000000000 + m * 60000000000 + s * 1000000000 < 2 ^ 63"
  shows "ParseDuration (dec_nat h @ ''h'' @ dec_nat m @ ''m'' @ dec_nat s @ ''s'') =
    Some (int (h * 3600000000000 + m * 60000000000 + s * 1000000000))"
proof -
  let ?s = "dec_nat s @ ''s'' @ []"
  let ?m = "dec_nat m @ ''m'' @ ?s" and ?dm = "h * 3600000000000"
  let ?h = "dec_nat h @ ''h'' @ ?m" and ?ds = "h * 3600000000000 + m * 60000000000"
  have 3: "duration_part ?s = Some (s * 1000000000, [])"
    by (rule duration_part_dec) (use assms in \<open>auto simp: is_digit_def code_def\<close>)
  have 2: "duration_part ?m = Some (m * 60000000000, ?s)"
    by (rule duration_part_dec) (use assms hd_dec_nat in \<open>auto simp: is_digit_def code_def\<close>)
  have 1: "duration_part ?h = Some (h * 3600000000000, ?m)"
    by (rule duration_part_dec) (use assms hd_dec_nat in \<open>auto simp: is_digit_def code_def\<close>)
  have "duration_loop 0 ?h = duration_loop (0 + h * 3600000000000) ?m"
    by (rule duration_loop_part [OF _ hd_dec_nat 1]) (use assms in auto)
  also have "\<dots> = duration_loop (0 + h * 3600000000000 + m * 60000000000) ?s"
    by (rule duration_loop_part [OF _ hd_dec_nat 2]) (use assms in auto)
  also have "\<dots> = duration_loop (0 + h * 3600000000000 + m * 60000000000 + s * 1000000000) []"
    by (rule duration_loop_part [OF _ hd_dec_nat 3]) (use assms in auto)
  finally have "duration_loop 0 ?h = Some (h * 3600000000000 + m * 60000000000 + s * 1000000000)"
    by (simp add: duration_loop.simps)
  moreover have "?h \<noteq> ''0''" by (auto dest!: arg_cong [where f = length])
  ultimately show ?thesis
    using dec_nat_not_sign [of h "''h'' @ ?m"] assms by (simp add: ParseDuration_def Let_def)
qed

lemma splitCSV_join:
  assumes "ps \<noteq> []" and "\<forall>p \<in> set ps. p \<noteq> [] \<and> CHR '','' \<notin> set p \<and> trim_space p = p"
  shows "splitCSV (join '','' ps) = ps"
proof -
  have "map trim_space ps = ps" using assms(2) by (simp add: map_idI)
  moreover have "filter (\<lambda>p. p \<noteq> []) ps = ps" using assms(2) by simp
  ultimately show ?thesis using assms by (simp add: splitCSV_def split_on_join)
qed

section \<open>Properties\<close>

text \<open>
  C32. Whatever the file and the environment hold, a configuration the server starts with
  names an issuer, a client and an endpoint, has a listen address, a certificate exactly
  when it has a key and never together with plain HTTP, and has roles or mapping rules.
\<close>

theorem resolve_well_formed:
  assumes "resolve env readfile yaml path = Inr (rc, ttl)"
  shows "rc_IssuerURL rc \<noteq> [] \<and> rc_ClientID rc \<noteq> [] \<and> rc_Endpoints rc \<noteq> [] \<and> rc_Listen rc \<noteq> [] \<and>
    (rc_TLSCert rc = [] \<longleftrightarrow> rc_TLSKey rc = []) \<and> (rc_TLSCert rc = [] \<or> \<not> rc_Insecure rc) \<and>
    (rc_Roles rc \<noteq> [] \<or> rc_RBAC rc \<noteq> [])"
  using assms
proof (rule resolve_InrE)
  fix rc0 s
  assume "rc = (ApplyDefaults rc0)\<lparr>rc_ClientSecret := s\<rparr>" "Validate (ApplyDefaults rc0) = None"
  then show ?thesis using ApplyDefaults_set [of rc0] by (auto simp: Validate_None missing_fields_Nil)
qed

definition demo_env :: "string \<Rightarrow> string" where
  "demo_env k =
     (if k = ''TALOSCTL_OIDC_ISSUER_URL'' then ''https://idp''
      else if k = ''TALOSCTL_OIDC_CLIENT_ID'' then ''talos''
      else if k = ''TALOSCTL_OIDC_ENDPOINTS'' then ''10.0.0.1''
      else [])"

definition demo_rc :: ResolvedConfig where
  "demo_rc = \<lparr>rc_TalosConfig = [], rc_IssuerURL = ''https://idp'', rc_ClientID = ''talos'',
     rc_ClientSecret = [], rc_ClientSecretFile = [], rc_Listen = [], rc_Endpoints = [''10.0.0.1''],
     rc_CertTTL = [], rc_Roles = [], rc_TLSCert = [], rc_TLSKey = [], rc_Insecure = False,
     rc_DataDir = [], rc_AuditLog = [], rc_CertLog = [], rc_AdminToken = [],
     rc_RateLimitRequests = 0, rc_RateLimitWindow = 0, rc_IPAllowlist = [], rc_TrustedProxies = [],
     rc_RBAC = []\<rparr>"

lemma demo_env_values:
  "demo_env ''TALOSCTL_OIDC_CONFIG'' = []"
  "demo_env ''TALOSCTL_OIDC_TALOS_CONFIG'' = []"
  "demo_env ''TALOSCTL_OIDC_ISSUER_URL'' = ''https://idp''"
  "demo_env ''TALOSCTL_OIDC_CLIENT_ID'' = ''talos''"
  "demo_env ''TALOSCTL_OIDC_CLIENT_SECRET'' = []"
  "demo_env ''TALOSCTL_OIDC_CLIENT_SECRET_FILE'' = []"
  "demo_env ''TALOSCTL_OIDC_LISTEN'' = []"
  "demo_env ''TALOSCTL_OIDC_ENDPOINTS'' = ''10.0.0.1''"
  "demo_env ''TALOSCTL_OIDC_CERT_TTL'' = []"
  "demo_env ''TALOSCTL_OIDC_ROLES'' = []"
  "demo_env ''TALOSCTL_OIDC_TLS_CERT'' = []"
  "demo_env ''TALOSCTL_OIDC_TLS_KEY'' = []"
  "demo_env ''TALOSCTL_OIDC_INSECURE'' = []"
  "demo_env ''TALOSCTL_OIDC_DATA_DIR'' = []"
  "demo_env ''TALOSCTL_OIDC_AUDIT_LOG'' = []"
  "demo_env ''TALOSCTL_OIDC_CERT_LOG'' = []"
  "demo_env ''TALOSCTL_OIDC_ADMIN_TOKEN'' = []"
  "demo_env ''TALOSCTL_OIDC_RATE_LIMIT_REQUESTS'' = []"
  "demo_env ''TALOSCTL_OIDC_RATE_LIMIT_WINDOW'' = []"
  "demo_env ''TALOSCTL_OIDC_IP_ALLOWLIST'' = []"
  "demo_env ''TALOSCTL_OIDC_TRUSTED_PROXIES'' = []"
  by (simp_all add: demo_env_def)

lemma demo_Load: "Load demo_env (\<lambda>p. None) (\<lambda>d. None) [] = Inr demo_rc"
proof -
  have csv: "splitCSV ''10.0.0.1'' = [''10.0.0.1'']"
    by (simp add: splitCSV_def trim_eval)
  show ?thesis
    by (simp only: Load_def LoadFile_def empty_FileConfig_def envOrDefault_def envListOr_def
        demo_env_values Let_def if_True if_False sum.case csv simp_thms)
      (simp add: csv demo_rc_def)
qed

lemma demo_resolve: "\<exists>rc. resolve demo_env (\<lambda>p. None) (\<lambda>d. None) [] = Inr (rc, 5 * minute)"
proof -
  let ?rc = "demo_rc\<lparr>rc_Listen := '':8443'', rc_Roles := [''os:admin'']\<rparr>"
  have "ApplyDefaults demo_rc = ?rc"
    unfolding ApplyDefaults_def demo_rc_def by simp
  moreover have "Validate ?rc = None"
    unfolding Validate_None missing_fields_Nil demo_rc_def by simp
  moreover have "LoadClientSecret (\<lambda>p. None) ?rc = Inr ?rc" "ParseCertTTL ?rc = Inr (5 * minute)"
    unfolding LoadClientSecret_def ParseCertTTL_def demo_rc_def by simp_all
  ultimately show ?thesis
    unfolding resolve_def demo_Load sum.case Let_def by (simp only: option.case sum.case) blast
qed

theorem resolve_well_formed_witness:
  "\<exists>rc. resolve demo_env (\<lambda>p. None) (\<lambda>d. None) [] = Inr (rc, 5 * minute) \<and> rc_IssuerURL rc \<noteq> []"
  using demo_resolve resolve_well_formed by blast

text \<open>
  A list written to an environment variable is read back: the entries joined with
  commas are what the comma-separated value splits into.
\<close>

theorem splitCSV_roundtrip:
  assumes "ps \<noteq> []" and "\<forall>p \<in> set ps. p \<noteq> [] \<and> CHR '','' \<notin> set p \<and> trim_space p = p"
  shows "splitCSV (join '','' ps) = ps"
  using assms by (rule splitCSV_join)

theorem splitCSV_roundtrip_witness:
  "splitCSV (join '','' [''os:reader'', ''os:operator'']) = [''os:reader'', ''os:operator'']"
proof -
  have "trim_space ''os:reader'' = ''os:reader''" "trim_space ''os:operator'' = ''os:operator''"
    by (simp_all add: trim_eval)
  then show ?thesis by (intro splitCSV_roundtrip) simp_all
qed

text \<open>
  A certificate lifetime written as hours, minutes and seconds is read to the
  nanosecond, up to the largest duration Go can hold.
\<close>

theorem cert_ttl_roundtrip:
  assumes "h * 3600000000000 + m * 60000000000 + s * 1000000000 < 2 ^ 63"
  shows "ParseCertTTL (rc\<lparr>rc_CertTTL := dec_nat h @ ''h'' @ dec_nat m @ ''m'' @ dec_nat s @ ''s''\<rparr>) =
    Inr (int h * hour + int m * minute + int s * second)"
  using ParseDuration_hms [OF assms] by (simp add: ParseCertTTL_def time_units)

theorem cert_ttl_roundtrip_witness:
  "\<exists>rc. rc_CertTTL rc = dec_nat 1 @ ''h'' @ dec_nat 30 @ ''m'' @ dec_nat 0 @ ''s'' \<and>
     ParseCertTTL rc = Inr (1 * hour + 30 * minute + 0 * second)"
proof -
  obtain rc where "resolve demo_env (\<lambda>p. None) (\<lambda>d. None) [] = Inr (rc, 5 * minute)"
    using demo_resolve by blast
  with cert_ttl_roundtrip [of 1 30 0 rc] show ?thesis
    by (intro exI [of _ "rc\<lparr>rc_CertTTL := dec_nat 1 @ ''h'' @ dec_nat 30 @ ''m'' @ dec_nat 0 @ ''s''\<rparr>"]) simp
qed

end
