(* ===== verification/Rbac.thy ===== *)
theory Rbac
  imports Config
begin

text \<open>
  \<^verbatim>\<open>pkg/rbac\<close>: mapping the claims of a token to Talos roles. A claim is what the JSON
  decoder stored for it, or the \<^verbatim>\<open>[]string\<close> the type switch also accepts. The set of roles
  is a Go map, so the order in which it comes out is a parameter.
\<close>

section \<open>The mapper\<close>

datatype claim_value = Decoded json | StringSlice "string list"

type_synonym claims = "string \<Rightarrow> claim_value option"

record mapper =
  m_rules :: "RBACRule list"
  m_defaultRoles :: "string list"

definition NewMapper :: "RBACRule list \<Rightarrow> string list \<Rightarrow> mapper" where
  "NewMapper rules defaults = \<lparr>m_rules = rules, m_defaultRoles = defaults\<rparr>"

fun matchesValue :: "claim_value \<Rightarrow> string \<Rightarrow> bool" where
  "matchesValue (Decoded (JStr v)) expected =
     (if v = expected then True
      else let parts = Fields v in 1 < length parts \<and> list_ex (\<lambda>p. p = expected) parts)"
| "matchesValue (Decoded (JArr vs)) expected =
     list_ex (\<lambda>i. case i of JStr s \<Rightarrow> s = expected | _ \<Rightarrow> False) vs"
| "matchesValue (StringSlice vs) expected = list_ex (\<lambda>s. s = expected) vs"
| "matchesValue _ expected = False"

text \<open>The loop over the rules: the role set, in order of insertion, and whether a rule matched.\<close>

fun eval_rules :: "claims \<Rightarrow> RBACRule list \<Rightarrow> string list \<times> bool \<Rightarrow> string list \<times> bool" where
  "eval_rules cl [] acc = acc"
| "eval_rules cl (rule # rules) (roleSet, matched) =
     (case cl (rule_Claim rule) of
        None \<Rightarrow> eval_rules cl rules (roleSet, matched)
      | Some v \<Rightarrow>
          if matchesValue v (rule_Value rule)
          then eval_rules cl rules (fold List.insert (rule_Roles rule) roleSet, True)
          else eval_rules cl rules (roleSet, matched))"

text \<open>\<open>order\<close> is the iteration order of the map: it permutes the keys.\<close>

definition MapRoles :: "(string list \<Rightarrow> string list) \<Rightarrow> mapper \<Rightarrow> claims \<Rightarrow> string list" where
  "MapRoles order m cl =
     (if m_rules m = [] then m_defaultRoles m
      else let (roleSet, matched) = eval_rules cl (m_rules m) ([], False)
           in if \<not> matched then m_defaultRoles m else order roleSet)"

definition HasRules :: "mapper \<Rightarrow> bool" where
  "HasRules m \<longleftrightarrow> m_rules m \<noteq> []"

text \<open>What a map's iteration promises: every key once.\<close>

definition permutes_keys :: "(string list \<Rightarrow> string list) \<Rightarrow> bool" where
  "permutes_keys order \<longleftrightarrow> (\<forall>xs. distinct xs \<longrightarrow> distinct (order xs) \<and> set (order xs) = set xs)"

section \<open>The roles a token earns\<close>

text \<open>The values a claim stands for: the words of a string, the strings of an array.\<close>

fun claim_strings :: "claim_value \<Rightarrow> string set" where
  "claim_strings (Decoded (JStr v)) = insert v (if 1 < length (Fields v) then set (Fields v) else {})"
| "claim_strings (Decoded (JArr vs)) = {s. JStr s \<in> set vs}"
| "claim_strings (StringSlice vs) = set vs"
| "claim_strings _ = {}"

definition rule_matches :: "claims \<Rightarrow> RBACRule \<Rightarrow> bool" where
  "rule_matches cl r \<longleftrightarrow> (\<exists>v. cl (rule_Claim r) = Some v \<and> rule_Value r \<in> claim_strings v)"

lemma json_str_case: "(case i of JStr s \<Rightarrow> s = e | _ \<Rightarrow> False) \<longleftrightarrow> i = JStr e"
  by (cases i) auto

lemma matchesValue_iff: "matchesValue v e \<longleftrightarrow> e \<in> claim_strings v"
  by (induction v e rule: matchesValue.induct)
    (auto simp: Let_def list_ex_iff json_str_case)

lemma set_fold_insert: "set (fold List.insert rs xs) = set rs \<union> set xs"
  by (induction rs arbitrary: xs) auto

lemma distinct_fold_insert: "distinct xs \<Longrightarrow> distinct (fold List.insert rs xs)"
  by (induction rs arbitrary: xs) auto

lemma eval_rules_spec:
  "eval_rules cl rules (S, b) = (S', b') \<Longrightarrow>
   set S' = set S \<union> (\<Union>r \<in> {r \<in> set rules. rule_matches cl r}. set (rule_Roles r)) \<and>
   (b' \<longleftrightarrow> b \<or> (\<exists>r \<in> set rules. rule_matches cl r)) \<and> (distinct S \<longrightarrow> distinct S')"
proof (induction rules arbitrary: S b)
  case Nil
  then show ?case by simp
next
  case (Cons r rules)
  show ?case
  proof (cases "rule_matches cl r")
    case True
    then obtain v where "cl (rule_Claim r) = Some v" "matchesValue v (rule_Value r)"
      by (auto simp: rule_matches_def matchesValue_iff)
    with Cons.prems have "eval_rules cl rules (fold List.insert (rule_Roles r) S, True) = (S', b')"
      by simp
    from Cons.IH [OF this] True show ?thesis
      by (auto simp: set_fold_insert distinct_fold_insert)
  next
    case False
    with Cons.prems have "eval_rules cl rules (S, b) = (S', b')"
      by (auto simp: rule_matches_def matchesValue_iff split: option.splits)
    from Cons.IH [OF this] False show ?thesis by auto
  qed
qed

lemma MapRoles_matched:
  assumes "permutes_keys order" and "r \<in> set (m_rules m)" and "rule_matches cl r"
  shows "set (MapRoles order m cl) =
      (\<Union>r \<in> {r \<in> set (m_rules m). rule_matches cl r}. set (rule_Roles r))"
    and "distinct (MapRoles order m cl)"
proof -
  obtain S b where eval: "eval_rules cl (m_rules m) ([], False) = (S, b)" by fastforce
  from eval_rules_spec [OF this] assms(2,3) have "b" "distinct S"
    "set S = (\<Union>r \<in> {r \<in> set (m_rules m). rule_matches cl r}. set (rule_Roles r))" by auto
  moreover have "m_rules m \<noteq> []" using assms(2) by auto
  ultimately show "set (MapRoles order m cl) =
      (\<Union>r \<in> {r \<in> set (m_rules m). rule_matches cl r}. set (rule_Roles r))"
    and "distinct (MapRoles order m cl)"
    using assms(1) eval by (simp_all add: MapRoles_def permutes_keys_def)
qed

lemma MapRoles_unmatched:
  assumes "\<forall>r \<in> set (m_rules m). \<not> rule_matches cl r"
  shows "MapRoles order m cl = m_defaultRoles m"
proof -
  obtain S b where eval: "eval_rules cl (m_rules m) ([], False) = (S, b)" by fastforce
  from eval_rules_spec [OF this] assms show ?thesis by (simp add: MapRoles_def eval)
qed

section \<open>Properties\<close>

text \<open>
  C13. The roles of a user are exactly the roles of all rules whose value is among the
  strings of their claim, without repetition and whatever order the map is walked in; the
  default roles are given only to a user no rule matches.
\<close>

theorem MapRoles_spec:
  assumes "permutes_keys order"
  shows "if \<exists>r \<in> set (m_rules m). rule_matches cl r
    then set (MapRoles order m cl) = {x. \<exists>r \<in> set (m_rules m). rule_matches cl r \<and> x \<in> set (rule_Roles r)}
      \<and> distinct (MapRoles order m cl)
    else MapRoles order m cl = m_defaultRoles m"
  using MapRoles_matched [OF assms] MapRoles_unmatched [of m cl order] by auto

definition demo_rules :: "RBACRule list" where
  "demo_rules =
     [\<lparr>rule_Claim = ''groups'', rule_Value = ''ops'', rule_Roles = [''os:reader'', ''os:operator'']\<rparr>,
      \<lparr>rule_Claim = ''groups'', rule_Value = ''admins'', rule_Roles = [''os:admin'', ''os:reader'']\<rparr>]"

definition demo_claims :: "string list \<Rightarrow> claims" where
  "demo_claims groups = [''groups'' \<mapsto> Decoded (JArr (map JStr groups))]"

lemma permutes_id: "permutes_keys id" "permutes_keys rev"
  by (simp_all add: permutes_keys_def)

theorem MapRoles_spec_witness:
  "set (MapRoles rev (NewMapper demo_rules [''os:none'']) (demo_claims [''ops'', ''admins''])) =
     {''os:reader'', ''os:operator'', ''os:admin''} \<and>
   MapRoles rev (NewMapper demo_rules [''os:none'']) (demo_claims [''guests'']) = [''os:none'']"
proof -
  have m: "\<exists>r \<in> set demo_rules. rule_matches (demo_claims [''ops'', ''admins'']) r"
    "{x. \<exists>r \<in> set demo_rules. rule_matches (demo_claims [''ops'', ''admins'']) r \<and> x \<in> set (rule_Roles r)} =
      {''os:reader'', ''os:operator'', ''os:admin''}"
    "\<not> (\<exists>r \<in> set demo_rules. rule_matches (demo_claims [''guests'']) r)"
    by (auto simp: demo_rules_def demo_claims_def rule_matches_def)
  show ?thesis
    using MapRoles_spec [OF permutes_id(2), of "NewMapper demo_rules [''os:none'']" "demo_claims [''ops'', ''admins'']"]
      MapRoles_spec [OF permutes_id(2), of "NewMapper demo_rules [''os:none'']" "demo_claims [''guests'']"] m
    by (simp add: NewMapper_def)
qed

text \<open>
  A rule is nothing to a user it does not match: adding such rules to a mapper leaves
  the roles of that user as they were, also when it turns a mapper without rules into one
  with rules.
\<close>

theorem MapRoles_least_privilege:
  assumes "permutes_keys order" and "\<forall>r \<in> set extra. \<not> rule_matches cl r"
  shows "set (MapRoles order (NewMapper (rules @ extra) defaults) cl) =
    set (MapRoles order (NewMapper rules defaults) cl)"
proof (cases "\<exists>r \<in> set rules. rule_matches cl r")
  case True
  then obtain r where "r \<in> set rules" "rule_matches cl r" by blast
  then have "set (MapRoles order (NewMapper rules defaults) cl) =
      (\<Union>r \<in> {r \<in> set rules. rule_matches cl r}. set (rule_Roles r))"
    "set (MapRoles order (NewMapper (rules @ extra) defaults) cl) =
      (\<Union>r \<in> {r \<in> set (rules @ extra). rule_matches cl r}. set (rule_Roles r))"
    using MapRoles_matched(1) [OF assms(1), of r "NewMapper rules defaults" cl]
      MapRoles_matched(1) [OF assms(1), of r "NewMapper (rules @ extra) defaults" cl]
    by (simp_all add: NewMapper_def)
  then show ?thesis using assms(2) by auto
next
  case False
  have "MapRoles order (NewMapper rs defaults) cl = defaults"
    if "\<forall>r \<in> set rs. \<not> rule_matches cl r" for rs
    using MapRoles_unmatched [of "NewMapper rs defaults" cl order] that by (simp add: NewMapper_def)
  moreover have "\<forall>r \<in> set (rules @ extra). \<not> rule_matches cl r" using False assms(2) by auto
  ultimately show ?thesis using False by simp
qed

theorem MapRoles_least_privilege_witness:
  "set (MapRoles id (NewMapper ([] @ demo_rules) [''os:none'']) (demo_claims [''guests''])) =
   set (MapRoles id (NewMapper [] [''os:none'']) (demo_claims [''guests'']))"
  by (rule MapRoles_least_privilege [OF permutes_id(1)])
    (auto simp: demo_rules_def demo_claims_def rule_matches_def)

end
