(* ===== verification/Encoding.thy ===== *)
theory Encoding
  imports GoStrings
begin

text \<open>
  The text encodings of the program: \<^verbatim>\<open>encoding/base64\<close> in its three variants (one alphabet
  and one padding rule each) and hexadecimal, with the round trips the token, credential
  and session code relies on.
\<close>

section \<open>Base 64\<close>

definition std_alphabet :: string where
  "std_alphabet = ''ABCDEFGHIJKLMNOPQRSTUVWXYZabcdefghijklmnopqrstuvwxyz0123456789+/''"

definition url_alphabet :: string where
  "url_alphabet = ''ABCDEFGHIJKLMNOPQRSTUVWXYZabcdefghijklmnopqrstuvwxyz0123456789-_''"

abbreviation byte_val :: "char \<Rightarrow> nat" where "byte_val \<equiv> of_char"

fun encode64 :: "string \<Rightarrow> bool \<Rightarrow> string \<Rightarrow> string" where
  "encode64 a pad (x # y # z # r) =
     (let n = byte_val x * 65536 + byte_val y * 256 + byte_val z in
      a ! (n div 262144) # a ! (n div 4096 mod 64) # a ! (n div 64 mod 64) # a ! (n mod 64)
        # encode64 a pad r)"
| "encode64 a pad [x, y] =
     (let n = (byte_val x * 256 + byte_val y) * 4 in
      [a ! (n div 4096), a ! (n div 64 mod 64), a ! (n mod 64)] @ (if pad then ''='' else []))"
| "encode64 a pad [x] =
     (let n = byte_val x * 16 in [a ! (n div 64), a ! (n mod 64)] @ (if pad then ''=='' else []))"
| "encode64 a pad [] = []"

definition sextet :: "string \<Rightarrow> char \<Rightarrow> nat option" where
  "sextet a c = (if c \<in> set a then Some (length (takeWhile (\<lambda>x. x \<noteq> c) a)) else None)"

text \<open>
  The bytes of 2, 3 and 4 symbols. The decoder is not strict: the low bits of a last
  symbol that no byte takes are ignored.
\<close>

definition bytes2 :: "string \<Rightarrow> char \<Rightarrow> char \<Rightarrow> string option" where
  "bytes2 a c1 c2 =
     (case (sextet a c1, sextet a c2) of
        (Some v1, Some v2) \<Rightarrow> Some [char_of ((v1 * 64 + v2) div 16)]
      | _ \<Rightarrow> None)"

definition bytes3 :: "string \<Rightarrow> char \<Rightarrow> char \<Rightarrow> char \<Rightarrow> string option" where
  "bytes3 a c1 c2 c3 =
     (case (sextet a c1, sextet a c2, sextet a c3) of
        (Some v1, Some v2, Some v3) \<Rightarrow>
          (let n = (v1 * 4096 + v2 * 64 + v3) div 4 in Some [char_of (n div 256), char_of (n mod 256)])
      | _ \<Rightarrow> None)"

definition bytes4 :: "string \<Rightarrow> char \<Rightarrow> char \<Rightarrow> char \<Rightarrow> char \<Rightarrow> string option" where
  "bytes4 a c1 c2 c3 c4 =
     (case (sextet a c1, sextet a c2, sextet a c3, sextet a c4) of
        (Some v1, Some v2, Some v3, Some v4) \<Rightarrow>
          (let n = v1 * 262144 + v2 * 4096 + v3 * 64 + v4
           in Some [char_of (n div 65536), char_of (n div 256 mod 256), char_of (n mod 256)])
      | _ \<Rightarrow> None)"

fun decode_quanta :: "string \<Rightarrow> bool \<Rightarrow> string \<Rightarrow> string option" where
  "decode_quanta a pad [] = Some []"
| "decode_quanta a pad [c1] = None"
| "decode_quanta a pad [c1, c2] = (if pad then None else bytes2 a c1 c2)"
| "decode_quanta a pad [c1, c2, c3] = (if pad then None else bytes3 a c1 c2 c3)"
| "decode_quanta a pad (c1 # c2 # c3 # c4 # r) =
     (if pad \<and> r = [] \<and> c3 = CHR ''='' \<and> c4 = CHR ''='' then bytes2 a c1 c2
      else if pad \<and> r = [] \<and> c4 = CHR ''='' then bytes3 a c1 c2 c3
      else case bytes4 a c1 c2 c3 c4 of
        None \<Rightarrow> None
      | Some b \<Rightarrow> map_option ((@) b) (decode_quanta a pad r))"

text \<open>\<^verbatim>\<open>DecodeString\<close> skips carriage returns and line feeds wherever they are.\<close>

definition decode64 :: "string \<Rightarrow> bool \<Rightarrow> string \<Rightarrow> string option" where
  "decode64 a pad s = decode_quanta a pad (filter (\<lambda>c. c \<noteq> CHR 0x0A \<and> c \<noteq> CHR 0x0D) s)"

definition StdEncoding_Encode :: "string \<Rightarrow> string" where
  "StdEncoding_Encode = encode64 std_alphabet True"

definition StdEncoding_Decode :: "string \<Rightarrow> string option" where
  "StdEncoding_Decode = decode64 std_alphabet True"

definition URLEncoding_Encode :: "string \<Rightarrow> string" where
  "URLEncoding_Encode = encode64 url_alphabet True"

definition RawURLEncoding_Encode :: "string \<Rightarrow> string" where
  "RawURLEncoding_Encode = encode64 url_alphabet False"

definition RawURLEncoding_Decode :: "string \<Rightarrow> string option" where
  "RawURLEncoding_Decode = decode64 url_alphabet False"

lemma byte_val_less [simp]: "byte_val c < 256"
proof -
  have "byte_val c = byte_val (char_of (byte_val c))" by simp
  also have "\<dots> = byte_val c mod 256" by (simp only: of_char_of)
  finally show ?thesis by (metis mod_less_divisor zero_less_numeral)
qed

lemma split3:
  assumes "y < 256" and "z < 256" and "(n::nat) = x * 65536 + y * 256 + z"
  shows "n div 65536 = x" "n div 256 mod 256 = y" "n mod 256 = z"
proof -
  define k where "k = x * 256 + y"
  have n: "n = k * 256 + z" using assms(3) by (simp add: k_def)
  have "n div 256 = k" "n mod 256 = z" using assms(2) by (simp_all add: n)
  then have q: "n div 256 = x * 256 + y" "n mod 256 = z" by (simp_all add: k_def)
  have "n div 65536 = n div 256 div 256" by (simp add: div_mult2_eq [symmetric])
  with q assms(1) show "n div 65536 = x" "n div 256 mod 256 = y" "n mod 256 = z" by simp_all
qed

lemma sextets2: "(n :: nat) div 64 * 64 + n mod 64 = n"
  by (rule div_mult_mod_eq)

lemma sextets3: "(n :: nat) div 4096 * 4096 + n div 64 mod 64 * 64 + n mod 64 = n"
proof -
  have "n div 4096 * 64 + n div 64 mod 64 = n div 64"
    using sextets2 [of "n div 64"] by (simp add: div_mult2_eq [symmetric])
  with sextets2 [of n] show ?thesis by linarith
qed

lemma sextets4:
  "(n :: nat) div 262144 * 262144 + n div 4096 mod 64 * 4096 + n div 64 mod 64 * 64 + n mod 64 = n"
proof -
  have "n div 262144 * 4096 + n div 4096 mod 64 * 64 + n div 64 mod 64 = n div 64"
    using sextets3 [of "n div 64"] by (simp add: div_mult2_eq [symmetric])
  with sextets2 [of n] show ?thesis by linarith
qed

lemma takeWhile_until: "y \<notin> set xs \<Longrightarrow> takeWhile (\<lambda>x. x \<noteq> y) (xs @ y # ys) = xs"
  by (induction xs) auto

lemma sextet_bounds:
  "x < 256 \<Longrightarrow> x * 16 div 64 < (64::nat)"
  "x < 256 \<Longrightarrow> y < 256 \<Longrightarrow> (x * 256 + y) * 4 div 4096 < (64::nat)"
  "x < 256 \<Longrightarrow> y < 256 \<Longrightarrow> z < 256 \<Longrightarrow> (x * 65536 + y * 256 + z) div 262144 < (64::nat)"
  by (rule less_mult_imp_div_less, simp)+

lemma char_of_low [simp]: "char_of (256 * k + byte_val y) = y"
proof -
  have "(256 * k + byte_val y) mod 256 = byte_val y" by simp
  then show ?thesis using char_of_mod_256 [of "256 * k + byte_val y"] by simp
qed

text \<open>What an alphabet must be for decoding to undo encoding, under either padding rule.\<close>

locale base64 =
  fixes alphabet :: string
  assumes length_alphabet: "length alphabet = 64"
    and distinct_alphabet: "distinct alphabet"
    and no_pad: "CHR ''='' \<notin> set alphabet"
    and no_newline: "CHR 0x0A \<notin> set alphabet" "CHR 0x0D \<notin> set alphabet"
begin

lemma sextet_nth: "i < 64 \<Longrightarrow> sextet alphabet (alphabet ! i) = Some i"
proof -
  assume i: "i < 64"
  have split: "alphabet = take i alphabet @ alphabet ! i # drop (Suc i) alphabet"
    using i length_alphabet by (simp add: id_take_nth_drop)
  have "alphabet ! i \<notin> set (take i alphabet)"
    using distinct_alphabet by (subst (asm) split) simp
  then have "takeWhile (\<lambda>x. x \<noteq> alphabet ! i) (take i alphabet @ alphabet ! i # drop (Suc i) alphabet) = take i alphabet"
    by (rule takeWhile_until)
  then have "takeWhile (\<lambda>x. x \<noteq> alphabet ! i) alphabet = take i alphabet"
    by (simp only: split [symmetric])
  with i length_alphabet show ?thesis by (simp add: sextet_def)
qed

lemma bytes2_encode:
  "bytes2 alphabet (alphabet ! (byte_val x * 16 div 64)) (alphabet ! (byte_val x * 16 mod 64)) = Some [x]"
proof -
  have "byte_val x * 16 div 64 < 64" by (rule sextet_bounds) (rule byte_val_less)+
  then show ?thesis using sextets2 [of "byte_val x * 16"] by (simp add: bytes2_def sextet_nth)
qed

lemma bytes3_encode:
  fixes n :: nat
  assumes "n = (byte_val x * 256 + byte_val y) * 4"
  shows "bytes3 alphabet (alphabet ! (n div 4096)) (alphabet ! (n div 64 mod 64)) (alphabet ! (n mod 64))
    = Some [x, y]"
proof -
  have "n div 4096 < 64" unfolding assms by (rule sextet_bounds) (rule byte_val_less)+
  then show ?thesis using sextets3 [of n] assms by (simp add: bytes3_def sextet_nth Let_def)
qed

lemma bytes4_encode:
  fixes n :: nat
  assumes "n = byte_val x * 65536 + byte_val y * 256 + byte_val z"
  shows "bytes4 alphabet (alphabet ! (n div 262144)) (alphabet ! (n div 4096 mod 64))
    (alphabet ! (n div 64 mod 64)) (alphabet ! (n mod 64)) = Some [x, y, z]"
proof -
  have "n div 262144 < 64" unfolding assms by (rule sextet_bounds) (rule byte_val_less)+
  moreover note n = split3 [OF byte_val_less byte_val_less assms]
  moreover have "char_of n = z" using n(3) char_of_mod_256 [of n] by simp
  moreover have "char_of (n div 256) = y" using n(2) char_of_mod_256 [of "n div 256"] by simp
  ultimately show ?thesis
    using sextets4 [of n]
    by (simp add: bytes4_def sextet_nth Let_def)
qed

lemma nth_not_pad: "i < 64 \<Longrightarrow> alphabet ! i \<noteq> CHR ''=''"
  using no_pad length_alphabet by (metis nth_mem)

lemma decode_quanta_encode: "decode_quanta alphabet pad (encode64 alphabet pad s) = Some s"
proof (rule encode64.induct [where P = "\<lambda>_ pad s. decode_quanta alphabet pad (encode64 alphabet pad s) = Some s"])
  fix a pad x y z r
  assume "\<And>n. n = byte_val x * 65536 + byte_val y * 256 + byte_val z \<Longrightarrow>
    decode_quanta alphabet pad (encode64 alphabet pad r) = Some r"
  then show "decode_quanta alphabet pad (encode64 alphabet pad (x # y # z # r)) = Some (x # y # z # r)"
    using bytes4_encode [OF refl, of x y z] by (simp add: Let_def nth_not_pad)
next
  fix a pad x y
  show "decode_quanta alphabet pad (encode64 alphabet pad [x, y]) = Some [x, y]"
    using bytes3_encode [OF refl, of x y] by (simp add: Let_def nth_not_pad)
next
  fix a pad x
  show "decode_quanta alphabet pad (encode64 alphabet pad [x]) = Some [x]"
    using bytes2_encode [of x] by (simp add: Let_def)
qed simp

lemma encode64_chars: "set (encode64 alphabet pad s) \<subseteq> insert (CHR ''='') (set alphabet)"
proof (rule encode64.induct [where P = "\<lambda>_ pad s. set (encode64 alphabet pad s) \<subseteq> insert (CHR ''='') (set alphabet)"])
  fix a pad x y z r
  assume "\<And>n. n = byte_val x * 65536 + byte_val y * 256 + byte_val z \<Longrightarrow>
    set (encode64 alphabet pad r) \<subseteq> insert (CHR ''='') (set alphabet)"
  moreover have "(byte_val x * 65536 + byte_val y * 256 + byte_val z) div 262144 < 64" by (rule sextet_bounds) (rule byte_val_less)+
  ultimately show "set (encode64 alphabet pad (x # y # z # r)) \<subseteq> insert (CHR ''='') (set alphabet)"
    by (auto simp: Let_def length_alphabet)
next
  fix a pad x y
  have "(byte_val x * 256 + byte_val y) * 4 div 4096 < 64" by (rule sextet_bounds) (rule byte_val_less)+
  then show "set (encode64 alphabet pad [x, y]) \<subseteq> insert (CHR ''='') (set alphabet)"
    by (auto simp: Let_def length_alphabet)
next
  fix a pad x
  have "byte_val x * 16 div 64 < 64" by (rule sextet_bounds) (rule byte_val_less)+
  then show "set (encode64 alphabet pad [x]) \<subseteq> insert (CHR ''='') (set alphabet)"
    by (auto simp: Let_def length_alphabet)
qed simp

lemma decode_encode: "decode64 alphabet pad (encode64 alphabet pad s) = Some s"
proof -
  have "filter (\<lambda>c. c \<noteq> CHR 0x0A \<and> c \<noteq> CHR 0x0D) (encode64 alphabet pad s) = encode64 alphabet pad s"
    using encode64_chars [of pad s] no_newline by (intro filter_True) auto
  then show ?thesis by (simp add: decode64_def decode_quanta_encode)
qed

lemma encode_inj: "encode64 alphabet pad s = encode64 alphabet pad t \<longleftrightarrow> s = t"
  by (metis decode_encode option.inject)

end

lemma alphabet_codes:
  "map byte_val std_alphabet = [65..<91] @ [97..<123] @ [48..<58] @ [43, 47]"
  "map byte_val url_alphabet = [65..<91] @ [97..<123] @ [48..<58] @ [45, 95]"
  by (simp_all add: std_alphabet_def url_alphabet_def)

lemma distinct_codes: "distinct (map byte_val a) \<Longrightarrow> distinct a"
  by (simp add: distinct_map)

interpretation std64: base64 std_alphabet
proof
  show "distinct std_alphabet" by (rule distinct_codes) (simp add: alphabet_codes)
qed (simp_all add: std_alphabet_def)

interpretation url64: base64 url_alphabet
proof
  show "distinct url_alphabet" by (rule distinct_codes) (simp add: alphabet_codes)
qed (simp_all add: url_alphabet_def)

section \<open>Hexadecimal\<close>

definition hex_digit :: "nat \<Rightarrow> char" where
  "hex_digit n = ''0123456789abcdef'' ! n"

definition hex_encode :: "string \<Rightarrow> string" where
  "hex_encode s = concat (map (\<lambda>c. [hex_digit (byte_val c div 16), hex_digit (byte_val c mod 16)]) s)"

lemma length_hex_encode [simp]: "length (hex_encode s) = 2 * length s"
  by (induction s) (simp_all add: hex_encode_def)

lemma hex_encode_Cons:
  "hex_encode (c # s) = hex_digit (byte_val c div 16) # hex_digit (byte_val c mod 16) # hex_encode s"
  by (simp add: hex_encode_def)

lemma distinct_hex: "distinct ''0123456789abcdef''"
  by (rule distinct_codes) simp

lemma hex_digit_inj: "m < 16 \<Longrightarrow> n < 16 \<Longrightarrow> hex_digit m = hex_digit n \<longleftrightarrow> m = n"
  unfolding hex_digit_def by (rule nth_eq_iff_index_eq [OF distinct_hex]) simp_all

lemma hex_encode_inj: "hex_encode s = hex_encode t \<longleftrightarrow> s = t"
proof (induction s arbitrary: t)
  case Nil
  then show ?case by (cases t) (simp_all add: hex_encode_def)
next
  case (Cons c s)
  show ?case
  proof (cases t)
    case Nil
    then show ?thesis by (simp add: hex_encode_def)
  next
    case t: (Cons d t')
    have "byte_val c div 16 < 16" "byte_val d div 16 < 16"
      using byte_val_less [of c] byte_val_less [of d] by (auto intro: less_mult_imp_div_less)
    then have "hex_encode (c # s) = hex_encode t \<longleftrightarrow>
        byte_val c div 16 = byte_val d div 16 \<and> byte_val c mod 16 = byte_val d mod 16 \<and> s = t'"
      by (simp add: t hex_encode_Cons hex_digit_inj Cons.IH)
    also have "\<dots> \<longleftrightarrow> byte_val c = byte_val d \<and> s = t'"
      using div_mult_mod_eq [of "byte_val c" 16] div_mult_mod_eq [of "byte_val d" 16] by metis
    finally show ?thesis by (simp add: t)
  qed
qed

end
