(* ===== verification/Anomaly.thy ===== *)
theory Anomaly
  imports Encoding
begin

text \<open>
  \<^verbatim>\<open>pkg/anomaly\<close>: counting authentication failures per address and uses per token. The
  clock of each call and the SHA-256 of the library are arguments.
\<close>

section \<open>The detector\<close>

record anomaly_config =
  MaxFailuresPerIP :: int
  Window :: duration
  TokenReplayDetection :: bool
  MaxTokenUses :: int

definition DefaultConfig :: anomaly_config where
  "DefaultConfig =
     \<lparr>MaxFailuresPerIP = 10, Window = 5 * minute, TokenReplayDetection = True, MaxTokenUses = 3\<rparr>"

record ip_entry =
  failures :: int
  windowEnd :: time

record token_entry =
  uses :: int
  firstSeen :: time

record detector =
  an_cfg :: anomaly_config
  an_ips :: "string \<Rightarrow> ip_entry option"
  an_tokens :: "string \<Rightarrow> token_entry option"

definition an_New :: "anomaly_config \<Rightarrow> detector" where
  "an_New cfg = \<lparr>an_cfg = cfg, an_ips = Map.empty, an_tokens = Map.empty\<rparr>"

definition tokenHash :: "(string \<Rightarrow> string) \<Rightarrow> string \<Rightarrow> string" where
  "tokenHash sha token = hex_encode (take 16 (sha token))"

definition RecordFailure :: "detector \<Rightarrow> string \<Rightarrow> time \<Rightarrow> detector \<times> bool" where
  "RecordFailure d ip now =
     (let fresh = (d\<lparr>an_ips := (an_ips d)(ip \<mapsto> \<lparr>failures = 1, windowEnd = now + Window (an_cfg d)\<rparr>)\<rparr>, False)
      in case an_ips d ip of
        None \<Rightarrow> fresh
      | Some e \<Rightarrow>
          if after now (windowEnd e) then fresh
          else let n = failures e + 1
            in (d\<lparr>an_ips := (an_ips d)(ip \<mapsto> e\<lparr>failures := n\<rparr>)\<rparr>, MaxFailuresPerIP (an_cfg d) \<le> n))"

definition RecordTokenUse :: "(string \<Rightarrow> string) \<Rightarrow> detector \<Rightarrow> string \<Rightarrow> time \<Rightarrow> detector \<times> bool" where
  "RecordTokenUse sha d rawToken now =
     (if \<not> TokenReplayDetection (an_cfg d) then (d, False)
      else let h = tokenHash sha rawToken in
        case an_tokens d h of
          None \<Rightarrow> (d\<lparr>an_tokens := (an_tokens d)(h \<mapsto> \<lparr>uses = 1, firstSeen = now\<rparr>)\<rparr>, False)
        | Some e \<Rightarrow>
            (let n = uses e + 1
             in (d\<lparr>an_tokens := (an_tokens d)(h \<mapsto> e\<lparr>uses := n\<rparr>)\<rparr>, MaxTokenUses (an_cfg d) \<le> n)))"

definition an_Cleanup :: "detector \<Rightarrow> time \<Rightarrow> detector" where
  "an_Cleanup d now =
     d\<lparr>an_ips := (\<lambda>ip. case an_ips d ip of
          None \<Rightarrow> None | Some e \<Rightarrow> if after now (windowEnd e) then None else Some e),
       an_tokens := (\<lambda>h. case an_tokens d h of
          None \<Rightarrow> None | Some e \<Rightarrow> if before (firstSeen e) (now - 24 * hour) then None else Some e)\<rparr>"

section \<open>Runs\<close>

datatype an_op = Failure string time | Sweep time

fun an_time :: "an_op \<Rightarrow> time" where
  "an_time (Failure ip t) = t"
| "an_time (Sweep t) = t"

text \<open>The failures of a run with the alert each one raised.\<close>

fun an_run :: "detector \<Rightarrow> an_op list \<Rightarrow> detector \<times> (string \<times> time \<times> bool) list" where
  "an_run d [] = (d, [])"
| "an_run d (Failure ip t # ops) =
     (let (d1, alert) = RecordFailure d ip t; (d2, as) = an_run d1 ops in (d2, (ip, t, alert) # as))"
| "an_run d (Sweep t # ops) = an_run (an_Cleanup d t) ops"

fun an_clock :: "time \<Rightarrow> an_op list \<Rightarrow> bool" where
  "an_clock t [] \<longleftrightarrow> True"
| "an_clock t (op # ops) \<longleftrightarrow> t \<le> an_time op \<and> an_clock (an_time op) ops"

definition failures_between :: "(string \<times> time) list \<Rightarrow> string \<Rightarrow> time \<Rightarrow> time \<Rightarrow> nat" where
  "failures_between hist ip a b = length (filter (\<lambda>(i, t). i = ip \<and> a \<le> t \<and> t \<le> b) hist)"

text \<open>An entry counts at most the failures since its window began.\<close>

definition an_inv :: "detector \<Rightarrow> (string \<times> time) list \<Rightarrow> time \<Rightarrow> bool" where
  "an_inv d hist now \<longleftrightarrow>
     (\<forall>ip e. an_ips d ip = Some e \<longrightarrow>
        failures e \<le> int (failures_between hist ip (windowEnd e - Window (an_cfg d)) now))"

lemma RecordFailure_cfg [simp]: "an_cfg (fst (RecordFailure d ip t)) = an_cfg d"
  by (simp add: RecordFailure_def Let_def split: option.split)

lemma an_Cleanup_cfg [simp]: "an_cfg (an_Cleanup d t) = an_cfg d"
  by (simp add: an_Cleanup_def)

lemma failures_between_mono: "b \<le> b' \<Longrightarrow> failures_between hist ip a b \<le> failures_between hist ip a b'"
  unfolding failures_between_def by (rule length_filter_mono) auto

lemma failures_between_snoc:
  "failures_between (hist @ [(ip', t)]) ip a b =
   failures_between hist ip a b + (if ip' = ip \<and> a \<le> t \<and> t \<le> b then 1 else 0)"
  by (simp add: failures_between_def)

lemma an_inv_later:
  assumes "an_inv d hist T" and "T \<le> T'"
  shows "an_inv d hist T'"
  unfolding an_inv_def
proof (intro allI impI)
  fix ip e assume "an_ips d ip = Some e"
  with assms(1) have "failures e \<le> int (failures_between hist ip (windowEnd e - Window (an_cfg d)) T)"
    by (simp add: an_inv_def)
  with failures_between_mono [OF assms(2), of hist ip "windowEnd e - Window (an_cfg d)"]
  show "failures e \<le> int (failures_between hist ip (windowEnd e - Window (an_cfg d)) T')" by linarith
qed

lemma an_inv_Cleanup: "an_inv d hist T \<Longrightarrow> an_inv (an_Cleanup d t) hist T"
  by (simp add: an_inv_def an_Cleanup_def split: option.splits)

lemma RecordFailure_cases:
  obtains (fresh) "RecordFailure d ip t =
      (d\<lparr>an_ips := (an_ips d)(ip \<mapsto> \<lparr>failures = 1, windowEnd = t + Window (an_cfg d)\<rparr>)\<rparr>, False)"
  | (counted) e where "an_ips d ip = Some e" "t \<le> windowEnd e"
      "RecordFailure d ip t = (d\<lparr>an_ips := (an_ips d)(ip \<mapsto> e\<lparr>failures := failures e + 1\<rparr>)\<rparr>,
         MaxFailuresPerIP (an_cfg d) \<le> failures e + 1)"
proof (cases "an_ips d ip")
  case None
  then show thesis using fresh by (simp add: RecordFailure_def)
next
  case (Some e)
  then show thesis using fresh counted [of e]
    by (cases "t \<le> windowEnd e") (simp_all add: RecordFailure_def Let_def)
qed

lemma an_inv_Failure:
  assumes "an_inv d hist t" and "0 \<le> Window (an_cfg d)" and "RecordFailure d ip t = (d', alert)"
    and started: "\<forall>ip e. an_ips d ip = Some e \<longrightarrow> windowEnd e - Window (an_cfg d) \<le> t"
  shows "an_inv d' (hist @ [(ip, t)]) t"
    and "\<forall>ip e. an_ips d' ip = Some e \<longrightarrow> windowEnd e - Window (an_cfg d') \<le> t"
    and "alert \<Longrightarrow> MaxFailuresPerIP (an_cfg d) \<le>
      int (failures_between (hist @ [(ip, t)]) ip (t - Window (an_cfg d)) t)"
proof -
  let ?W = "Window (an_cfg d)"
  have others: "failures e \<le> int (failures_between (hist @ [(ip, t)]) i (windowEnd e - ?W) t)"
    if "an_ips d i = Some e" for i e
  proof -
    have "failures e \<le> int (failures_between hist i (windowEnd e - ?W) t)"
      using assms(1) that by (simp add: an_inv_def)
    also have "\<dots> \<le> int (failures_between (hist @ [(ip, t)]) i (windowEnd e - ?W) t)"
      by (simp add: failures_between_snoc)
    finally show ?thesis .
  qed
  have "an_inv d' (hist @ [(ip, t)]) t \<and>
      (\<forall>ip e. an_ips d' ip = Some e \<longrightarrow> windowEnd e - Window (an_cfg d') \<le> t) \<and>
      (alert \<longrightarrow> MaxFailuresPerIP (an_cfg d) \<le>
        int (failures_between (hist @ [(ip, t)]) ip (t - ?W) t))"
  proof (cases rule: RecordFailure_cases [of d ip t])
    case fresh
    with assms(3) have d': "d' = d\<lparr>an_ips := (an_ips d)(ip \<mapsto> \<lparr>failures = 1, windowEnd = t + ?W\<rparr>)\<rparr>"
      and "\<not> alert" by simp_all
    moreover have "1 \<le> failures_between (hist @ [(ip, t)]) ip t t"
      by (simp add: failures_between_snoc)
    then have "an_inv d' (hist @ [(ip, t)]) t"
      unfolding an_inv_def d' using others by simp
    ultimately show ?thesis using started assms(2) by simp
  next
    case (counted e)
    let ?e = "e\<lparr>failures := failures e + 1\<rparr>"
    from counted(3) assms(3) have d': "d' = d\<lparr>an_ips := (an_ips d)(ip \<mapsto> ?e)\<rparr>"
      and alert: "alert \<longleftrightarrow> MaxFailuresPerIP (an_cfg d) \<le> failures e + 1" by simp_all
    have e: "failures e + 1 \<le> int (failures_between (hist @ [(ip, t)]) ip (windowEnd e - ?W) t)"
      using assms(1) counted(1) started by (auto simp: an_inv_def failures_between_snoc)
    moreover have "failures_between (hist @ [(ip, t)]) ip (windowEnd e - ?W) t
        \<le> failures_between (hist @ [(ip, t)]) ip (t - ?W) t"
      unfolding failures_between_def using counted(2) by (intro length_filter_mono) auto
    moreover have "an_inv d' (hist @ [(ip, t)]) t"
      unfolding an_inv_def d' using others e by simp
    ultimately show ?thesis using started counted(1) alert d' by simp
  qed
  then show "an_inv d' (hist @ [(ip, t)]) t"
    and "\<forall>ip e. an_ips d' ip = Some e \<longrightarrow> windowEnd e - Window (an_cfg d') \<le> t"
    and "alert \<Longrightarrow> MaxFailuresPerIP (an_cfg d) \<le>
      int (failures_between (hist @ [(ip, t)]) ip (t - Window (an_cfg d)) t)" by simp_all
qed

abbreviation events :: "(string \<times> time \<times> bool) list \<Rightarrow> (string \<times> time) list" where
  "events \<equiv> map (\<lambda>(ip, t, a). (ip, t))"

lemma an_run_sound:
  assumes "an_inv d hist T" and "an_clock T ops" and "0 \<le> Window (an_cfg d)"
    and "\<forall>ip e. an_ips d ip = Some e \<longrightarrow> windowEnd e - Window (an_cfg d) \<le> T"
    and "snd (an_run d ops) = xs @ (ip, t, True) # ys"
  shows "MaxFailuresPerIP (an_cfg d) \<le>
    int (failures_between (hist @ events xs @ [(ip, t)]) ip (t - Window (an_cfg d)) t)"
  using assms
proof (induction d ops arbitrary: hist T xs rule: an_run.induct)
  case (2 d i s ops)
  obtain d1 alert where rec: "RecordFailure d i s = (d1, alert)" by fastforce
  have inv: "an_inv d hist s" using an_inv_later "2.prems"(1,2) by auto
  have started: "\<forall>ip e. an_ips d ip = Some e \<longrightarrow> windowEnd e - Window (an_cfg d) \<le> s"
    using "2.prems"(2,4) by fastforce
  note step = an_inv_Failure [OF inv "2.prems"(3) rec started]
  have cfg: "an_cfg d1 = an_cfg d" using RecordFailure_cfg [of d i s] rec by simp
  have run: "(i, s, alert) # snd (an_run d1 ops) = xs @ (ip, t, True) # ys"
    using "2.prems"(5) rec by (simp split: prod.splits)
  show ?case
  proof (cases xs)
    case Nil
    with run step(3) show ?thesis by simp
  next
    case (Cons x xs')
    with run have "snd (an_run d1 ops) = xs' @ (ip, t, True) # ys" "x = (i, s, alert)" by simp_all
    with "2.IH" [OF refl, of d1 alert "hist @ [(i, s)]" s xs'] rec step(1,2) "2.prems"(2,3) cfg Cons
    show ?thesis by simp
  qed
next
  case (3 d s ops)
  have "an_inv (an_Cleanup d s) hist s" using an_inv_Cleanup an_inv_later "3.prems"(1,2) by auto
  moreover have "\<forall>ip e. an_ips (an_Cleanup d s) ip = Some e \<longrightarrow> windowEnd e - Window (an_cfg d) \<le> s"
    using "3.prems"(2,4) by (fastforce simp: an_Cleanup_def split: option.splits if_splits)
  ultimately show ?case using "3.IH" [of hist s xs] "3.prems" by simp
qed simp

text \<open>A sweep forgets only windows that are over.\<close>

definition an_sim :: "detector \<Rightarrow> detector \<Rightarrow> time \<Rightarrow> bool" where
  "an_sim d d' now \<longleftrightarrow> an_cfg d = an_cfg d' \<and>
     (\<forall>ip. an_ips d ip = an_ips d' ip \<or>
        an_ips d ip = None \<and> (\<exists>e. an_ips d' ip = Some e \<and> windowEnd e < now))"

fun no_sweeps :: "an_op list \<Rightarrow> an_op list" where
  "no_sweeps [] = []"
| "no_sweeps (Failure ip t # ops) = Failure ip t # no_sweeps ops"
| "no_sweeps (Sweep t # ops) = no_sweeps ops"

lemma an_sim_Failure:
  assumes "an_sim d d' T" and "T \<le> t"
  shows "snd (RecordFailure d ip t) = snd (RecordFailure d' ip t) \<and>
    an_sim (fst (RecordFailure d ip t)) (fst (RecordFailure d' ip t)) t"
proof -
  have later: "an_sim d d' t" using assms by (fastforce simp: an_sim_def)
  then consider "an_ips d ip = an_ips d' ip"
    | e where "an_ips d ip = None" "an_ips d' ip = Some e" "windowEnd e < t"
    unfolding an_sim_def by blast
  then show ?thesis
  proof cases
    case 1
    with later show ?thesis
      by (cases "an_ips d' ip") (simp_all add: an_sim_def RecordFailure_def Let_def)
  next
    case 2
    with later show ?thesis by (simp add: an_sim_def RecordFailure_def Let_def)
  qed
qed

lemma an_sim_Cleanup:
  assumes "an_sim d d' T" and "T \<le> t"
  shows "an_sim (an_Cleanup d t) d' t"
  unfolding an_sim_def
proof (intro conjI allI)
  show "an_cfg (an_Cleanup d t) = an_cfg d'" using assms by (simp add: an_sim_def)
  fix ip
  from assms have "an_ips d ip = an_ips d' ip \<or>
      an_ips d ip = None \<and> (\<exists>e. an_ips d' ip = Some e \<and> windowEnd e < t)"
    by (fastforce simp: an_sim_def)
  then show "an_ips (an_Cleanup d t) ip = an_ips d' ip \<or>
      an_ips (an_Cleanup d t) ip = None \<and> (\<exists>e. an_ips d' ip = Some e \<and> windowEnd e < t)"
    by (cases "an_ips d' ip"; cases "an_ips d ip") (auto simp: an_Cleanup_def split: if_splits)
qed

lemma an_run_sweeps:
  "an_sim d d' T \<Longrightarrow> an_clock T ops \<Longrightarrow> snd (an_run d ops) = snd (an_run d' (no_sweeps ops))"
proof (induction ops arbitrary: d d' T)
  case (Cons op ops)
  show ?case
  proof (cases op)
    case (Failure ip t)
    note step = an_sim_Failure [OF Cons.prems(1), of t ip]
    obtain d1 a d1' a' where rec: "RecordFailure d ip t = (d1, a)" "RecordFailure d' ip t = (d1', a')"
      by fastforce
    with step Cons.prems(2) Failure have "a = a'" "an_sim d1 d1' t" by simp_all
    with Cons.IH [of d1 d1' t] Cons.prems(2) rec Failure show ?thesis
      by (cases "an_run d1 ops"; cases "an_run d1' (no_sweeps ops)") simp
  next
    case (Sweep t)
    with Cons.IH [OF an_sim_Cleanup [OF Cons.prems(1), of t]] Cons.prems(2) show ?thesis by simp
  qed
qed simp

section \<open>Properties\<close>

text \<open>
  An alert on failures is never a false one: when the detector raises it, the address
  has failed at least the configured number of times within the window that ends now,
  whatever other addresses did and whenever the detector was cleaned up.
\<close>

theorem failure_alert_sound:
  assumes "an_clock T ops" and "0 \<le> Window cfg"
    and "snd (an_run (an_New cfg) ops) = xs @ (ip, t, True) # ys"
  shows "MaxFailuresPerIP cfg \<le>
    int (failures_between (events xs @ [(ip, t)]) ip (t - Window cfg) t)"
  using an_run_sound [of "an_New cfg" "[]" T ops xs ip t ys] assms by (simp add: an_New_def an_inv_def)

text \<open>
  Cleaning up is invisible: however often expired entries are removed, the failures of
  every address raise the same alerts as if the detector had kept them all.
\<close>

theorem cleanup_invisible:
  assumes "an_clock T ops"
  shows "snd (an_run (an_New cfg) ops) = snd (an_run (an_New cfg) (no_sweeps ops))"
  by (rule an_run_sweeps [OF _ assms]) (simp add: an_sim_def)

definition demo_failures :: "an_op list" where
  "demo_failures = [Failure ''a'' 0, Failure ''b'' 1, Failure ''a'' 2, Sweep 20, Failure ''a'' 21, Failure ''a'' 22]"

definition demo_an_cfg :: anomaly_config where
  "demo_an_cfg = \<lparr>MaxFailuresPerIP = 2, Window = 10, TokenReplayDetection = True, MaxTokenUses = 3\<rparr>"

theorem failure_alert_sound_witness:
  "snd (an_run (an_New demo_an_cfg) demo_failures) =
     [(''a'', 0, False), (''b'', 1, False)] @ (''a'', 2, True) # [(''a'', 21, False), (''a'', 22, True)] \<and>
   2 \<le> int (failures_between (events [(''a'', 0, False), (''b'', 1, False)] @ [(''a'', 2)]) ''a'' (2 - 10) 2)"
proof -
  have run: "snd (an_run (an_New demo_an_cfg) demo_failures) =
      [(''a'', 0, False), (''b'', 1, False)] @ (''a'', 2, True) # [(''a'', 21, False), (''a'', 22, True)]"
    by (simp add: demo_failures_def demo_an_cfg_def an_New_def RecordFailure_def an_Cleanup_def)
  have "an_clock 0 demo_failures" by (simp add: demo_failures_def)
  from failure_alert_sound [OF this _ run] show ?thesis using run by (simp add: demo_an_cfg_def)
qed

theorem cleanup_invisible_witness:
  "snd (an_run (an_New demo_an_cfg) demo_failures) = snd (an_run (an_New demo_an_cfg) (no_sweeps demo_failures))"
  by (rule cleanup_invisible [of 0]) (simp add: demo_failures_def)

end
