(* ===== verification/AuditLog.thy ===== *)
theory AuditLog
  imports GoTime Encoding
begin

text \<open>
  \<^verbatim>\<open>pkg/audit\<close>: the events, the request identifiers and the logger with its listeners. The
  JSON encoder is a parameter that may fail; the listeners are functions on the state of
  whoever registered them.
\<close>

section \<open>Events\<close>

datatype EventType = EventCertIssued | EventAuthFailure | EventAuthSuccess | EventCertError | OtherEvent string

text \<open>A zero \<^verbatim>\<open>time.Time\<close> is \<open>None\<close>.\<close>

record event =
  Timestamp :: "time option"
  EType :: EventType
  Subject :: string
  Email :: string
  Issuer :: string
  ClientIP :: string
  Roles :: "string list"
  CertTTL :: string
  CertExpiry :: "time option"
  CertFingerprint :: string
  Error :: string
  Detail :: string
  RequestID :: string
  EventCategory :: string
  EventOutcome :: string
  EventAction :: string
  Severity :: string

definition blank_event :: "EventType \<Rightarrow> event" where
  "blank_event ty =
     \<lparr>Timestamp = None, EType = ty, Subject = [], Email = [], Issuer = [], ClientIP = [], Roles = [],
      CertTTL = [], CertExpiry = None, CertFingerprint = [], Error = [], Detail = [], RequestID = [],
      EventCategory = [], EventOutcome = [], EventAction = [], Severity = []\<rparr>"

text \<open>\<^verbatim>\<open>NewRequestID\<close> on the 16 random bytes, if there are any.\<close>

definition NewRequestID :: "string option \<Rightarrow> string" where
  "NewRequestID rand =
     (case rand of
        None \<Rightarrow> ''unknown''
      | Some b \<Rightarrow>
          join ''-'' [hex_encode (take 4 b), hex_encode (take 2 (drop 4 b)), hex_encode (take 2 (drop 6 b)),
            hex_encode (take 2 (drop 8 b)), hex_encode (drop 10 b)])"

fun SeverityForEvent :: "EventType \<Rightarrow> string" where
  "SeverityForEvent EventCertIssued = ''INFO''"
| "SeverityForEvent EventAuthSuccess = ''INFO''"
| "SeverityForEvent EventAuthFailure = ''WARN''"
| "SeverityForEvent EventCertError = ''WARN''"
| "SeverityForEvent (OtherEvent _) = ''INFO''"

section \<open>The logger\<close>

text \<open>
  Where the lines go: standard output for an empty path or a dash, else the file, which
  must open. \<open>None\<close> is the error of \<^verbatim>\<open>os.OpenFile\<close>.
\<close>

datatype destination = Stdout | File string

record 's logger =
  lg_dest :: destination
  lg_lines :: "string list"
  lg_listeners :: "(event \<Rightarrow> 's \<Rightarrow> 's) list"

definition NewLogger :: "(string \<Rightarrow> bool) \<Rightarrow> string \<Rightarrow> 's logger option" where
  "NewLogger opens path =
     (if path = [] \<or> path = ''-'' then Some \<lparr>lg_dest = Stdout, lg_lines = [], lg_listeners = []\<rparr>
      else if opens path then Some \<lparr>lg_dest = File path, lg_lines = [], lg_listeners = []\<rparr> else None)"

definition AddListener :: "(event \<Rightarrow> 's \<Rightarrow> 's) \<Rightarrow> 's logger \<Rightarrow> 's logger" where
  "AddListener fn l = l\<lparr>lg_listeners := lg_listeners l @ [fn]\<rparr>"

definition Log :: "(event \<Rightarrow> string option) \<Rightarrow> time \<Rightarrow> event \<Rightarrow> 's logger \<Rightarrow> 's \<Rightarrow> 's logger \<times> 's" where
  "Log marshal now ev l s =
     (let ev1 = (if Timestamp ev = None then ev\<lparr>Timestamp := Some now\<rparr> else ev) in
      case marshal ev1 of
        None \<Rightarrow> (l, s)
      | Some data \<Rightarrow>
          (l\<lparr>lg_lines := lg_lines l @ [data]\<rparr>, fold (\<lambda>fn. fn ev1) (lg_listeners l) s))"

section \<open>Request identifiers\<close>

lemma uuid_shape:
  assumes "length b = 16"
  shows "NewRequestID (Some b) = hex_encode (take 4 b) @ ''-'' @ hex_encode (take 2 (drop 4 b)) @ ''-''
    @ hex_encode (take 2 (drop 6 b)) @ ''-'' @ hex_encode (take 2 (drop 8 b)) @ ''-'' @ hex_encode (drop 10 b)"
  by (simp add: NewRequestID_def)

lemma append_eq_split: "length a = length c \<Longrightarrow> a @ x # b = c @ x # d \<longleftrightarrow> a = c \<and> b = d"
  by simp

text \<open>
  A request identifier has the 36 characters of a UUID and loses nothing of its random
  bytes, so two requests share one only when the random source repeats itself. It is no
  UUID of version 4, as the version digit is random like the others.
\<close>

theorem request_id_faithful:
  assumes "length b = 16" and "length b' = 16"
  shows "(NewRequestID (Some b) = NewRequestID (Some b') \<longleftrightarrow> b = b') \<and>
    length (NewRequestID (Some b)) = 36 \<and>
    NewRequestID (Some b) ! 14 = hex_digit (byte_val (b ! 6) div 16)"
proof -
  let ?g = "\<lambda>b. take 4 b @ take 2 (drop 4 b) @ take 2 (drop 6 b) @ take 2 (drop 8 b) @ drop 10 b"
  have glue: "?g b = b" for b :: string
  proof -
    have "take 2 (drop 8 b) @ drop 10 b = drop 8 b" using append_take_drop_id [of 2 "drop 8 b"] by simp
    moreover have "take 2 (drop 6 b) @ drop 8 b = drop 6 b" using append_take_drop_id [of 2 "drop 6 b"] by simp
    moreover have "take 2 (drop 4 b) @ drop 6 b = drop 4 b" using append_take_drop_id [of 2 "drop 4 b"] by simp
    ultimately show ?thesis by simp
  qed
  have "NewRequestID (Some b) = NewRequestID (Some b') \<longleftrightarrow>
      take 4 b = take 4 b' \<and> take 2 (drop 4 b) = take 2 (drop 4 b') \<and>
      take 2 (drop 6 b) = take 2 (drop 6 b') \<and> take 2 (drop 8 b) = take 2 (drop 8 b') \<and>
      drop 10 b = drop 10 b'"
    using assms by (simp add: uuid_shape append_eq_split hex_encode_inj)
  also have "\<dots> \<longleftrightarrow> b = b'"
    using glue [of b] glue [of b'] by metis
  finally have inj: "NewRequestID (Some b) = NewRequestID (Some b') \<longleftrightarrow> b = b'" .
  have "take 2 (drop 6 b) = b ! 6 # take 1 (drop 7 b)"
    using Cons_nth_drop_Suc [of 6 b, symmetric] assms(1) by (simp add: take_Cons')
  then have "NewRequestID (Some b) ! 14 = hex_digit (byte_val (b ! 6) div 16)"
    using assms(1) by (simp add: uuid_shape hex_encode_Cons nth_append)
  with inj assms(1) show ?thesis by (simp add: uuid_shape)
qed

theorem request_id_faithful_witness:
  "NewRequestID (Some (replicate 16 (CHR 0x00))) ! 14 = CHR ''0''"
  using request_id_faithful [of "replicate 16 (CHR 0x00)" "replicate 16 (CHR 0x00)"]
  by (simp add: hex_digit_def)

end
