(* ===== verification/Admin.thy ===== *)
theory Admin
  imports AuditLog
begin

text \<open>
  \<^verbatim>\<open>pkg/admin\<close>: the in-memory tracker of issued certificates and the append-only log, both
  fed by audit events. The specification of both is the history of events.
\<close>

section \<open>Fingerprints and records\<close>

text \<open>
  \<^verbatim>\<open>pem.Decode\<close> and \<^verbatim>\<open>x509.ParseCertificate\<close> are parameters: the first block of a PEM text,
  and the raw certificate in its bytes.
\<close>

datatype fingerprint_error = NoPEMBlock | BadCertificate

definition FingerprintFromPEM ::
  "(string \<Rightarrow> string option) \<Rightarrow> (string \<Rightarrow> string option) \<Rightarrow> (string \<Rightarrow> string) \<Rightarrow> string
     \<Rightarrow> fingerprint_error + string" where
  "FingerprintFromPEM pem x509 sha certPEM =
     (case pem certPEM of
        None \<Rightarrow> Inl NoPEMBlock
      | Some block \<Rightarrow>
          (case x509 block of None \<Rightarrow> Inl BadCertificate | Some raw \<Rightarrow> Inr (hex_encode (sha raw))))"

record CertRecord =
  cr_Subject :: string
  cr_Email :: string
  cr_IssuedAt :: "time option"
  cr_ExpiresAt :: "time option"
  cr_ClientIP :: string
  cr_Roles :: "string list"
  cr_TTL :: string
  cr_Fingerprint :: string

record Stats =
  st_StartedAt :: time
  st_Uptime :: string
  st_TotalCertsIssued :: int
  st_ActiveCerts :: int
  st_TotalAuthSuccesses :: int
  st_TotalAuthFailures :: int
  st_TotalCertErrors :: int

section \<open>The tracker\<close>

record tracker =
  tr_startedAt :: time
  tr_certs :: "CertRecord list"
  tr_issued :: int
  tr_success :: int
  tr_failure :: int
  tr_errors :: int

definition NewTracker :: "time \<Rightarrow> tracker" where
  "NewTracker now =
     \<lparr>tr_startedAt = now, tr_certs = [], tr_issued = 0, tr_success = 0, tr_failure = 0, tr_errors = 0\<rparr>"

definition cert_record :: "event \<Rightarrow> CertRecord" where
  "cert_record ev =
     \<lparr>cr_Subject = Subject ev, cr_Email = Email ev, cr_IssuedAt = Timestamp ev, cr_ExpiresAt = CertExpiry ev,
      cr_ClientIP = ClientIP ev, cr_Roles = Roles ev, cr_TTL = CertTTL ev, cr_Fingerprint = CertFingerprint ev\<rparr>"

definition tr_handleEvent :: "event \<Rightarrow> tracker \<Rightarrow> tracker" where
  "tr_handleEvent ev t =
     (case EType ev of
        EventCertIssued \<Rightarrow> t\<lparr>tr_issued := tr_issued t + 1, tr_certs := tr_certs t @ [cert_record ev]\<rparr>
      | EventAuthSuccess \<Rightarrow> t\<lparr>tr_success := tr_success t + 1\<rparr>
      | EventAuthFailure \<Rightarrow> t\<lparr>tr_failure := tr_failure t + 1\<rparr>
      | EventCertError \<Rightarrow> t\<lparr>tr_errors := tr_errors t + 1\<rparr>
      | OtherEvent _ \<Rightarrow> t)"

text \<open>The zero time, the year 1, is after no clock value.\<close>

definition unexpired :: "time \<Rightarrow> CertRecord \<Rightarrow> bool" where
  "unexpired now c = (case cr_ExpiresAt c of None \<Rightarrow> False | Some e \<Rightarrow> after e now)"

definition pruneExpired :: "tracker \<Rightarrow> time \<Rightarrow> tracker \<times> CertRecord list" where
  "pruneExpired t now =
     (let active = filter (unexpired now) (tr_certs t) in (t\<lparr>tr_certs := active\<rparr>, active))"

definition ActiveCerts :: "tracker \<Rightarrow> time \<Rightarrow> tracker \<times> CertRecord list" where
  "ActiveCerts t now = pruneExpired t now"

text \<open>\<^verbatim>\<open>GetStats\<close> reads the clock for the uptime and again when it prunes.\<close>

definition GetStats :: "tracker \<Rightarrow> time \<Rightarrow> time \<Rightarrow> tracker \<times> Stats" where
  "GetStats t now1 now2 =
     (let (t1, active) = pruneExpired t now2 in
      (t1, \<lparr>st_StartedAt = tr_startedAt t,
            st_Uptime = Duration_String (Duration_Round (now1 - tr_startedAt t) second),
            st_TotalCertsIssued = tr_issued t, st_ActiveCerts = int (length active),
            st_TotalAuthSuccesses = tr_success t, st_TotalAuthFailures = tr_failure t,
            st_TotalCertErrors = tr_errors t\<rparr>))"

section \<open>The certificate log\<close>

text \<open>
  The file as the lines written to it; a record that does not encode, or a write that
  fails, is dropped without a word.
\<close>

record certlog =
  cl_path :: string
  cl_lines :: "string list"

definition NewCertLog :: "(string \<Rightarrow> bool) \<Rightarrow> string \<Rightarrow> certlog option" where
  "NewCertLog opens path = (if opens path then Some \<lparr>cl_path = path, cl_lines = []\<rparr> else None)"

definition cl_append ::
  "(CertRecord \<Rightarrow> string option) \<Rightarrow> CertRecord \<Rightarrow> certlog \<Rightarrow> certlog" where
  "cl_append marshal rec l =
     (case marshal rec of None \<Rightarrow> l | Some data \<Rightarrow> l\<lparr>cl_lines := cl_lines l @ [data]\<rparr>)"

definition cl_handleEvent :: "(CertRecord \<Rightarrow> string option) \<Rightarrow> event \<Rightarrow> certlog \<Rightarrow> certlog" where
  "cl_handleEvent marshal ev l =
     (if EType ev \<noteq> EventCertIssued then l else cl_append marshal (cert_record ev) l)"

section \<open>The history of events\<close>

definition issued_in :: "event list \<Rightarrow> CertRecord list" where
  "issued_in evs = map cert_record (filter (\<lambda>ev. EType ev = EventCertIssued) evs)"

definition count_type :: "EventType \<Rightarrow> event list \<Rightarrow> int" where
  "count_type ty evs = int (length (filter (\<lambda>ev. EType ev = ty) evs))"

datatype tr_op = Notify event | AskCerts time | AskStats time time

fun tr_times :: "tr_op \<Rightarrow> time list" where
  "tr_times (Notify ev) = []"
| "tr_times (AskCerts t) = [t]"
| "tr_times (AskStats t1 t2) = [t1, t2]"

datatype tr_answer = Certs "CertRecord list" | Statistics Stats

fun tr_run :: "tracker \<Rightarrow> tr_op list \<Rightarrow> tr_answer list" where
  "tr_run t [] = []"
| "tr_run t (Notify ev # ops) = tr_run (tr_handleEvent ev t) ops"
| "tr_run t (AskCerts now # ops) = (let (t1, cs) = ActiveCerts t now in Certs cs # tr_run t1 ops)"
| "tr_run t (AskStats now1 now2 # ops) =
     (let (t1, st) = GetStats t now1 now2 in Statistics st # tr_run t1 ops)"

text \<open>What the history answers, with nothing forgotten.\<close>

fun history_run :: "time \<Rightarrow> event list \<Rightarrow> tr_op list \<Rightarrow> tr_answer list" where
  "history_run t0 evs [] = []"
| "history_run t0 evs (Notify ev # ops) = history_run t0 (evs @ [ev]) ops"
| "history_run t0 evs (AskCerts now # ops) =
     Certs (filter (unexpired now) (issued_in evs)) # history_run t0 evs ops"
| "history_run t0 evs (AskStats now1 now2 # ops) =
     Statistics
       \<lparr>st_StartedAt = t0,
        st_Uptime = Duration_String (Duration_Round (now1 - t0) second),
        st_TotalCertsIssued = count_type EventCertIssued evs,
        st_ActiveCerts = int (length (filter (unexpired now2) (issued_in evs))),
        st_TotalAuthSuccesses = count_type EventAuthSuccess evs,
        st_TotalAuthFailures = count_type EventAuthFailure evs,
        st_TotalCertErrors = count_type EventCertError evs\<rparr>
     # history_run t0 evs ops"

definition tr_sim :: "time \<Rightarrow> tracker \<Rightarrow> event list \<Rightarrow> time \<Rightarrow> bool" where
  "tr_sim t0 t evs now \<longleftrightarrow>
     tr_startedAt t = t0 \<and> tr_issued t = count_type EventCertIssued evs \<and>
     tr_success t = count_type EventAuthSuccess evs \<and> tr_failure t = count_type EventAuthFailure evs \<and>
     tr_errors t = count_type EventCertError evs \<and>
     (\<forall>T \<ge> now. filter (unexpired T) (tr_certs t) = filter (unexpired T) (issued_in evs))"

lemma tr_sim_New: "tr_sim t0 (NewTracker t0) [] now"
  by (simp add: tr_sim_def NewTracker_def count_type_def issued_in_def)

lemma tr_sim_Notify: "tr_sim t0 t evs now \<Longrightarrow> tr_sim t0 (tr_handleEvent ev t) (evs @ [ev]) now"
  by (cases "EType ev") (simp_all add: tr_sim_def tr_handleEvent_def count_type_def issued_in_def)

lemma unexpired_earlier: "now \<le> T \<Longrightarrow> unexpired T c \<Longrightarrow> unexpired now c"
  by (auto simp: unexpired_def split: option.splits)

lemma tr_sim_prune:
  assumes "tr_sim t0 t evs now0" and "now0 \<le> now"
  shows "snd (pruneExpired t now) = filter (unexpired now) (issued_in evs)"
    and "tr_sim t0 (fst (pruneExpired t now)) evs now"
proof -
  have "filter (unexpired T) (filter (unexpired now) (tr_certs t)) = filter (unexpired T) (issued_in evs)"
    if "now \<le> T" for T
  proof -
    have "filter (unexpired T) (filter (unexpired now) (tr_certs t)) = filter (unexpired T) (tr_certs t)"
      using unexpired_earlier [OF that] by (auto simp: filter_filter intro!: filter_cong)
    with that assms show ?thesis by (simp add: tr_sim_def)
  qed
  with assms show "snd (pruneExpired t now) = filter (unexpired now) (issued_in evs)"
    and "tr_sim t0 (fst (pruneExpired t now)) evs now"
    by (simp_all add: tr_sim_def pruneExpired_def Let_def)
qed

lemma tr_run_history:
  assumes "tr_sim t0 t evs now" and "sorted (now # concat (map tr_times ops))"
  shows "tr_run t ops = history_run t0 evs ops"
  using assms
proof (induction ops arbitrary: t evs now)
  case (Cons op ops)
  show ?case
  proof (cases op)
    case (Notify ev)
    with Cons.IH [OF tr_sim_Notify [OF Cons.prems(1)]] Cons.prems(2) show ?thesis by simp
  next
    case (AskCerts T)
    with Cons.prems(2) have "now \<le> T" by simp
    note prune = tr_sim_prune [OF Cons.prems(1) this]
    with AskCerts Cons.IH [OF prune(2)] Cons.prems(2) show ?thesis
      by (cases "pruneExpired t T") (simp add: ActiveCerts_def)
  next
    case (AskStats T1 T2)
    with Cons.prems(2) have "now \<le> T2" by simp
    note prune = tr_sim_prune [OF Cons.prems(1) this]
    with AskStats Cons.IH [OF prune(2)] Cons.prems show ?thesis
      by (cases "pruneExpired t T2") (simp add: GetStats_def tr_sim_def)
  qed
qed simp

lemma cl_lines_history:
  "cl_lines (fold (cl_handleEvent marshal) evs l) =
   cl_lines l @ map the (filter (\<lambda>x. x \<noteq> None) (map marshal (issued_in evs)))"
proof (induction evs arbitrary: l)
  case (Cons ev evs)
  then show ?case
    by (cases "marshal (cert_record ev)")
      (simp_all add: cl_handleEvent_def cl_append_def issued_in_def)
qed (simp add: issued_in_def)

section \<open>The listeners of the server\<close>

text \<open>What \<^verbatim>\<open>serve\<close> registers, in that order, on the pair of tracker and certificate log.\<close>

definition server_listeners ::
  "(CertRecord \<Rightarrow> string option) \<Rightarrow> (event \<Rightarrow> tracker \<times> certlog \<Rightarrow> tracker \<times> certlog) list" where
  "server_listeners marshal =
     [\<lambda>ev (t, c). (tr_handleEvent ev t, c), \<lambda>ev (t, c). (t, cl_handleEvent marshal ev c)]"

definition stamped :: "time \<times> event \<Rightarrow> event" where
  "stamped p = (if Timestamp (snd p) = None then (snd p)\<lparr>Timestamp := Some (fst p)\<rparr> else snd p)"

definition log_all ::
  "(event \<Rightarrow> string option) \<Rightarrow> (time \<times> event) list \<Rightarrow> 's logger \<times> 's \<Rightarrow> 's logger \<times> 's" where
  "log_all marshal evs st = fold (\<lambda>(now, ev) (l, s). Log marshal now ev l s) evs st"

definition encodable :: "(event \<Rightarrow> string option) \<Rightarrow> (time \<times> event) list \<Rightarrow> event list" where
  "encodable marshal evs = filter (\<lambda>ev. marshal ev \<noteq> None) (map stamped evs)"

lemma Log_stamped:
  "Log marshal now ev l s =
   (case marshal (stamped (now, ev)) of
      None \<Rightarrow> (l, s)
    | Some data \<Rightarrow> (l\<lparr>lg_lines := lg_lines l @ [data]\<rparr>,
        fold (\<lambda>fn. fn (stamped (now, ev))) (lg_listeners l) s))"
proof -
  have "(if Timestamp ev = None then ev\<lparr>Timestamp := Some now\<rparr> else ev) = stamped (now, ev)"
    by (simp add: stamped_def)
  then show ?thesis by (simp only: Log_def Let_def)
qed

lemma log_all_server:
  assumes "lg_listeners l = server_listeners rmarshal"
  shows "log_all marshal evs (l, t, c) =
    (l\<lparr>lg_lines := lg_lines l @ map (the \<circ> marshal) (encodable marshal evs)\<rparr>,
     fold tr_handleEvent (encodable marshal evs) t, fold (cl_handleEvent rmarshal) (encodable marshal evs) c)"
  using assms
proof (induction evs arbitrary: l t c)
  case (Cons p evs)
  obtain now ev where p: "p = (now, ev)" by fastforce
  show ?case
  proof (cases "marshal (stamped (now, ev))")
    case None
    with Cons p show ?thesis
      by (simp add: log_all_def encodable_def Log_stamped)
  next
    case (Some data)
    let ?l = "l\<lparr>lg_lines := lg_lines l @ [data]\<rparr>"
    have "lg_listeners ?l = server_listeners rmarshal" using Cons.prems by simp
    note IH = Cons.IH [OF this, of "tr_handleEvent (stamped (now, ev)) t"
        "cl_handleEvent rmarshal (stamped (now, ev)) c"]
    have "Log marshal now ev l (t, c) =
        (?l, tr_handleEvent (stamped (now, ev)) t, cl_handleEvent rmarshal (stamped (now, ev)) c)"
      using Some Cons.prems by (simp add: Log_stamped server_listeners_def)
    with IH Some p show ?thesis
      by (simp add: log_all_def encodable_def)
  qed
qed (simp add: log_all_def encodable_def)

section \<open>Properties\<close>

text \<open>
  C25. The tracker, which forgets expired certificates whenever it is asked, answers every
  query as the full history of events would: the certificates issued and not yet expired
  in order of issue, and the exact number of each kind of event.
\<close>

theorem tracker_refines_history:
  assumes "sorted (concat (map tr_times ops))"
  shows "tr_run (NewTracker t0) ops = history_run t0 [] ops"
proof (cases "concat (map tr_times ops)")
  case Nil
  then have "sorted (0 # concat (map tr_times ops))" by (simp only: sorted1)
  then show ?thesis by (rule tr_run_history [OF tr_sim_New])
next
  case (Cons T Ts)
  then have "sorted (T # concat (map tr_times ops))" using assms by simp
  then show ?thesis by (rule tr_run_history [OF tr_sim_New])
qed

text \<open>
  The audit log, the tracker and the certificate log agree: every event that can be
  encoded is written once, in order, and counted, and the certificate log holds one line
  for each issued certificate among them.
\<close>

theorem audit_fanout:
  assumes "NewLogger opens path = Some l0" and "NewCertLog opens cpath = Some c0"
  shows "\<exists>l' c'. log_all marshal evs (fold AddListener (server_listeners rmarshal) l0, NewTracker t0, c0) =
      (l', fold tr_handleEvent (encodable marshal evs) (NewTracker t0), c') \<and>
    lg_lines l' = map (the \<circ> marshal) (encodable marshal evs) \<and>
    cl_lines c' = map the (filter (\<lambda>x. x \<noteq> None) (map rmarshal (issued_in (encodable marshal evs))))"
proof -
  have l0: "lg_lines l0 = []" "lg_listeners l0 = []"
    using assms(1) by (auto simp: NewLogger_def split: if_splits)
  have c0: "cl_lines c0 = []" using assms(2) by (auto simp: NewCertLog_def split: if_splits)
  let ?l = "fold AddListener (server_listeners rmarshal) l0"
  have l: "lg_lines ?l = []" "lg_listeners ?l = server_listeners rmarshal"
    using l0 by (simp_all add: server_listeners_def AddListener_def)
  show ?thesis
    using log_all_server [OF l(2), of marshal evs "NewTracker t0" c0] cl_lines_history [of rmarshal _ c0] l c0
    by simp
qed

definition demo_event :: event where
  "demo_event = (blank_event EventCertIssued)\<lparr>Subject := ''alice'', CertExpiry := Some 100\<rparr>"

theorem tracker_refines_history_witness:
  "tr_run (NewTracker 0) [Notify demo_event, AskCerts 50, AskCerts 100, AskStats 101 101] =
     history_run 0 [] [Notify demo_event, AskCerts 50, AskCerts 100, AskStats 101 101] \<and>
   hd (tr_run (NewTracker 0) [Notify demo_event, AskCerts 50, AskCerts 100]) = Certs [cert_record demo_event]"
  by (rule conjI, rule tracker_refines_history, simp)
    (simp add: demo_event_def blank_event_def tr_handleEvent_def NewTracker_def ActiveCerts_def
      pruneExpired_def unexpired_def cert_record_def Let_def)

theorem audit_fanout_witness:
  "\<exists>l' c'. log_all (\<lambda>e. Some (Subject e)) [(7, demo_event)]
      (fold AddListener (server_listeners (\<lambda>r. Some (cr_Subject r))) (the (NewLogger (\<lambda>p. True) ''-'')), NewTracker 0,
       the (NewCertLog (\<lambda>p. True) ''certs'')) = (l', tr_handleEvent (stamped (7, demo_event)) (NewTracker 0), c') \<and>
    lg_lines l' = [''alice''] \<and> cl_lines c' = [''alice'']"
proof -
  have "NewLogger (\<lambda>p. True) ''-'' = Some (the (NewLogger (\<lambda>p. True) ''-''))"
    "NewCertLog (\<lambda>p. True) ''certs'' = Some (the (NewCertLog (\<lambda>p. True) ''certs''))"
    by (simp_all add: NewLogger_def NewCertLog_def)
  from audit_fanout [OF this, of "\<lambda>e. Some (Subject e)" "[(7, demo_event)]" "\<lambda>r. Some (cr_Subject r)" 0]
  show ?thesis
    by (simp add: encodable_def demo_event_def blank_event_def stamped_def issued_in_def cert_record_def)
qed

end
