(* ===== verification/UrlQuery.thy ===== *)
theory UrlQuery
  imports Encoding GoTime "HOL-Library.List_Lexorder" "HOL-Library.Char_ord"
begin

text \<open>
  \<^verbatim>\<open>net/url\<close>: query escaping and \<^verbatim>\<open>Values.Encode\<close>, which every request to the provider
  goes through, and the reading of a query, with the round trip between them.
\<close>

section \<open>Escaping\<close>

definition unreserved :: "char \<Rightarrow> bool" where
  "unreserved c \<longleftrightarrow>
     (let n = byte_val c in
      97 \<le> n \<and> n \<le> 122 \<or> 65 \<le> n \<and> n \<le> 90 \<or> 48 \<le> n \<and> n \<le> 57 \<or> n = 45 \<or> n = 95 \<or> n = 46 \<or> n = 126)"

definition upper_hex :: "nat \<Rightarrow> char" where
  "upper_hex n = ''0123456789ABCDEF'' ! n"

definition escape_char :: "char \<Rightarrow> string" where
  "escape_char c =
     (if unreserved c then [c]
      else if c = CHR '' '' then ''+''
      else [CHR ''%'', upper_hex (byte_val c div 16), upper_hex (byte_val c mod 16)])"

definition QueryEscape :: "string \<Rightarrow> string" where
  "QueryEscape s = concat (map escape_char s)"

text \<open>\<^verbatim>\<open>QueryUnescape\<close>: nothing for a percent sign without two hexadecimal digits.\<close>

fun QueryUnescape :: "string \<Rightarrow> string option" where
  "QueryUnescape [] = Some []"
| "QueryUnescape (c # cs) =
     (if c = CHR ''%'' then
        (case cs of
           a # b # r \<Rightarrow>
             (case (hex_val a, hex_val b) of
                (Some h, Some l) \<Rightarrow> map_option ((#) (char_of (h * 16 + l))) (QueryUnescape r)
              | _ \<Rightarrow> None)
         | _ \<Rightarrow> None)
      else map_option ((#) (if c = CHR ''+'' then CHR '' '' else c)) (QueryUnescape cs))"

section \<open>Values\<close>

text \<open>
  \<^verbatim>\<open>url.Values\<close> with one value per key, as the program builds them; \<^verbatim>\<open>Set\<close> replaces or adds,
  \<^verbatim>\<open>Encode\<close> sorts by key.
\<close>

type_synonym url_values = "(string \<times> string) list"

definition values_Set :: "string \<Rightarrow> string \<Rightarrow> url_values \<Rightarrow> url_values" where
  "values_Set k v vs = AList.update k v vs"

definition Encode :: "url_values \<Rightarrow> string" where
  "Encode vs = join ''&'' (map (\<lambda>(k, v). QueryEscape k @ ''='' @ QueryEscape v) (sort_key fst vs))"

text \<open>\<^verbatim>\<open>ParseQuery\<close> skips empty settings, those with a semicolon and those that do not unescape.\<close>

definition parse_setting :: "string \<Rightarrow> (string \<times> string) option" where
  "parse_setting s =
     (let k = takeWhile (\<lambda>c. c \<noteq> CHR ''='') s; v = drop (length k + 1) s in
      if s = [] \<or> CHR '';'' \<in> set s then None
      else case (QueryUnescape k, QueryUnescape v) of
        (Some k', Some v') \<Rightarrow> Some (k', v')
      | _ \<Rightarrow> None)"

definition ParseQuery :: "string \<Rightarrow> url_values" where
  "ParseQuery q =
     (if q = [] then [] else map the (filter (\<lambda>x. x \<noteq> None) (map parse_setting (split_on (CHR ''&'') q))))"

section \<open>The round trip\<close>

lemma hex_val_upper: "n < 16 \<Longrightarrow> hex_val (upper_hex n) = Some n"
proof -
  assume "n < 16"
  then have "n \<in> set [0..<16]" by simp
  moreover have "\<forall>n \<in> set [0..<16]. hex_val (upper_hex n) = Some n"
    by code_simp
  ultimately show ?thesis by blast
qed

lemma unescape_char: "QueryUnescape (escape_char c @ r) = map_option ((#) c) (QueryUnescape r)"
proof -
  have "byte_val c div 16 < 16" using byte_val_less [of c] by (intro less_mult_imp_div_less) simp
  moreover have "byte_val c div 16 * 16 + byte_val c mod 16 = byte_val c" by (rule div_mult_mod_eq)
  moreover have "unreserved c \<Longrightarrow> c \<noteq> CHR ''%'' \<and> c \<noteq> CHR ''+''" by (auto simp: unreserved_def)
  ultimately show ?thesis by (auto simp: escape_char_def hex_val_upper)
qed

lemma QueryUnescape_Escape [simp]: "QueryUnescape (QueryEscape s) = Some s"
  by (induction s) (simp_all add: QueryEscape_def unescape_char)

lemma upper_hex_ascii: "n < 16 \<Longrightarrow> upper_hex n \<noteq> CHR ''&'' \<and> upper_hex n \<noteq> CHR ''='' \<and> upper_hex n \<noteq> CHR '';''"
proof -
  assume "n < 16"
  then have "n \<in> set [0..<16]" by simp
  moreover have "\<forall>n \<in> set [0..<16]. upper_hex n \<noteq> CHR ''&'' \<and> upper_hex n \<noteq> CHR ''='' \<and> upper_hex n \<noteq> CHR '';''"
    by code_simp
  ultimately show ?thesis by blast
qed

lemma escape_char_safe: "{CHR ''&'', CHR ''='', CHR '';''} \<inter> set (escape_char c) = {}"
proof -
  have "byte_val c div 16 < 16" "byte_val c mod 16 < 16"
    using byte_val_less [of c] by (auto intro: less_mult_imp_div_less)
  then have "upper_hex (byte_val c div 16) \<noteq> CHR ''&'' \<and> upper_hex (byte_val c div 16) \<noteq> CHR ''='' \<and>
      upper_hex (byte_val c div 16) \<noteq> CHR '';''"
    "upper_hex (byte_val c mod 16) \<noteq> CHR ''&'' \<and> upper_hex (byte_val c mod 16) \<noteq> CHR ''='' \<and>
      upper_hex (byte_val c mod 16) \<noteq> CHR '';''"
    using upper_hex_ascii by blast+
  then show ?thesis by (auto simp: escape_char_def unreserved_def)
qed

lemma QueryEscape_safe: "CHR ''&'' \<notin> set (QueryEscape s)" "CHR ''='' \<notin> set (QueryEscape s)"
  "CHR '';'' \<notin> set (QueryEscape s)"
  using escape_char_safe by (auto simp: QueryEscape_def)

lemma parse_setting_Escape: "parse_setting (QueryEscape k @ ''='' @ QueryEscape v) = Some (k, v)"
proof -
  have "takeWhile (\<lambda>c. c \<noteq> CHR ''='') (QueryEscape k @ CHR ''='' # QueryEscape v) = QueryEscape k"
    by (rule takeWhile_until) (rule QueryEscape_safe)
  then show ?thesis by (simp add: parse_setting_def QueryEscape_safe)
qed

text \<open>A query the program builds reads back as the settings it was built from.\<close>

lemma ParseQuery_Encode: "ParseQuery (Encode vs) = sort_key fst vs"
proof (cases "vs = []")
  case True
  then show ?thesis by (simp add: ParseQuery_def Encode_def)
next
  case False
  let ?ss = "map (\<lambda>(k, v). QueryEscape k @ ''='' @ QueryEscape v) (sort_key fst vs)"
  have ne: "?ss \<noteq> []" using False by (metis Nil_is_map_conv length_0_conv length_sort)
  have "\<forall>p \<in> set ?ss. CHR ''&'' \<notin> set p" by (auto simp: QueryEscape_safe)
  then have split: "split_on (CHR ''&'') (Encode vs) = ?ss"
    unfolding Encode_def by (rule split_on_join [OF ne])
  then have "Encode vs \<noteq> []" using ne by (cases ?ss) (auto simp: QueryEscape_def)
  then have "ParseQuery (Encode vs) = map the (filter (\<lambda>x. x \<noteq> None) (map parse_setting ?ss))"
    by (simp only: ParseQuery_def split if_False)
  also have "map parse_setting ?ss = map Some (sort_key fst vs)"
    using parse_setting_Escape by (auto simp: case_prod_unfold)
  also have "map the (filter (\<lambda>x. x \<noteq> None) (map Some xs)) = xs" for xs :: url_values
    by (induction xs) simp_all
  finally show ?thesis .
qed

lemma lookup_ParseQuery_Encode:
  assumes "distinct (map fst vs)" and "(k, v) \<in> set vs"
  shows "map_of (ParseQuery (Encode vs)) k = Some v"
proof -
  have "distinct (map fst (sort_key fst vs))"
    using assms(1) by (simp add: distinct_map)
  then show ?thesis using assms(2) by (simp add: ParseQuery_Encode)
qed

end
