(* ===== verification/Jwt.thy ===== *)
theory Jwt
  imports Encoding Http
begin

text \<open>
  \<^verbatim>\<open>pkg/oidc/jwt.go\<close>: the validation of an ID token against a key set, an issuer and an
  audience. The byte handling (splitting, base 64, point encoding, exponent, comparison)
  is translated; the cryptographic primitives and the JSON decoder are the parameters of
  the record \<open>crypto\<close>.
\<close>

section \<open>Keys and parameters\<close>

record JWK =
  Kty :: string
  Use :: string
  Kid :: string
  Alg :: string
  RsaN :: string
  RsaE :: string
  Crv :: string
  CoordX :: string
  CoordY :: string

type_synonym JWKS = "JWK list"

datatype hash = SHA256 | SHA384 | SHA512
datatype curve = P256 | P384 | P521

fun BitSize :: "curve \<Rightarrow> nat" where
  "BitSize P256 = 256"
| "BitSize P384 = 384"
| "BitSize P521 = 521"

text \<open>
  \<open>digest\<close> is the hash of the input, \<open>rsa_ok n e h d s\<close> is \<^verbatim>\<open>rsa.VerifyPKCS1v15\<close>, \<open>on_curve\<close>
  says whether \<^verbatim>\<open>ecdsa.ParseUncompressedPublicKey\<close> accepts a point, \<open>ecdsa_ok\<close> and \<open>ed_ok\<close>
  verify, \<open>hmac\<close> is the code of a key and a message. \<open>header_json\<close> gives \<^verbatim>\<open>alg\<close> and \<^verbatim>\<open>kid\<close>,
  \<open>claims_json\<close> the object. \<open>int64_of_huge\<close> is what the machine makes of a float beyond
  64 bits, which Go leaves open.
\<close>

record crypto =
  digest :: "hash \<Rightarrow> string \<Rightarrow> string"
  rsa_ok :: "nat \<Rightarrow> int \<Rightarrow> hash \<Rightarrow> string \<Rightarrow> string \<Rightarrow> bool"
  on_curve :: "curve \<Rightarrow> string \<Rightarrow> bool"
  ecdsa_ok :: "curve \<Rightarrow> string \<Rightarrow> string \<Rightarrow> nat \<Rightarrow> nat \<Rightarrow> bool"
  ed_ok :: "string \<Rightarrow> string \<Rightarrow> string \<Rightarrow> bool"
  hmac :: "hash \<Rightarrow> string \<Rightarrow> string \<Rightarrow> string"
  header_json :: "string \<Rightarrow> (string \<times> string) option"
  claims_json :: "string \<Rightarrow> (string \<Rightarrow> json option) option"
  int64_of_huge :: "int \<Rightarrow> nat \<Rightarrow> int"

datatype jwt_error =
    ExpectedThreeParts nat
  | BadHeaderEncoding
  | BadHeaderJSON
  | AlgNotPermitted string
  | AlgNotInAllowlist string
  | BadSignatureEncoding
  | NoClientSecret string
  | NoKeyForKid string
  | NoKeyForAlg string
  | WrongKeyType string string
  | BadKeyEncoding
  | CoordinatesTooLong
  | NotOnCurve
  | BadSignatureLength nat nat
  | UnsupportedCurve string
  | BadKeySize nat
  | UnsupportedAlg string
  | SignatureInvalid
  | BadClaimsEncoding
  | BadClaimsJSON
  | IssuerMismatch string
  | MissingAudience
  | AudienceMismatch
  | AudienceNotFound
  | AudienceType
  | TokenExpired int
  | MissingExpiry
  | NotYetValid int

text \<open>\<^verbatim>\<open>big.Int.SetBytes\<close>.\<close>

definition SetBytes :: "string \<Rightarrow> nat" where
  "SetBytes bs = foldl (\<lambda>n b. n * 256 + byte_val b) 0 bs"

section \<open>Signatures\<close>

text \<open>\<open>None\<close> is the nil error: the signature verifies.\<close>

text \<open>The exponent is an \<^verbatim>\<open>int\<close> of 64 bits: more than eight bytes wrap around.\<close>

definition rsa_exponent :: "string \<Rightarrow> int" where
  "rsa_exponent eBytes = sint (foldl (\<lambda>e b. push_bit 8 e + of_nat (byte_val b)) (0 :: 64 word) eBytes)"

definition verifyRSA :: "crypto \<Rightarrow> JWK \<Rightarrow> hash \<Rightarrow> string \<Rightarrow> string \<Rightarrow> jwt_error option" where
  "verifyRSA cr key h signingInput signature =
     (if Kty key \<noteq> ''RSA'' then Some (WrongKeyType ''RSA'' (Kty key))
      else case RawURLEncoding_Decode (RsaN key) of
        None \<Rightarrow> Some BadKeyEncoding
      | Some nBytes \<Rightarrow>
          (case RawURLEncoding_Decode (RsaE key) of
             None \<Rightarrow> Some BadKeyEncoding
           | Some eBytes \<Rightarrow>
               if rsa_ok cr (SetBytes nBytes) (rsa_exponent eBytes) h (digest cr h signingInput) signature
               then None else Some SignatureInvalid))"

text \<open>\<^verbatim>\<open>0x04 || X || Y\<close>, each coordinate padded on the left to the size of the field.\<close>

definition pad_left :: "nat \<Rightarrow> string \<Rightarrow> string" where
  "pad_left n bs = replicate (n - length bs) (CHR 0x00) @ bs"

definition ec_point :: "nat \<Rightarrow> string \<Rightarrow> string \<Rightarrow> string" where
  "ec_point byteLen xBytes yBytes = CHR 0x04 # pad_left byteLen xBytes @ pad_left byteLen yBytes"

definition verifyECDSA :: "crypto \<Rightarrow> JWK \<Rightarrow> hash \<Rightarrow> curve \<Rightarrow> string \<Rightarrow> string \<Rightarrow> jwt_error option" where
  "verifyECDSA cr key h curve signingInput signature =
     (if Kty key \<noteq> ''EC'' then Some (WrongKeyType ''EC'' (Kty key))
      else case RawURLEncoding_Decode (CoordX key) of
        None \<Rightarrow> Some BadKeyEncoding
      | Some xBytes \<Rightarrow>
          (case RawURLEncoding_Decode (CoordY key) of
             None \<Rightarrow> Some BadKeyEncoding
           | Some yBytes \<Rightarrow>
               (let byteLen = (BitSize curve + 7) div 8 in
                if byteLen < length xBytes \<or> byteLen < length yBytes then Some CoordinatesTooLong
                else let point = ec_point byteLen xBytes yBytes in
                  if \<not> on_curve cr curve point then Some NotOnCurve
                  else if length signature \<noteq> 2 * byteLen
                  then Some (BadSignatureLength (2 * byteLen) (length signature))
                  else let r = SetBytes (take byteLen signature); s = SetBytes (drop byteLen signature) in
                    if ecdsa_ok cr curve point (digest cr h signingInput) r s then None
                    else Some SignatureInvalid)))"

definition verifyEdDSA :: "crypto \<Rightarrow> JWK \<Rightarrow> string \<Rightarrow> string \<Rightarrow> jwt_error option" where
  "verifyEdDSA cr key signingInput signature =
     (if Kty key \<noteq> ''OKP'' then Some (WrongKeyType ''OKP'' (Kty key))
      else if Crv key \<noteq> ''Ed25519'' then Some (UnsupportedCurve (Crv key))
      else case RawURLEncoding_Decode (CoordX key) of
        None \<Rightarrow> Some BadKeyEncoding
      | Some xBytes \<Rightarrow>
          if length xBytes \<noteq> 32 then Some (BadKeySize (length xBytes))
          else if ed_ok cr xBytes signingInput signature then None else Some SignatureInvalid)"

definition verifyHMAC :: "crypto \<Rightarrow> string \<Rightarrow> string \<Rightarrow> string \<Rightarrow> string \<Rightarrow> jwt_error option" where
  "verifyHMAC cr alg secret signingInput signature =
     (case map_of [(''HS256'', SHA256), (''HS384'', SHA384), (''HS512'', SHA512)] alg of
        None \<Rightarrow> Some (UnsupportedAlg alg)
      | Some h \<Rightarrow>
          if constant_time_compare signature (hmac cr h secret signingInput) = 1 then None
          else Some SignatureInvalid)"

definition verifySignature :: "crypto \<Rightarrow> string \<Rightarrow> JWK \<Rightarrow> string \<Rightarrow> string \<Rightarrow> jwt_error option" where
  "verifySignature cr alg key signingInput signature =
     (if alg = ''RS256'' then verifyRSA cr key SHA256 signingInput signature
      else if alg = ''RS384'' then verifyRSA cr key SHA384 signingInput signature
      else if alg = ''RS512'' then verifyRSA cr key SHA512 signingInput signature
      else if alg = ''ES256'' then verifyECDSA cr key SHA256 P256 signingInput signature
      else if alg = ''ES384'' then verifyECDSA cr key SHA384 P384 signingInput signature
      else if alg = ''ES512'' then verifyECDSA cr key SHA512 P521 signingInput signature
      else if alg = ''EdDSA'' then verifyEdDSA cr key signingInput signature
      else Some (UnsupportedAlg alg))"

section \<open>Choosing the key\<close>

definition isAlgCompatible :: "JWK \<Rightarrow> string \<Rightarrow> bool" where
  "isAlgCompatible key alg =
     (if Alg key \<noteq> [] then Alg key = alg
      else if alg \<in> {''RS256'', ''RS384'', ''RS512''} then Kty key = ''RSA''
      else if alg \<in> {''ES256'', ''ES384'', ''ES512''} then Kty key = ''EC''
      else if alg = ''EdDSA'' then Kty key = ''OKP''
      else False)"

definition findKey :: "JWKS \<Rightarrow> string \<Rightarrow> string \<Rightarrow> jwt_error + JWK" where
  "findKey jwks kid alg =
     (case find (\<lambda>k. kid \<noteq> [] \<and> Kid k = kid \<or> kid = [] \<and> isAlgCompatible k alg) jwks of
        Some k \<Rightarrow> Inr k
      | None \<Rightarrow> Inl (if kid \<noteq> [] then NoKeyForKid kid else NoKeyForAlg alg))"

section \<open>Claims\<close>

definition validateAudience :: "(string \<Rightarrow> json option) \<Rightarrow> string \<Rightarrow> jwt_error option" where
  "validateAudience claims expected =
     (case claims ''aud'' of
        None \<Rightarrow> Some MissingAudience
      | Some (JStr v) \<Rightarrow> if constant_time_compare v expected \<noteq> 1 then Some AudienceMismatch else None
      | Some (JArr vs) \<Rightarrow>
          if list_ex (\<lambda>a. case a of JStr s \<Rightarrow> constant_time_compare s expected = 1 | _ \<Rightarrow> False) vs
          then None else Some AudienceNotFound
      | Some _ \<Rightarrow> Some AudienceType)"

text \<open>\<^verbatim>\<open>int64(f)\<close> for the float \<open>m / 2^k\<close>: truncation towards zero.\<close>

definition to_int64 :: "crypto \<Rightarrow> int \<Rightarrow> nat \<Rightarrow> int" where
  "to_int64 cr m k =
     (let t = sgn m * (\<bar>m\<bar> div 2 ^ k)
      in if - (2 ^ 63) \<le> t \<and> t < 2 ^ 63 then t else int64_of_huge cr m k)"

definition checkClaims ::
  "crypto \<Rightarrow> (string \<Rightarrow> json option) \<Rightarrow> string \<Rightarrow> string \<Rightarrow> int \<Rightarrow> jwt_error option" where
  "checkClaims cr claims expectedIssuer expectedAudience now =
     (let iss = (case claims ''iss'' of Some (JStr s) \<Rightarrow> s | _ \<Rightarrow> []) in
      if constant_time_compare (trim_suffix iss ''/'') (trim_suffix expectedIssuer ''/'') \<noteq> 1
      then Some (IssuerMismatch iss)
      else case validateAudience claims expectedAudience of
        Some e \<Rightarrow> Some e
      | None \<Rightarrow>
          (case claims ''exp'' of
             Some (JNum m k) \<Rightarrow>
               if to_int64 cr m k < now then Some (TokenExpired (to_int64 cr m k))
               else (case claims ''nbf'' of
                 Some (JNum m k) \<Rightarrow>
                   if now + 60 < to_int64 cr m k then Some (NotYetValid (to_int64 cr m k)) else None
               | _ \<Rightarrow> None)
           | _ \<Rightarrow> Some MissingExpiry))"

section \<open>\<^verbatim>\<open>ValidateIDToken\<close>\<close>

definition default_algs :: "string list" where
  "default_algs = [''RS256'', ''RS384'', ''RS512'', ''ES256'', ''ES384'', ''ES512'', ''EdDSA'']"

definition checkSignature ::
  "crypto \<Rightarrow> JWKS \<Rightarrow> string \<Rightarrow> string \<Rightarrow> string \<Rightarrow> string \<Rightarrow> string \<Rightarrow> jwt_error option" where
  "checkSignature cr jwks clientSecret alg kid signingInput signature =
     (if alg = ''HS256'' \<or> alg = ''HS384'' \<or> alg = ''HS512'' then
        (if clientSecret = [] then Some (NoClientSecret alg)
         else verifyHMAC cr alg clientSecret signingInput signature)
      else case findKey jwks kid alg of
        Inl e \<Rightarrow> Some e
      | Inr key \<Rightarrow> verifySignature cr alg key signingInput signature)"

definition ValidateIDToken ::
  "crypto \<Rightarrow> int \<Rightarrow> string \<Rightarrow> JWKS \<Rightarrow> string \<Rightarrow> string \<Rightarrow> string \<Rightarrow> string list
     \<Rightarrow> jwt_error + (string \<Rightarrow> json option)" where
  "ValidateIDToken cr now rawToken jwks expectedIssuer expectedAudience clientSecret allowedAlgs =
     (case split_on (CHR ''.'') rawToken of
        [p0, p1, p2] \<Rightarrow>
          (case RawURLEncoding_Decode p0 of
             None \<Rightarrow> Inl BadHeaderEncoding
           | Some headerJSON \<Rightarrow>
          (case header_json cr headerJSON of
             None \<Rightarrow> Inl BadHeaderJSON
           | Some (alg, kid) \<Rightarrow>
          if alg = [] \<or> alg = ''none'' then Inl (AlgNotPermitted alg)
          else let algs = (if allowedAlgs = [] then default_algs else allowedAlgs) in
          if \<not> list_ex (\<lambda>a. a = alg) algs then Inl (AlgNotInAllowlist alg)
          else let signingInput = p0 @ ''.'' @ p1 in
          (case RawURLEncoding_Decode p2 of
             None \<Rightarrow> Inl BadSignatureEncoding
           | Some signature \<Rightarrow>
          (case checkSignature cr jwks clientSecret alg kid signingInput signature of
             Some e \<Rightarrow> Inl e
           | None \<Rightarrow>
          (case RawURLEncoding_Decode p1 of
             None \<Rightarrow> Inl BadClaimsEncoding
           | Some claimsJSON \<Rightarrow>
          (case claims_json cr claimsJSON of
             None \<Rightarrow> Inl BadClaimsJSON
           | Some claims \<Rightarrow>
          (case checkClaims cr claims expectedIssuer expectedAudience now of
             Some e \<Rightarrow> Inl e
           | None \<Rightarrow> Inr claims)))))))
      | parts \<Rightarrow> Inl (ExpectedThreeParts (length parts)))"

section \<open>What acceptance means\<close>

definition mint :: "string \<Rightarrow> string \<Rightarrow> string \<Rightarrow> string" where
  "mint h c sig = join ''.'' [RawURLEncoding_Encode h, RawURLEncoding_Encode c, RawURLEncoding_Encode sig]"

lemma ValidateIDToken_Inr:
  "ValidateIDToken cr now tok jwks iss aud secret algs = Inr claims \<longleftrightarrow>
   (\<exists>p0 p1 p2 h alg kid sig c.
      split_on (CHR ''.'') tok = [p0, p1, p2] \<and> RawURLEncoding_Decode p0 = Some h \<and>
      header_json cr h = Some (alg, kid) \<and> alg \<noteq> [] \<and> alg \<noteq> ''none'' \<and>
      alg \<in> set (if algs = [] then default_algs else algs) \<and>
      RawURLEncoding_Decode p2 = Some sig \<and>
      checkSignature cr jwks secret alg kid (p0 @ ''.'' @ p1) sig = None \<and>
      RawURLEncoding_Decode p1 = Some c \<and> claims_json cr c = Some claims \<and>
      checkClaims cr claims iss aud now = None)"
proof (cases "\<exists>p0 p1 p2. split_on (CHR ''.'') tok = [p0, p1, p2]")
  case True
  then obtain p0 p1 p2 where parts: "split_on (CHR ''.'') tok = [p0, p1, p2]" by blast
  show ?thesis
    by (auto simp: ValidateIDToken_def parts Let_def list_ex_iff split: option.splits prod.splits if_splits)
next
  case False
  then show ?thesis
    by (auto simp: ValidateIDToken_def split: list.splits)
qed

lemma findKey_Inr:
  assumes "findKey jwks kid alg = Inr key"
  shows "key \<in> set jwks \<and> (kid \<noteq> [] \<longrightarrow> Kid key = kid) \<and> (kid = [] \<longrightarrow> isAlgCompatible key alg)"
  using assms by (auto simp: findKey_def find_Some_iff split: option.splits)

text \<open>The family of keys an algorithm verifies with.\<close>

definition alg_family :: "string \<Rightarrow> string" where
  "alg_family alg =
     (if alg \<in> {''RS256'', ''RS384'', ''RS512''} then ''RSA''
      else if alg \<in> {''ES256'', ''ES384'', ''ES512''} then ''EC'' else ''OKP'')"

lemma verify_kty:
  "verifyRSA cr key h i s = None \<Longrightarrow> Kty key = ''RSA''"
  "verifyECDSA cr key h c i s = None \<Longrightarrow> Kty key = ''EC''"
  "verifyEdDSA cr key i s = None \<Longrightarrow> Kty key = ''OKP''"
  by (auto simp: verifyRSA_def verifyECDSA_def verifyEdDSA_def split: if_splits)

lemma verifySignature_family: "verifySignature cr alg key i s = None \<Longrightarrow> Kty key = alg_family alg"
  by (auto simp: verifySignature_def alg_family_def dest: verify_kty split: if_splits)

lemma default_algs_asymmetric:
  "alg \<in> set default_algs \<Longrightarrow>
   checkSignature cr jwks secret alg kid i s =
     (case findKey jwks kid alg of Inl e \<Rightarrow> Some e | Inr key \<Rightarrow> verifySignature cr alg key i s)"
  by (auto simp: default_algs_def checkSignature_def)

lemma default_algs_nonempty: "alg \<in> set default_algs \<Longrightarrow> alg \<noteq> [] \<and> alg \<noteq> ''none''"
  by (auto simp: default_algs_def)

lemma json_const_time_case:
  "(case a of JStr s \<Rightarrow> constant_time_compare s e = 1 | _ \<Rightarrow> False) \<longleftrightarrow> a = JStr e"
  by (cases a) auto

lemma validateAudience_None:
  "validateAudience claims e = None \<longleftrightarrow>
   claims ''aud'' = Some (JStr e) \<or> (\<exists>vs. claims ''aud'' = Some (JArr vs) \<and> JStr e \<in> set vs)"
  unfolding validateAudience_def list_ex_iff json_const_time_case
  by (auto split: option.splits json.splits)

lemma checkClaims_None:
  "checkClaims cr claims iss aud now = None \<longleftrightarrow>
   trim_suffix (case claims ''iss'' of Some (JStr s) \<Rightarrow> s | _ \<Rightarrow> []) ''/'' = trim_suffix iss ''/'' \<and>
   validateAudience claims aud = None \<and>
   (\<exists>m k. claims ''exp'' = Some (JNum m k) \<and> now \<le> to_int64 cr m k) \<and>
   (\<forall>m k. claims ''nbf'' = Some (JNum m k) \<longrightarrow> to_int64 cr m k \<le> now + 60)"
  by (auto simp: checkClaims_def Let_def split: option.splits json.splits if_splits)

lemma split_three: "split_on c tok = [p0, p1, p2] \<Longrightarrow> tok = p0 @ [c] @ p1 @ [c] @ p2"
  using join_split_on [of c tok] by simp

lemma url_no_dot: "CHR ''.'' \<notin> set (RawURLEncoding_Encode s)"
  using url64.encode64_chars [of False s] by (auto simp: RawURLEncoding_Encode_def url_alphabet_def)

lemma RawURL_roundtrip [simp]: "RawURLEncoding_Decode (RawURLEncoding_Encode s) = Some s"
  by (simp add: RawURLEncoding_Decode_def RawURLEncoding_Encode_def url64.decode_encode)

lemma split_mint:
  "split_on (CHR ''.'') (mint h c sig) =
   [RawURLEncoding_Encode h, RawURLEncoding_Encode c, RawURLEncoding_Encode sig]"
  unfolding mint_def by (rule split_on_join) (auto simp: url_no_dot)

lemma rsa_exponent_fold:
  "foldl (\<lambda>e b. push_bit 8 e + of_nat (byte_val b)) (of_nat n :: 64 word) bs =
   of_nat (foldl (\<lambda>n b. n * 256 + byte_val b) n bs)"
proof (induction bs arbitrary: n)
  case (Cons b bs)
  have "push_bit 8 (of_nat n :: 64 word) + of_nat (byte_val b) = of_nat (n * 256 + byte_val b)"
    by (simp add: push_bit_eq_mult)
  with Cons show ?case by (simp del: of_nat_add of_nat_mult)
qed simp

lemma rsa_exponent_SetBytes: "rsa_exponent bs = sint (of_nat (SetBytes bs) :: 64 word)"
  using rsa_exponent_fold [of 0 bs] by (simp add: rsa_exponent_def SetBytes_def)

lemma SetBytes_append: "SetBytes (a @ b) = SetBytes a * 256 ^ length b + SetBytes b"
proof (induction b rule: rev_induct)
  case (snoc c b)
  then show ?case by (simp add: SetBytes_def algebra_simps)
qed (simp add: SetBytes_def)

lemma rsa_exponent_prefix:
  assumes "8 \<le> length b"
  shows "rsa_exponent (a @ b) = rsa_exponent b"
proof -
  have "(256 :: nat) ^ length b = 256 ^ (8 + (length b - 8))" using assms by simp
  also have "\<dots> = 256 ^ 8 * 256 ^ (length b - 8)" by (rule power_add)
  finally have "(256 :: nat) ^ length b = 2 ^ 64 * 256 ^ (length b - 8)" by simp
  then have "2 ^ 64 dvd SetBytes a * 256 ^ length b" by simp
  then have "(of_nat (SetBytes a * 256 ^ length b) :: 64 word) = 0"
    by (simp only: word_of_nat_eq_0_iff len_bit0 len_num1 mult_1_right) simp
  then have "(of_nat (SetBytes (a @ b)) :: 64 word) = of_nat (SetBytes b)"
    by (simp only: SetBytes_append of_nat_add add_0)
  then show ?thesis by (simp add: rsa_exponent_SetBytes)
qed

lemma pad_left_zeros:
  "j + length bs \<le> n \<Longrightarrow> pad_left n (replicate j (CHR 0x00) @ bs) = pad_left n bs"
  by (simp add: pad_left_def replicate_add [symmetric] flip: append_assoc)

lemma length_ec_point: "length x \<le> n \<Longrightarrow> length y \<le> n \<Longrightarrow> length (ec_point n x y) = 2 * n + 1"
  by (simp add: ec_point_def pad_left_def)

section \<open>Properties\<close>

text \<open>
  C2. A token accepted under the server's default list of algorithms is authentic: it has
  three parts, its signature verifies over the first two under a key of the key set that
  is of the algorithm's family and, when the header names a key, is that key; and its
  claims are the decoded second part, issued by the expected issuer (up to one trailing
  slash) for the expected audience and not expired.
\<close>

theorem accepted_token_authentic:
  assumes "ValidateIDToken cr now tok jwks iss aud secret [] = Inr claims"
  shows "\<exists>p0 p1 p2 h alg kid sig key c.
    tok = p0 @ ''.'' @ p1 @ ''.'' @ p2 \<and> RawURLEncoding_Decode p0 = Some h \<and>
    header_json cr h = Some (alg, kid) \<and> alg \<in> set default_algs \<and>
    key \<in> set jwks \<and> Kty key = alg_family alg \<and> (kid \<noteq> [] \<longrightarrow> Kid key = kid) \<and>
    RawURLEncoding_Decode p2 = Some sig \<and> verifySignature cr alg key (p0 @ ''.'' @ p1) sig = None \<and>
    RawURLEncoding_Decode p1 = Some c \<and> claims_json cr c = Some claims \<and>
    trim_suffix (case claims ''iss'' of Some (JStr s) \<Rightarrow> s | _ \<Rightarrow> []) ''/'' = trim_suffix iss ''/'' \<and>
    (claims ''aud'' = Some (JStr aud) \<or> (\<exists>vs. claims ''aud'' = Some (JArr vs) \<and> JStr aud \<in> set vs)) \<and>
    (\<exists>m k. claims ''exp'' = Some (JNum m k) \<and> now \<le> to_int64 cr m k)"
proof -
  obtain p0 p1 p2 h alg kid sig c where v:
    "split_on (CHR ''.'') tok = [p0, p1, p2]" "RawURLEncoding_Decode p0 = Some h"
    "header_json cr h = Some (alg, kid)" "alg \<in> set default_algs" "RawURLEncoding_Decode p2 = Some sig"
    "checkSignature cr jwks secret alg kid (p0 @ ''.'' @ p1) sig = None"
    "RawURLEncoding_Decode p1 = Some c" "claims_json cr c = Some claims"
    "checkClaims cr claims iss aud now = None"
    using assms unfolding ValidateIDToken_Inr if_P [OF refl] by blast
  obtain key where key: "findKey jwks kid alg = Inr key"
    and ver: "verifySignature cr alg key (p0 @ ''.'' @ p1) sig = None"
    using v(6) unfolding default_algs_asymmetric [OF v(4)] by (auto split: sum.splits)
  show ?thesis
    by (rule exI [of _ p0], rule exI [of _ p1], rule exI [of _ p2], rule exI [of _ h], rule exI [of _ alg],
        rule exI [of _ kid], rule exI [of _ sig], rule exI [of _ key], rule exI [of _ c])
      (use v ver findKey_Inr [OF key] verifySignature_family [OF ver] split_three [OF v(1)] in
        \<open>simp add: checkClaims_None validateAudience_None\<close>)
qed


text \<open>
  Acceptance over time is a window: a token accepted once is accepted exactly at the
  instants from its \<open>nbf\<close> less a minute up to and including its \<open>exp\<close>.
\<close>

theorem token_window:
  assumes "ValidateIDToken cr t0 tok jwks iss aud secret algs = Inr claims"
  shows "ValidateIDToken cr t tok jwks iss aud secret algs = Inr claims \<longleftrightarrow>
    (\<forall>m k. claims ''exp'' = Some (JNum m k) \<longrightarrow> t \<le> to_int64 cr m k) \<and>
    (\<forall>m k. claims ''nbf'' = Some (JNum m k) \<longrightarrow> to_int64 cr m k - 60 \<le> t)"
proof -
  have "checkClaims cr claims iss aud t0 = None" using assms by (auto simp: ValidateIDToken_Inr)
  then have "checkClaims cr claims iss aud t = None \<longleftrightarrow>
      (\<forall>m k. claims ''exp'' = Some (JNum m k) \<longrightarrow> t \<le> to_int64 cr m k) \<and>
      (\<forall>m k. claims ''nbf'' = Some (JNum m k) \<longrightarrow> to_int64 cr m k - 60 \<le> t)"
    by (auto simp: checkClaims_None)
  with assms show ?thesis unfolding ValidateIDToken_Inr by blast
qed

text \<open>
  The server passes no list of algorithms, so a token signed with a shared secret is
  turned down whatever the secret and the signature, although the client secret is there
  to verify such tokens.
\<close>

theorem hmac_never_accepted:
  assumes "split_on (CHR ''.'') tok = [p0, p1, p2]" and "RawURLEncoding_Decode p0 = Some h"
    and "header_json cr h = Some (alg, kid)" and "alg \<in> {''HS256'', ''HS384'', ''HS512''}"
  shows "ValidateIDToken cr now tok jwks iss aud secret [] = Inl (AlgNotInAllowlist alg)"
  using assms by (auto simp: ValidateIDToken_def default_algs_def)

text \<open>
  The exponent of an RSA key is read modulo \<open>2^64\<close>: whatever bytes stand before the last
  eight, the same signatures verify.
\<close>

theorem rsa_exponent_wraps:
  assumes "8 \<le> length e"
  shows "verifyRSA cr (k\<lparr>RsaE := RawURLEncoding_Encode (extra @ e)\<rparr>) h i s =
    verifyRSA cr (k\<lparr>RsaE := RawURLEncoding_Encode e\<rparr>) h i s"
  using rsa_exponent_prefix [OF assms, of extra] by (simp add: verifyRSA_def split: option.split)

text \<open>
  Leading zero bytes of a coordinate do not matter: as long as it fits the field, the
  key verifies the same signatures and fails in the same way.
\<close>

theorem ec_leading_zeros:
  assumes "j + length x \<le> (BitSize curve + 7) div 8"
  shows "verifyECDSA cr (k\<lparr>CoordX := RawURLEncoding_Encode (replicate j (CHR 0x00) @ x)\<rparr>) h curve i s =
    verifyECDSA cr (k\<lparr>CoordX := RawURLEncoding_Encode x\<rparr>) h curve i s"
  using assms by (simp add: verifyECDSA_def ec_point_def pad_left_zeros Let_def split: option.split)

section \<open>A concrete provider\<close>

text \<open>
  One key, one header for each kind of algorithm and one set of claims, with a toy
  signature (the signed text itself), on which the properties are evaluated.
\<close>

definition demo_crypto :: crypto where
  "demo_crypto =
     \<lparr>digest = (\<lambda>h s. s), rsa_ok = (\<lambda>n e h d s. s = d), on_curve = (\<lambda>c p. True),
      ecdsa_ok = (\<lambda>c p d r s. False), ed_ok = (\<lambda>k i s. False), hmac = (\<lambda>h k i. i),
      header_json = [''R'' \<mapsto> (''RS256'', ''k1''), ''S'' \<mapsto> (''HS256'', ''k1'')],
      claims_json = [''C'' \<mapsto> [''iss'' \<mapsto> JStr ''https://idp/'', ''aud'' \<mapsto> JArr [JStr ''talos''],
        ''exp'' \<mapsto> JNum 1000 0, ''nbf'' \<mapsto> JNum 500 0, ''sub'' \<mapsto> JStr ''alice'',
        ''groups'' \<mapsto> JArr [JStr ''ops'']]],
      int64_of_huge = (\<lambda>m k. 0)\<rparr>"

definition demo_claims_map :: "string \<Rightarrow> json option" where
  "demo_claims_map = the (claims_json demo_crypto ''C'')"

definition demo_key :: JWK where
  "demo_key = \<lparr>Kty = ''RSA'', Use = ''sig'', Kid = ''k1'', Alg = [], RsaN = RawURLEncoding_Encode ''n'',
     RsaE = RawURLEncoding_Encode [CHR 0x01, CHR 0x00, CHR 0x01], Crv = [], CoordX = [], CoordY = []\<rparr>"

definition demo_signed :: "string \<Rightarrow> string" where
  "demo_signed h = RawURLEncoding_Encode h @ ''.'' @ RawURLEncoding_Encode ''C''"

definition demo_token :: string where
  "demo_token = mint ''R'' ''C'' (demo_signed ''R'')"

lemma demo_checks:
  "header_json demo_crypto ''R'' = Some (''RS256'', ''k1'')"
  "header_json demo_crypto ''S'' = Some (''HS256'', ''k1'')"
  "findKey [demo_key] ''k1'' ''RS256'' = Inr demo_key"
  "claims_json demo_crypto ''C'' = Some demo_claims_map"
  "500 \<le> t \<Longrightarrow> t \<le> 1000 \<Longrightarrow> checkClaims demo_crypto demo_claims_map ''https://idp'' ''talos'' t = None"
  by (simp_all add: demo_crypto_def demo_claims_map_def findKey_def demo_key_def checkClaims_None
      validateAudience_None to_int64_def trim_suffix_def)

lemma demo_verifies:
  "verifySignature demo_crypto ''RS256'' demo_key
     (RawURLEncoding_Encode ''R'' @ ''.'' @ RawURLEncoding_Encode ''C'') (demo_signed ''R'') = None"
  by (simp add: verifySignature_def verifyRSA_def demo_key_def demo_crypto_def demo_signed_def)

lemma RS256_default: "''RS256'' \<in> set default_algs"
  by (simp add: default_algs_def)


lemma demo_accepted:
  "ValidateIDToken demo_crypto 600 demo_token [demo_key] ''https://idp'' ''talos'' [] [] = Inr demo_claims_map"
  using demo_checks(1,3,4) demo_checks(5) [of 600] demo_verifies
    default_algs_asymmetric [of "''RS256''"]
  by (simp add: ValidateIDToken_Inr demo_token_def split_mint default_algs_def demo_signed_def)

theorem accepted_token_authentic_witness:
  "\<exists>key \<in> set [demo_key]. \<exists>alg. alg \<in> set default_algs \<and> Kty key = alg_family alg"
  using accepted_token_authentic [OF demo_accepted] by blast

theorem token_window_witness:
  "ValidateIDToken demo_crypto 1000 demo_token [demo_key] ''https://idp'' ''talos'' [] [] = Inr demo_claims_map \<and>
   ValidateIDToken demo_crypto 1001 demo_token [demo_key] ''https://idp'' ''talos'' [] [] \<noteq> Inr demo_claims_map"
proof -
  have "demo_claims_map ''exp'' = Some (JNum 1000 0)" "demo_claims_map ''nbf'' = Some (JNum 500 0)"
    "to_int64 demo_crypto 1000 0 = 1000" "to_int64 demo_crypto 500 0 = 500"
    by (simp_all add: demo_claims_map_def demo_crypto_def to_int64_def)
  then show ?thesis
    using token_window [OF demo_accepted, of 1000] token_window [OF demo_accepted, of 1001] by simp
qed

theorem hmac_never_accepted_witness:
  "ValidateIDToken demo_crypto 600 (mint ''S'' ''C'' (hmac demo_crypto SHA256 ''secret'' (demo_signed ''S'')))
     [demo_key] ''https://idp'' ''talos'' ''secret'' [] = Inl (AlgNotInAllowlist ''HS256'')"
  by (rule hmac_never_accepted [OF split_mint RawURL_roundtrip demo_checks(2)]) simp

theorem rsa_exponent_wraps_witness:
  "verifyRSA demo_crypto (demo_key\<lparr>RsaE := RawURLEncoding_Encode (''x'' @ replicate 7 (CHR 0x00) @ [CHR 0x03])\<rparr>) SHA256 ''m'' ''m'' =
   verifyRSA demo_crypto (demo_key\<lparr>RsaE := RawURLEncoding_Encode (replicate 7 (CHR 0x00) @ [CHR 0x03])\<rparr>) SHA256 ''m'' ''m''"
  by (rule rsa_exponent_wraps) simp

theorem ec_leading_zeros_witness:
  "verifyECDSA demo_crypto (demo_key\<lparr>CoordX := RawURLEncoding_Encode (replicate 1 (CHR 0x00) @ replicate 31 (CHR 0x07))\<rparr>) SHA256 P256 ''m'' ''s'' =
   verifyECDSA demo_crypto (demo_key\<lparr>CoordX := RawURLEncoding_Encode (replicate 31 (CHR 0x07))\<rparr>) SHA256 P256 ''m'' ''s''"
  by (rule ec_leading_zeros) simp

end
