(* ===== verification/JwksCache.thy ===== *)
theory JwksCache
  imports Jwt
begin

text \<open>
  \<^verbatim>\<open>pkg/oidc/jwks_cache.go\<close> and \<^verbatim>\<open>FetchJWKS\<close>: the key set the server validates against. The
  provider is the function \<open>get\<close> from a URL to a status and a body (or no answer), the
  JSON decoder the function \<open>decode\<close>.
\<close>

section \<open>Fetching\<close>

datatype fetch_error = NoAnswer | BadStatus nat string | BadDocument

type_synonym http_get = "string \<Rightarrow> (nat \<times> string) option"

definition FetchJWKS :: "http_get \<Rightarrow> (string \<Rightarrow> JWKS option) \<Rightarrow> string \<Rightarrow> fetch_error + JWKS" where
  "FetchJWKS get decode uri =
     (case get uri of
        None \<Rightarrow> Inl NoAnswer
      | Some (st, bdy) \<Rightarrow>
          if st \<noteq> StatusOK then Inl (BadStatus st bdy)
          else (case decode bdy of None \<Rightarrow> Inl BadDocument | Some ks \<Rightarrow> Inr ks))"

section \<open>The cache\<close>

record jwks_cache =
  jc_jwks :: "JWKS option"
  jc_fetchedAt :: time
  jc_ttl :: duration
  jc_uri :: string

text \<open>The zero \<^verbatim>\<open>time.Time\<close> of \<^verbatim>\<open>fetchedAt\<close> is never read before a fetch; it is 0 here.\<close>

definition NewJWKSCache :: "string \<Rightarrow> duration \<Rightarrow> jwks_cache" where
  "NewJWKSCache uri ttl =
     \<lparr>jc_jwks = None, jc_fetchedAt = 0, jc_ttl = (if ttl \<le> 0 then 5 * minute else ttl), jc_uri = uri\<rparr>"

definition jc_fresh :: "jwks_cache \<Rightarrow> time \<Rightarrow> JWKS option" where
  "jc_fresh c now =
     (case jc_jwks c of
        Some ks \<Rightarrow> if now - jc_fetchedAt c < jc_ttl c then Some ks else None
      | None \<Rightarrow> None)"

text \<open>
  The slow path, under the write lock: the clock is read again for the double check, and
  once more when the fetch is done. The flag says whether the provider was asked.
\<close>

definition jc_refresh ::
  "(string \<Rightarrow> fetch_error + JWKS) \<Rightarrow> time \<Rightarrow> time \<Rightarrow> jwks_cache
     \<Rightarrow> jwks_cache \<times> (fetch_error + JWKS) \<times> bool" where
  "jc_refresh fetch now done_at c =
     (case jc_fresh c now of
        Some ks \<Rightarrow> (c, Inr ks, False)
      | None \<Rightarrow>
          (case fetch (jc_uri c) of
             Inl e \<Rightarrow> (case jc_jwks c of Some ks \<Rightarrow> (c, Inr ks, True) | None \<Rightarrow> (c, Inl e, True))
           | Inr ks \<Rightarrow> (c\<lparr>jc_jwks := Some ks, jc_fetchedAt := done_at\<rparr>, Inr ks, True)))"

definition jc_Get ::
  "(string \<Rightarrow> fetch_error + JWKS) \<Rightarrow> time \<Rightarrow> time \<Rightarrow> time \<Rightarrow> jwks_cache
     \<Rightarrow> jwks_cache \<times> (fetch_error + JWKS) \<times> bool" where
  "jc_Get fetch now1 now2 done_at c =
     (case jc_fresh c now1 of
        Some ks \<Rightarrow> (c, Inr ks, False)
      | None \<Rightarrow> jc_refresh fetch now2 done_at c)"

section \<open>Runs of the cache\<close>

text \<open>
  The critical sections of any number of concurrent requests, in the order they take the
  lock: a read of the fast path, or a slow path with the provider's answer to it.
\<close>

datatype jc_op = Fast time | Slow time "fetch_error + JWKS" time

fun jc_start :: "jc_op \<Rightarrow> time" where
  "jc_start (Fast t) = t"
| "jc_start (Slow t r d) = t"

fun jc_end :: "jc_op \<Rightarrow> time" where
  "jc_end (Fast t) = t"
| "jc_end (Slow t r d) = d"

fun jc_step :: "jc_op \<Rightarrow> jwks_cache \<Rightarrow> jwks_cache \<times> (fetch_error + JWKS) option \<times> bool" where
  "jc_step (Fast t) c = (c, map_option Inr (jc_fresh c t), False)"
| "jc_step (Slow t r d) c =
     (let (c', res, asked) = jc_refresh (\<lambda>u. r) t d c in (c', Some res, asked))"

fun jc_clock :: "time \<Rightarrow> jc_op list \<Rightarrow> bool" where
  "jc_clock t [] \<longleftrightarrow> True"
| "jc_clock t (op # ops) \<longleftrightarrow> t \<le> jc_start op \<and> jc_start op \<le> jc_end op \<and> jc_clock (jc_end op) ops"

text \<open>The fetches of a run, in order: when each began and, if it succeeded, when it ended.\<close>

fun jc_success :: "jc_op \<Rightarrow> time option" where
  "jc_success (Slow t (Inr ks) d) = Some d"
| "jc_success op = None"

fun jc_fetches :: "jc_op list \<Rightarrow> jwks_cache \<Rightarrow> (time \<times> time option) list" where
  "jc_fetches [] c = []"
| "jc_fetches (op # ops) c =
     (let (c', res, asked) = jc_step op c in
      (if asked then [(jc_start op, jc_success op)] else []) @ jc_fetches ops c')"

text \<open>The key sets handed to callers, with the time of the check that let them through.\<close>

fun jc_served :: "jc_op list \<Rightarrow> jwks_cache \<Rightarrow> (time \<times> JWKS) list" where
  "jc_served [] c = []"
| "jc_served (op # ops) c =
     (let (c', res, asked) = jc_step op c in
      (case res of Some (Inr ks) \<Rightarrow> [(jc_start op, ks)] | _ \<Rightarrow> []) @ jc_served ops c')"

text \<open>What the provider gave, and when it arrived.\<close>

definition provided :: "jc_op list \<Rightarrow> (time \<times> JWKS) set" where
  "provided ops = {(d, ks). \<exists>t. Slow t (Inr ks) d \<in> set ops}"

definition all_answered :: "jc_op list \<Rightarrow> bool" where
  "all_answered ops \<longleftrightarrow> (\<forall>t e d. Slow t (Inl e) d \<notin> set ops)"

lemma jc_fresh_Some: "jc_fresh c t = Some ks \<longleftrightarrow> jc_jwks c = Some ks \<and> t - jc_fetchedAt c < jc_ttl c"
  by (auto simp: jc_fresh_def split: option.splits)

lemma jc_fresh_None: "jc_fresh c t = None \<longleftrightarrow> jc_jwks c = None \<or> jc_fetchedAt c + jc_ttl c \<le> t"
  by (auto simp: jc_fresh_def split: option.splits)

lemma jc_step_ttl: "jc_step op c = (c', res, asked) \<Longrightarrow> jc_ttl c' = jc_ttl c"
  by (cases op) (auto simp: jc_refresh_def split: option.splits sum.splits prod.splits)

text \<open>The three ways a critical section ends.\<close>

lemma jc_step_cases:
  assumes "jc_step op c = (c', res, asked)"
  obtains (unasked) "c' = c" "\<not> asked" "\<forall>ks. res = Some (Inr ks) \<longrightarrow> jc_fresh c (jc_start op) = Some ks"
  | (got) ks where "asked" "jc_fresh c (jc_start op) = None" "op = Slow (jc_start op) (Inr ks) (jc_end op)"
      "res = Some (Inr ks)" "c' = c\<lparr>jc_jwks := Some ks, jc_fetchedAt := jc_end op\<rparr>"
  | (failed) e where "asked" "jc_fresh c (jc_start op) = None" "op = Slow (jc_start op) (Inl e) (jc_end op)"
      "c' = c" "\<forall>ks. res = Some (Inr ks) \<longrightarrow> jc_jwks c = Some ks"
  using assms
  by (cases op) (auto simp: jc_refresh_def Let_def split: option.splits sum.splits prod.splits)

lemma jc_start_later: "jc_clock T ops \<Longrightarrow> (s, r) \<in> set (jc_fetches ops c) \<Longrightarrow> T \<le> s"
proof (induction ops arbitrary: c T)
  case (Cons op ops)
  obtain c' res asked where step: "jc_step op c = (c', res, asked)" by (cases "jc_step op c")
  show ?case
  proof (cases "(s, r) \<in> set (jc_fetches ops c')")
    case True
    with Cons.IH [of "jc_end op" c'] Cons.prems(1) show ?thesis by simp
  next
    case False
    with Cons.prems step show ?thesis by (auto split: if_splits)
  qed
qed simp

text \<open>While the cache holds keys, the next fetch waits until they are out of date.\<close>

lemma jc_next_fetch:
  assumes "jc_jwks c \<noteq> None" and "(s, r) \<in> set (jc_fetches ops c)" and "jc_clock T ops"
  shows "jc_fetchedAt c + jc_ttl c \<le> s"
  using assms
proof (induction ops arbitrary: c T)
  case (Cons op ops)
  obtain c' res asked where step: "jc_step op c = (c', res, asked)" by (cases "jc_step op c")
  from step show ?case
  proof (cases rule: jc_step_cases)
    case unasked
    with Cons step show ?thesis by auto
  next
    case (got ks)
    then have "jc_fetchedAt c + jc_ttl c \<le> jc_start op"
      using Cons.prems(1) by (simp add: jc_fresh_None)
    moreover have "T \<le> s" and "jc_start op \<le> s"
      using jc_start_later [OF Cons.prems(3,2)]
        jc_start_later [of "jc_start op" "op # ops" s r c] Cons.prems(2,3) by simp_all
    ultimately show ?thesis by simp
  next
    case (failed e)
    then have "jc_fetchedAt c + jc_ttl c \<le> jc_start op"
      using Cons.prems(1) by (simp add: jc_fresh_None)
    moreover have "jc_start op \<le> s"
      using jc_start_later [of "jc_start op" "op # ops" s r c] Cons.prems(2,3) by simp
    ultimately show ?thesis by simp
  qed
qed simp

lemma jc_fetches_asked:
  "jc_step op c = (c', res, asked) \<Longrightarrow> asked \<Longrightarrow>
   jc_fetches (op # ops) c = (jc_start op, jc_success op) # jc_fetches ops c'"
  by simp

lemma jc_success_of:
  "op = Slow t (Inr ks) d \<Longrightarrow> jc_success op = Some d" "op = Slow t (Inl e) d \<Longrightarrow> jc_success op = None"
  by simp_all

lemma jc_fetches_spaced:
  assumes "jc_fetches ops c = xs @ (s1, Some d1) # ys" and "(s2, r) \<in> set ys" and "jc_clock T ops"
  shows "d1 + jc_ttl c \<le> s2"
  using assms
proof (induction ops arbitrary: c T xs)
  case (Cons op ops)
  obtain c' res asked where step: "jc_step op c = (c', res, asked)" by (cases "jc_step op c")
  have clock: "jc_clock (jc_end op) ops" using Cons.prems(3) by simp
  from step show ?case
  proof (cases rule: jc_step_cases)
    case unasked
    with Cons.IH [of c' xs] Cons.prems clock step show ?thesis by simp
  next
    case (got ks)
    then have all: "(jc_start op, Some (jc_end op)) # jc_fetches ops c' = xs @ (s1, Some d1) # ys"
      using Cons.prems(1) jc_fetches_asked [OF step] got(1) jc_success_of(1) [OF got(3)]
      by simp
    show ?thesis
    proof (cases xs)
      case Nil
      with all got(5) have "d1 = jc_fetchedAt c'" "(s2, r) \<in> set (jc_fetches ops c')" "jc_jwks c' \<noteq> None"
        using Cons.prems(2) by auto
      then show ?thesis using jc_next_fetch [of c' s2 r ops "jc_end op"] clock got(5) by simp
    next
      case (Cons x xs')
      with all Cons.IH [of c' xs'] Cons.prems(2) clock got(5) show ?thesis by simp
    qed
  next
    case (failed e)
    then have "(jc_start op, None) # jc_fetches ops c' = xs @ (s1, Some d1) # ys"
      using Cons.prems(1) jc_fetches_asked [OF step] failed(1) jc_success_of(2) [OF failed(3)]
      by simp
    then obtain xs' where "xs = (jc_start op, None) # xs'" "jc_fetches ops c' = xs' @ (s1, Some d1) # ys"
      by (cases xs) auto
    with Cons.IH [of c' xs'] Cons.prems(2) clock failed(4) show ?thesis by simp
  qed
qed simp

text \<open>What is served was provided; nothing out of date is, as long as the provider answers.\<close>

lemma jc_served_provided:
  assumes "(t, ks) \<in> set (jc_served ops c)" and "jc_clock T ops" and "0 < jc_ttl c"
    and "\<forall>ks. jc_jwks c = Some ks \<longrightarrow> (jc_fetchedAt c, ks) \<in> P"
  shows "\<exists>d. (d, ks) \<in> P \<union> provided ops \<and> (all_answered ops \<longrightarrow> t - d < jc_ttl c)"
  using assms
proof (induction ops arbitrary: c T P)
  case (Cons op ops)
  obtain c' res asked where step: "jc_step op c = (c', res, asked)" by (cases "jc_step op c")
  let ?P = "P \<union> provided [op]"
  have sub: "?P \<union> provided ops = P \<union> provided (op # ops)" by (auto simp: provided_def)
  have answered: "all_answered (op # ops) \<Longrightarrow> all_answered ops" by (auto simp: all_answered_def)
  have served: "jc_served (op # ops) c =
      (case res of Some (Inr ks) \<Rightarrow> [(jc_start op, ks)] | _ \<Rightarrow> []) @ jc_served ops c'"
    using step by simp
  have later: ?case if "(t, ks) \<in> set (jc_served ops c')" "\<forall>ks. jc_jwks c' = Some ks \<longrightarrow> (jc_fetchedAt c', ks) \<in> ?P"
  proof -
    have "\<exists>d. (d, ks) \<in> ?P \<union> provided ops \<and> (all_answered ops \<longrightarrow> t - d < jc_ttl c')"
      using Cons.IH [OF that(1) _ _ that(2), of "jc_end op"] Cons.prems(2,3) jc_step_ttl [OF step] by simp
    then show ?thesis using answered jc_step_ttl [OF step] unfolding sub by auto
  qed
  have now: "(t, ks) \<in> set (jc_served ops c') \<or> t = jc_start op \<and> res = Some (Inr ks)"
    using Cons.prems(1) unfolding served by (auto split: option.splits sum.splits)
  from step show ?case
  proof (cases rule: jc_step_cases)
    case unasked
    from now show ?thesis
    proof
      assume "t = jc_start op \<and> res = Some (Inr ks)"
      with unasked have "jc_jwks c = Some ks" "t - jc_fetchedAt c < jc_ttl c" by (auto simp: jc_fresh_Some)
      with Cons.prems(4) show ?thesis by blast
    qed (use unasked later Cons.prems(4) in auto)
  next
    case (got ks')
    have new: "(jc_end op, ks') \<in> provided [op]" by (subst got(3)) (auto simp: provided_def)
    from now show ?thesis
    proof
      assume "t = jc_start op \<and> res = Some (Inr ks)"
      with new got(4) Cons.prems(2,3) show ?thesis unfolding sub [symmetric] by auto
    qed (use got(5) new later in auto)
  next
    case (failed e)
    have "\<not> all_answered (op # ops)" by (subst failed(3)) (auto simp: all_answered_def)
    from now show ?thesis
    proof
      assume "t = jc_start op \<and> res = Some (Inr ks)"
      with failed(5) Cons.prems(4) \<open>\<not> all_answered (op # ops)\<close> show ?thesis by auto
    qed (use failed(4) later Cons.prems(4) in auto)
  qed
qed simp

section \<open>Properties\<close>

text \<open>
  C36. However many requests race for the cache, the provider is not asked again within the
  time to live of a key set it gave: the double check under the lock lets one of the
  waiting requests fetch and the others read its answer.
\<close>

theorem jwks_fetches_spaced:
  assumes "jc_fetches ops (NewJWKSCache uri ttl) = xs @ (s1, Some d1) # ys" and "(s2, r) \<in> set ys"
    and "jc_clock T ops"
  shows "d1 + (if ttl \<le> 0 then 5 * minute else ttl) \<le> s2"
  using jc_fetches_spaced [OF assms] by (simp add: NewJWKSCache_def)

text \<open>
  Every key set a request validates with was given by the provider, and it was given
  less than the time to live before, as long as no fetch fails.
\<close>

theorem jwks_served_fresh:
  assumes "(t, ks) \<in> set (jc_served ops (NewJWKSCache uri ttl))" and "jc_clock T ops"
  shows "\<exists>d. (d, ks) \<in> provided ops \<and>
    (all_answered ops \<longrightarrow> t - d < (if ttl \<le> 0 then 5 * minute else ttl))"
  using jc_served_provided [OF assms, of "{}"] by (simp add: NewJWKSCache_def not_le)

definition race_fetch :: "jc_op list" where
  "race_fetch = [Fast 0, Fast 0, Slow 1 (Inr [demo_key]) 2, Slow 3 (Inr []) 4, Fast 5, Slow 99 (Inr []) 99]"

theorem jwks_fetches_spaced_witness:
  "jc_fetches race_fetch (NewJWKSCache ''https://idp/keys'' 10) = [] @ (1, Some 2) # [(99, Some 99)] \<and> (2::int) + 10 \<le> 99"
proof -
  have f: "jc_fetches race_fetch (NewJWKSCache ''https://idp/keys'' 10) = [] @ (1, Some 2) # [(99, Some 99)]"
    by (simp add: race_fetch_def NewJWKSCache_def jc_refresh_def jc_fresh_def)
  moreover have "jc_clock 0 race_fetch" by (simp add: race_fetch_def)
  ultimately show ?thesis using jwks_fetches_spaced [OF f, of 99 "Some 99" 0] by simp
qed

theorem jwks_served_fresh_witness:
  "(5, [demo_key]) \<in> set (jc_served race_fetch (NewJWKSCache ''https://idp/keys'' 10)) \<and>
   (\<exists>d. (d, [demo_key]) \<in> provided race_fetch \<and> 5 - d < 10)"
proof -
  have f: "(5, [demo_key]) \<in> set (jc_served race_fetch (NewJWKSCache ''https://idp/keys'' 10))"
    by (simp add: race_fetch_def NewJWKSCache_def jc_refresh_def jc_fresh_def)
  moreover have "jc_clock 0 race_fetch" "all_answered race_fetch"
    by (auto simp: race_fetch_def all_answered_def)
  ultimately show ?thesis using jwks_served_fresh [OF f, of 0] by auto
qed

end
