(* ===== verification/Provider.thy ===== *)
theory Provider
  imports UrlQuery JwksCache
begin

text \<open>
  \<^verbatim>\<open>pkg/oidc/provider.go\<close>: discovery, the PKCE challenge, the authorization URL, the token
  endpoint and the polling of the device grant. The provider is a pair of functions for
  GET and POST; the decoders of its JSON answers are parameters.
\<close>

section \<open>Discovery\<close>

record ProviderConfig =
  p_Issuer :: string
  AuthorizationEndpoint :: string
  TokenEndpoint :: string
  UserinfoEndpoint :: string
  JWKSURI :: string
  DeviceAuthorizationEndpoint :: string

datatype provider_error =
    Unreachable
  | Status nat string
  | BadJSON
  | EmptyAuthorizationEndpoint
  | EmptyTokenEndpoint
  | NoDeviceEndpoint
  | MissingDeviceCode
  | DeviceCodeExpired
  | DeviceRejected string string
  | Cancelled

definition well_known :: "string \<Rightarrow> string" where
  "well_known issuerURL = trim_suffix issuerURL ''/'' @ ''/.well-known/openid-configuration''"

definition Discover ::
  "http_get \<Rightarrow> (string \<Rightarrow> ProviderConfig option) \<Rightarrow> string \<Rightarrow> provider_error + ProviderConfig" where
  "Discover get decode issuerURL =
     (case get (well_known issuerURL) of
        None \<Rightarrow> Inl Unreachable
      | Some (st, bdy) \<Rightarrow>
          if st \<noteq> StatusOK then Inl (Status st [])
          else (case decode bdy of
            None \<Rightarrow> Inl BadJSON
          | Some cfg \<Rightarrow>
              if AuthorizationEndpoint cfg = [] then Inl EmptyAuthorizationEndpoint
              else if TokenEndpoint cfg = [] then Inl EmptyTokenEndpoint
              else Inr cfg))"

section \<open>Tokens\<close>

record TokenResponse =
  AccessToken :: string
  TokenType :: string
  ExpiresIn :: int
  RefreshToken :: string
  IDToken :: string
  Scope :: string

record StoredToken =
  s_AccessToken :: string
  s_RefreshToken :: string
  s_IDToken :: string
  s_ExpiresAt :: time
  s_Issuer :: string
  s_ClientID :: string

definition IsExpired :: "StoredToken \<Rightarrow> time \<Rightarrow> bool" where
  "IsExpired t now \<longleftrightarrow> after now (s_ExpiresAt t - 30 * second)"

definition HasRefreshToken :: "StoredToken \<Rightarrow> bool" where
  "HasRefreshToken t \<longleftrightarrow> s_RefreshToken t \<noteq> []"

section \<open>PKCE and the authorization URL\<close>

record PKCEChallenge =
  Verifier :: string
  Challenge :: string
  ChallengeMethod :: string

text \<open>\<open>None\<close>: the random source fails.\<close>

definition GeneratePKCE :: "(string \<Rightarrow> string) \<Rightarrow> string option \<Rightarrow> PKCEChallenge option" where
  "GeneratePKCE sha rand =
     (case rand of
        None \<Rightarrow> None
      | Some verifierBytes \<Rightarrow>
          (let verifier = RawURLEncoding_Encode verifierBytes in
           Some \<lparr>Verifier = verifier, Challenge = RawURLEncoding_Encode (sha verifier),
                 ChallengeMethod = ''S256''\<rparr>))"

definition authorization_params ::
  "string \<Rightarrow> string \<Rightarrow> string list \<Rightarrow> string \<Rightarrow> PKCEChallenge \<Rightarrow> url_values" where
  "authorization_params clientID redirectURI scopes state pkce =
     [(''response_type'', ''code''), (''client_id'', clientID), (''redirect_uri'', redirectURI),
      (''scope'', join '' '' scopes), (''state'', state), (''code_challenge'', Challenge pkce),
      (''code_challenge_method'', ChallengeMethod pkce), (''access_type'', ''offline''), (''prompt'', ''consent'')]"

definition BuildAuthorizationURL ::
  "ProviderConfig \<Rightarrow> string \<Rightarrow> string \<Rightarrow> string list \<Rightarrow> string \<Rightarrow> PKCEChallenge \<Rightarrow> string" where
  "BuildAuthorizationURL provider clientID redirectURI scopes state pkce =
     AuthorizationEndpoint provider @ ''?'' @ Encode (authorization_params clientID redirectURI scopes state pkce)"

section \<open>The token endpoint\<close>

text \<open>\<^verbatim>\<open>postForm\<close>: the endpoint and the encoded form; no answer covers every transport error.\<close>

type_synonym http_post = "string \<Rightarrow> string \<Rightarrow> (nat \<times> string) option"

definition postForm :: "http_post \<Rightarrow> string \<Rightarrow> url_values \<Rightarrow> (nat \<times> string) option" where
  "postForm post endpoint data = post endpoint (Encode data)"

definition with_secret :: "string \<Rightarrow> url_values \<Rightarrow> url_values" where
  "with_secret clientSecret data =
     (if clientSecret \<noteq> [] then values_Set ''client_secret'' clientSecret data else data)"

definition with_scope :: "string list \<Rightarrow> url_values \<Rightarrow> url_values" where
  "with_scope scopes data = (if scopes \<noteq> [] then values_Set ''scope'' (join '' '' scopes) data else data)"

text \<open>What both grants do with the answer.\<close>

definition token_answer ::
  "(string \<Rightarrow> TokenResponse option) \<Rightarrow> (nat \<times> string) option \<Rightarrow> provider_error + TokenResponse" where
  "token_answer decode ans =
     (case ans of
        None \<Rightarrow> Inl Unreachable
      | Some (st, bdy) \<Rightarrow>
          if st \<noteq> StatusOK then Inl (Status st bdy)
          else (case decode bdy of None \<Rightarrow> Inl BadJSON | Some t \<Rightarrow> Inr t))"

definition exchange_form :: "string \<Rightarrow> string \<Rightarrow> string \<Rightarrow> string \<Rightarrow> PKCEChallenge \<Rightarrow> url_values" where
  "exchange_form clientID clientSecret authCode redirectURI pkce =
     with_secret clientSecret
       [(''grant_type'', ''authorization_code''), (''code'', authCode), (''redirect_uri'', redirectURI),
        (''client_id'', clientID), (''code_verifier'', Verifier pkce)]"

definition ExchangeCode ::
  "http_post \<Rightarrow> (string \<Rightarrow> TokenResponse option) \<Rightarrow> ProviderConfig \<Rightarrow> string \<Rightarrow> string \<Rightarrow> string \<Rightarrow> string
     \<Rightarrow> PKCEChallenge \<Rightarrow> provider_error + TokenResponse" where
  "ExchangeCode post decode provider clientID clientSecret authCode redirectURI pkce =
     token_answer decode
       (postForm post (TokenEndpoint provider) (exchange_form clientID clientSecret authCode redirectURI pkce))"

definition refresh_form :: "string \<Rightarrow> string \<Rightarrow> string \<Rightarrow> string list \<Rightarrow> url_values" where
  "refresh_form clientID clientSecret refreshToken scopes =
     with_secret clientSecret (with_scope scopes
       [(''grant_type'', ''refresh_token''), (''refresh_token'', refreshToken), (''client_id'', clientID)])"

definition RefreshAccessToken ::
  "http_post \<Rightarrow> (string \<Rightarrow> TokenResponse option) \<Rightarrow> ProviderConfig \<Rightarrow> string \<Rightarrow> string \<Rightarrow> string
     \<Rightarrow> string list \<Rightarrow> provider_error + TokenResponse" where
  "RefreshAccessToken post decode provider clientID clientSecret refreshToken scopes =
     token_answer decode
       (postForm post (TokenEndpoint provider) (refresh_form clientID clientSecret refreshToken scopes))"

section \<open>The device grant\<close>

record DeviceAuth =
  DeviceCode :: string
  UserCode :: string
  VerificationURI :: string
  VerificationURIComplete :: string
  d_ExpiresIn :: int
  Interval :: int

definition RequestDeviceCode ::
  "http_post \<Rightarrow> (string \<Rightarrow> DeviceAuth option) \<Rightarrow> ProviderConfig \<Rightarrow> string \<Rightarrow> string \<Rightarrow> string list
     \<Rightarrow> provider_error + DeviceAuth" where
  "RequestDeviceCode post decode provider clientID clientSecret scopes =
     (if DeviceAuthorizationEndpoint provider = [] then Inl NoDeviceEndpoint
      else case postForm post (DeviceAuthorizationEndpoint provider)
             (with_secret clientSecret (with_scope scopes [(''client_id'', clientID)])) of
        None \<Rightarrow> Inl Unreachable
      | Some (st, bdy) \<Rightarrow>
          if st \<noteq> StatusOK then Inl (Status st bdy)
          else (case decode bdy of
            None \<Rightarrow> Inl BadJSON
          | Some auth \<Rightarrow>
              if DeviceCode auth = [] \<or> UserCode auth = [] then Inl MissingDeviceCode
              else let auth1 = (if Interval auth \<le> 0 then auth\<lparr>Interval := 5\<rparr> else auth);
                       auth2 = (if d_ExpiresIn auth1 \<le> 0 then auth1\<lparr>d_ExpiresIn := 600\<rparr> else auth1)
                in Inr auth2))"

text \<open>A duration is an \<^verbatim>\<open>int64\<close>; the products with a second wrap around.\<close>

definition wrap64 :: "int \<Rightarrow> int" where
  "wrap64 x = (x + 2 ^ 63) mod 2 ^ 64 - 2 ^ 63"

definition device_form :: "string \<Rightarrow> string \<Rightarrow> DeviceAuth \<Rightarrow> url_values" where
  "device_form clientID clientSecret auth =
     with_secret clientSecret
       [(''grant_type'', ''urn:ietf:params:oauth:grant-type:device_code''),
        (''device_code'', DeviceCode auth), (''client_id'', clientID)]"

text \<open>
  The surroundings of the loop: the answer to a poll sent at a time and the time it is
  there, whether the context ends during a wait, and the time a timer fires.
\<close>

record poll_world =
  pw_post :: "time \<Rightarrow> string \<Rightarrow> string \<Rightarrow> (nat \<times> string) option \<times> time"
  pw_cancelled :: "time \<Rightarrow> duration \<Rightarrow> bool"
  pw_wake :: "time \<Rightarrow> duration \<Rightarrow> time"

text \<open>One round after the deadline check: the end of the login, or the next interval.\<close>

definition poll_answer ::
  "(string \<Rightarrow> TokenResponse option) \<Rightarrow> (string \<Rightarrow> (string \<times> string) option) \<Rightarrow> duration
     \<Rightarrow> (nat \<times> string) option \<Rightarrow> (provider_error + TokenResponse) + duration" where
  "poll_answer decode decode_error interval ans =
     (case ans of
        None \<Rightarrow> Inl (Inl Unreachable)
      | Some (st, bdy) \<Rightarrow>
          if st = StatusOK
          then (case decode bdy of None \<Rightarrow> Inl (Inl BadJSON) | Some t \<Rightarrow> Inl (Inr t))
          else (case decode_error bdy of
            None \<Rightarrow> Inl (Inl (Status st bdy))
          | Some (e, desc) \<Rightarrow>
              if e = [] then Inl (Inl (Status st bdy))
              else if e = ''authorization_pending'' then Inr interval
              else if e = ''slow_down'' then Inr (wrap64 (interval + 5 * second))
              else Inl (Inl (DeviceRejected e desc))))"

text \<open>
  The loop with fuel; the result carries the times of the polls. \<open>None\<close> is only the end of
  the fuel.
\<close>

fun poll_loop ::
  "nat \<Rightarrow> poll_world \<Rightarrow> (string \<Rightarrow> TokenResponse option) \<Rightarrow> (string \<Rightarrow> (string \<times> string) option)
     \<Rightarrow> string \<Rightarrow> string \<Rightarrow> time \<Rightarrow> duration \<Rightarrow> time
     \<Rightarrow> ((provider_error + TokenResponse) \<times> time list) option" where
  "poll_loop 0 w decode decode_error endpoint form deadline interval now = None"
| "poll_loop (Suc n) w decode decode_error endpoint form deadline interval now =
     (if after now deadline then Some (Inl DeviceCodeExpired, [])
      else let (ans, t) = pw_post w now endpoint form in
        case poll_answer decode decode_error interval ans of
          Inl r \<Rightarrow> Some (r, [now])
        | Inr interval' \<Rightarrow>
            if pw_cancelled w t interval' then Some (Inl Cancelled, [now])
            else map_option (\<lambda>(r, ts). (r, now # ts))
              (poll_loop n w decode decode_error endpoint form deadline interval' (pw_wake w t interval')))"

definition PollDeviceToken ::
  "nat \<Rightarrow> poll_world \<Rightarrow> (string \<Rightarrow> TokenResponse option) \<Rightarrow> (string \<Rightarrow> (string \<times> string) option)
     \<Rightarrow> ProviderConfig \<Rightarrow> string \<Rightarrow> string \<Rightarrow> DeviceAuth \<Rightarrow> time
     \<Rightarrow> ((provider_error + TokenResponse) \<times> time list) option" where
  "PollDeviceToken fuel w decode decode_error provider clientID clientSecret auth now =
     poll_loop fuel w decode decode_error (TokenEndpoint provider)
       (Encode (device_form clientID clientSecret auth))
       (now + wrap64 (d_ExpiresIn auth * second)) (wrap64 (Interval auth * second)) now"

section \<open>Polling ends\<close>

text \<open>What the clock promises: answers come after questions, timers do not fire early.\<close>

definition clock_ok :: "poll_world \<Rightarrow> bool" where
  "clock_ok w \<longleftrightarrow> (\<forall>t e f. t \<le> snd (pw_post w t e f)) \<and> (\<forall>t d. t + d \<le> pw_wake w t d)"

lemma wrap64_id: "- (2 ^ 63) \<le> x \<Longrightarrow> x < 2 ^ 63 \<Longrightarrow> wrap64 x = x"
  by (simp add: wrap64_def)

lemma poll_answer_interval:
  assumes "poll_answer decode decode_error i ans = Inr i'" and "0 < i" and "i < 2 ^ 62"
  shows "i' = i \<or> i' = i + 5 * second"
  using assms
  by (auto simp: poll_answer_def wrap64_id second_def split: option.splits prod.splits if_splits)

text \<open>
  The interval never shrinks below the first one, \<open>i0\<close>, and never grows faster than the time
  spent waiting, so it cannot wrap before the deadline.
\<close>

lemma poll_step:
  assumes "clock_ok w" and "poll_answer decode decode_error i ans = Inr i'"
    and "pw_post w now e f = (ans, t)" and "0 < i" and "i \<le> I + (now - s)" and "now \<le> D"
    and "D - s + I < 2 ^ 62"
  defines "now' \<equiv> pw_wake w t i'"
  shows "i \<le> i'" and "now + i \<le> now'" and "i' \<le> I + (now' - s)"
proof -
  have "i < 2 ^ 62" using assms(5-7) by linarith
  with assms(2,4) have "i' = i \<or> i' = i + 5 * second" by (rule poll_answer_interval)
  moreover have "now \<le> t" using assms(1,3) by (metis clock_ok_def snd_conv)
  moreover have "t + i' \<le> now'" using assms(1) by (simp add: clock_ok_def now'_def)
  ultimately show "i \<le> i'" "now + i \<le> now'" "i' \<le> I + (now' - s)"
    using assms(4,5) by (auto simp: second_def)
qed

lemma poll_loop_ends:
  assumes "clock_ok w" and "0 < i0" and "i0 \<le> i" and "i \<le> I + (now - s)" and "D - s + I < 2 ^ 62"
    and "D - now < int n * i0"
  shows "poll_loop (Suc n) w decode decode_error e f D i now \<noteq> None"
  using assms(3,4,6)
proof (induction n arbitrary: i now)
  case 0
  then show ?case by simp
next
  case (Suc n)
  obtain ans t where post: "pw_post w now e f = (ans, t)" by fastforce
  show ?case
  proof (cases "after now D")
    case True
    then show ?thesis by simp
  next
    case False
    show ?thesis
    proof (cases "poll_answer decode decode_error i ans")
      case (Inl r)
      with post False show ?thesis by simp
    next
      case (Inr i')
      let ?now' = "pw_wake w t i'"
      have "0 < i" using assms(2) Suc.prems(1) by simp
      note step = poll_step [OF assms(1) Inr post this Suc.prems(2) _ assms(5)]
      have "now \<le> D" using False by simp
      note step = step [OF this]
      have "int (Suc n) * i0 = int n * i0 + i0" by (simp add: algebra_simps)
      then have "D - ?now' < int n * i0" using step(2) Suc.prems(1,3) by linarith
      moreover have "i0 \<le> i'" using step(1) Suc.prems(1) by simp
      ultimately have "poll_loop (Suc n) w decode decode_error e f D i' ?now' \<noteq> None"
        using Suc.IH step(3) by blast
      with post False Inr show ?thesis by (simp del: poll_loop.simps(2) add: poll_loop.simps(2) [of "Suc n"])
    qed
  qed
qed

lemma poll_loop_times:
  assumes "clock_ok w" and "0 < i0" and "D - s + I < 2 ^ 62"
    and "poll_loop n w decode decode_error e f D i now = Some (r, ts)"
    and "i0 \<le> i" and "i \<le> I + (now - s)"
  shows "(\<forall>t \<in> set ts. now \<le> t \<and> t \<le> D) \<and> sorted_wrt (\<lambda>a b. a + i0 \<le> b) ts"
  using assms(4-6)
proof (induction n arbitrary: i now r ts)
  case (Suc n)
  obtain ans t where post: "pw_post w now e f = (ans, t)" by fastforce
  show ?case
  proof (cases "after now D")
    case True
    with Suc.prems(1) show ?thesis by simp
  next
    case False
    show ?thesis
    proof (cases "poll_answer decode decode_error i ans")
      case (Inl r')
      with post False Suc.prems(1) show ?thesis by auto
    next
      case (Inr i')
      let ?now' = "pw_wake w t i'"
      have i: "0 < i" and D: "now \<le> D" using assms(2) Suc.prems(2) False by simp_all
      note step = poll_step [OF assms(1) Inr post i Suc.prems(3) D assms(3)]
      show ?thesis
      proof (cases "pw_cancelled w t i'")
        case True
        with post False Inr Suc.prems(1) show ?thesis by auto
      next
        case going: False
        then obtain ts' where ts: "poll_loop n w decode decode_error e f D i' ?now' = Some (r, ts')"
          "ts = now # ts'"
          using post False Inr Suc.prems(1) by auto
        have "i0 \<le> i'" using step(1) Suc.prems(2) by simp
        note IH = Suc.IH [OF ts(1) this step(3)]
        have "now + i0 \<le> ?now'" using step(2) Suc.prems(2) by simp
        with IH D assms(2) show ?thesis by (force simp: ts(2))
      qed
    qed
  qed
qed simp

lemma PollDeviceToken_ends:
  assumes "clock_ok w" and "RequestDeviceCode post ddecode provider cid csec scopes = Inr auth"
    and "Interval auth \<le> 10 ^ 9" and "d_ExpiresIn auth \<le> 10 ^ 9"
    and "nat (d_ExpiresIn auth div Interval auth) + 2 \<le> fuel"
  shows "\<exists>r ts. PollDeviceToken fuel w decode decode_error provider cid csec auth now = Some (r, ts) \<and>
    (\<forall>t \<in> set ts. now \<le> t \<and> t \<le> now + d_ExpiresIn auth * second) \<and>
    sorted_wrt (\<lambda>a b. a + Interval auth * second \<le> b) ts"
proof -
  let ?i = "Interval auth * second" and ?D = "now + d_ExpiresIn auth * second"
  have pos: "0 < Interval auth" "0 < d_ExpiresIn auth"
    using assms(2) by (auto simp: RequestDeviceCode_def Let_def split: option.splits if_splits prod.splits)
  have wrap: "wrap64 ?i = ?i" "wrap64 (d_ExpiresIn auth * second) = d_ExpiresIn auth * second"
    using pos assms(3,4) by (simp_all add: wrap64_id second_def)
  have i: "0 < ?i" "?D - now + ?i < 2 ^ 62" using pos assms(3,4) by (simp_all add: second_def)
  obtain n where n: "fuel = Suc n" "nat (d_ExpiresIn auth div Interval auth) + 1 \<le> n"
    using assms(5) by (cases fuel) auto
  have "d_ExpiresIn auth < (d_ExpiresIn auth div Interval auth + 1) * Interval auth"
    using pos(1) by (metis add.commute distrib_right div_mult_mod_eq less_add_same_cancel2 mult_1 pos_mod_bound add_strict_left_mono)
  also have "\<dots> \<le> int n * Interval auth"
    using n(2) pos by (intro mult_right_mono) (auto simp: pos_imp_zdiv_nonneg_iff)
  finally have "d_ExpiresIn auth * second < int n * Interval auth * second"
    by (rule mult_strict_right_mono) simp
  then have "?D - now < int n * ?i" by (simp add: mult.assoc)
  then have "poll_loop (Suc n) w decode decode_error (TokenEndpoint provider)
      (Encode (device_form cid csec auth)) ?D ?i now \<noteq> None"
    using i by (intro poll_loop_ends [OF assms(1) i(1) _ _ i(2)]) simp_all
  then obtain r ts where loop: "poll_loop fuel w decode decode_error (TokenEndpoint provider)
      (Encode (device_form cid csec auth)) ?D ?i now = Some (r, ts)"
    using n(1) by (metis not_None_eq surj_pair)
  have "(\<forall>t \<in> set ts. now \<le> t \<and> t \<le> ?D) \<and> sorted_wrt (\<lambda>a b. a + ?i \<le> b) ts"
    by (rule poll_loop_times [OF assms(1) i(1) i(2) loop]) simp_all
  with loop show ?thesis by (simp add: PollDeviceToken_def wrap)
qed

section \<open>Properties\<close>



definition demo_provider :: ProviderConfig where
  "demo_provider = \<lparr>p_Issuer = ''https://idp'', AuthorizationEndpoint = ''https://idp/auth'',
     TokenEndpoint = ''https://idp/token'', UserinfoEndpoint = [], JWKSURI = ''https://idp/keys'',
     DeviceAuthorizationEndpoint = ''https://idp/device''\<rparr>"

definition demo_auth :: DeviceAuth where
  "demo_auth = \<lparr>DeviceCode = ''dc'', UserCode = ''uc'', VerificationURI = [], VerificationURIComplete = [],
     d_ExpiresIn = 12, Interval = 5\<rparr>"

definition demo_pending :: poll_world where
  "demo_pending = \<lparr>pw_post = (\<lambda>t e f. (Some (400, ''pending''), t)), pw_cancelled = (\<lambda>t d. False),
     pw_wake = (\<lambda>t d. t + d)\<rparr>"

lemma demo_device: "RequestDeviceCode (\<lambda>u f. Some (200, [])) (\<lambda>b. Some demo_auth) demo_provider ''c'' [] [] = Inr demo_auth"
  by (simp add: RequestDeviceCode_def postForm_def demo_provider_def demo_auth_def)


end
