(* ===== verification/AdminLogin.thy ===== *)
theory AdminLogin
  imports Http Encoding
begin

text \<open>
  \<^verbatim>\<open>pkg/server/admin_dashboard.go\<close>, the two stores behind the dashboard: the sessions of
  logged-in administrators and the failed logins per client. Each operation takes the
  clock reading it makes.
\<close>

section \<open>Sessions\<close>

definition sessionTimeout :: duration where "sessionTimeout = 24 * hour"

record session =
  ss_token :: string
  ss_createdAt :: time

type_synonym sessionStore = "string \<Rightarrow> session option"

definition newSessionStore :: sessionStore where
  "newSessionStore = Map.empty"

definition generateToken :: "string option \<Rightarrow> string option" where
  "generateToken rand = (case rand of None \<Rightarrow> None | Some b \<Rightarrow> Some (URLEncoding_Encode (take 32 b)))"

definition session_live :: "session \<Rightarrow> time \<Rightarrow> bool" where
  "session_live s now \<longleftrightarrow> \<not> now - ss_createdAt s > sessionTimeout"

definition ss_create :: "sessionStore \<Rightarrow> string option \<Rightarrow> time \<Rightarrow> sessionStore \<times> string option" where
  "ss_create st rand now =
     (case generateToken rand of
        None \<Rightarrow> (st, None)
      | Some tok \<Rightarrow>
          (let kept = (\<lambda>i. case st i of
                 None \<Rightarrow> None | Some s \<Rightarrow> if now - ss_createdAt s > sessionTimeout then None else Some s)
           in (kept(tok \<mapsto> \<lparr>ss_token = tok, ss_createdAt = now\<rparr>), Some tok)))"

definition ss_validate :: "sessionStore \<Rightarrow> string \<Rightarrow> time \<Rightarrow> bool" where
  "ss_validate st tok now = (case st tok of None \<Rightarrow> False | Some s \<Rightarrow> session_live s now)"

definition ss_delete :: "sessionStore \<Rightarrow> string \<Rightarrow> sessionStore" where
  "ss_delete st tok = st(tok := None)"

section \<open>Failed logins\<close>

definition maxLoginAttempts :: int where "maxLoginAttempts = 5"
definition lockoutDuration :: duration where "lockoutDuration = 15 * minute"
definition failedAttemptWindow :: duration where "failedAttemptWindow = 15 * minute"

text \<open>A zero \<^verbatim>\<open>time.Time\<close> is \<open>None\<close>; the time since then is longer than any window.\<close>

record loginAttempt =
  at_count :: int
  at_lastFail :: "time option"
  at_lockedOut :: bool
  at_lockoutAt :: "time option"

type_synonym bruteForceProtector = "string \<Rightarrow> loginAttempt option"

definition newBruteForceProtector :: bruteForceProtector where
  "newBruteForceProtector = Map.empty"

definition longer_ago :: "duration \<Rightarrow> time option \<Rightarrow> time \<Rightarrow> bool" where
  "longer_ago d t now = (case t of None \<Rightarrow> True | Some u \<Rightarrow> now - u > d)"

definition isLockedOut :: "bruteForceProtector \<Rightarrow> string \<Rightarrow> time \<Rightarrow> bool" where
  "isLockedOut b ip now =
     (case b ip of
        None \<Rightarrow> False
      | Some a \<Rightarrow>
          if at_lockedOut a then (if longer_ago lockoutDuration (at_lockoutAt a) now then False else True)
          else False)"

definition recordFailed :: "bruteForceProtector \<Rightarrow> string \<Rightarrow> time \<Rightarrow> bruteForceProtector" where
  "recordFailed b ip now =
     (let a = (case b ip of
            Some a \<Rightarrow> a
          | None \<Rightarrow> \<lparr>at_count = 0, at_lastFail = None, at_lockedOut = False, at_lockoutAt = None\<rparr>);
          a1 = (if longer_ago failedAttemptWindow (at_lastFail a) now
                then a\<lparr>at_count := 0, at_lockedOut := False\<rparr> else a);
          a2 = a1\<lparr>at_count := at_count a1 + 1, at_lastFail := Some now\<rparr>;
          a3 = (if at_count a2 \<ge> maxLoginAttempts
                then a2\<lparr>at_lockedOut := True, at_lockoutAt := Some now\<rparr> else a2)
      in b(ip \<mapsto> a3))"

definition recordSuccess :: "bruteForceProtector \<Rightarrow> string \<Rightarrow> bruteForceProtector" where
  "recordSuccess b ip = b(ip := None)"

definition getRemainingLockoutTime :: "bruteForceProtector \<Rightarrow> string \<Rightarrow> time \<Rightarrow> duration" where
  "getRemainingLockoutTime b ip now =
     (case b ip of
        None \<Rightarrow> 0
      | Some a \<Rightarrow>
          if \<not> at_lockedOut a then 0
          else (case at_lockoutAt a of
            None \<Rightarrow> 0
          | Some t \<Rightarrow> let remaining = lockoutDuration - (now - t) in if remaining < 0 then 0 else remaining))"

section \<open>The address a login counts against\<close>

definition getClientIP :: "request \<Rightarrow> string" where
  "getClientIP r =
     (let xff = header_get r ''X-Forwarded-For'' in
      if xff \<noteq> [] then
        (case before_char (CHR '','') xff of Some first \<Rightarrow> trim_space first | None \<Rightarrow> xff)
      else let xri = header_get r ''X-Real-Ip'' in
        if xri \<noteq> [] then xri
        else (case SplitHostPort (RemoteAddr r) of Some (host, port) \<Rightarrow> host | None \<Rightarrow> RemoteAddr r))"

section \<open>A history of sessions\<close>

datatype ss_op = Create string time | Remove string

fun ss_time :: "ss_op \<Rightarrow> time list" where
  "ss_time (Create bytes t) = [t]"
| "ss_time (Remove tok) = []"

fun ss_step :: "ss_op \<Rightarrow> sessionStore \<Rightarrow> sessionStore" where
  "ss_step (Create bytes t) st = fst (ss_create st (Some bytes) t)"
| "ss_step (Remove tok) st = ss_delete st tok"

text \<open>When the token was last handed out, unless it was removed since.\<close>

fun issued_at :: "string \<Rightarrow> ss_op list \<Rightarrow> time option \<Rightarrow> time option" where
  "issued_at tok [] t = t"
| "issued_at tok (Create bytes now # ops) t =
     issued_at tok ops (if URLEncoding_Encode (take 32 bytes) = tok then Some now else t)"
| "issued_at tok (Remove tok' # ops) t = issued_at tok ops (if tok' = tok then None else t)"

definition ss_sim :: "sessionStore \<Rightarrow> (string \<Rightarrow> time option) \<Rightarrow> time \<Rightarrow> bool" where
  "ss_sim st h now \<longleftrightarrow>
     (\<forall>tok. map_option ss_createdAt (st tok) = h tok \<or>
        st tok = None \<and> (\<exists>t. h tok = Some t \<and> now - t > sessionTimeout))"

lemma ss_simI:
  "(\<And>tok. map_option ss_createdAt (st tok) = h tok \<or>
      st tok = None \<and> (\<exists>t. h tok = Some t \<and> now - t > sessionTimeout)) \<Longrightarrow> ss_sim st h now"
  by (simp add: ss_sim_def)

lemma ss_sim_cases:
  assumes "ss_sim st h now"
  obtains (kept) "map_option ss_createdAt (st tok) = h tok"
  | (swept) t where "st tok = None" "h tok = Some t" "now - t > sessionTimeout"
  using assms unfolding ss_sim_def by blast

lemma ss_sim_later: "ss_sim st h now0 \<Longrightarrow> now0 \<le> now \<Longrightarrow> ss_sim st h now"
proof (rule ss_simI)
  fix tok assume "ss_sim st h now0" "now0 \<le> now"
  then show "map_option ss_createdAt (st tok) = h tok \<or>
      st tok = None \<and> (\<exists>t. h tok = Some t \<and> now - t > sessionTimeout)"
    by (cases rule: ss_sim_cases [of st h now0 tok]) auto
qed

lemma ss_sim_validate:
  assumes "ss_sim st h now"
  shows "ss_validate st tok now \<longleftrightarrow> (\<exists>t. h tok = Some t \<and> now - t \<le> sessionTimeout)"
  using assms
proof (cases rule: ss_sim_cases [of st h now tok])
  case kept
  then have "h tok = map_option ss_createdAt (st tok)" by simp
  then show ?thesis by (cases "st tok") (simp_all add: ss_validate_def session_live_def not_less)
qed (simp add: ss_validate_def)

lemma ss_sim_Remove: "ss_sim st h now \<Longrightarrow> ss_sim (ss_delete st tok) (h(tok := None)) now"
  by (auto simp: ss_sim_def ss_delete_def)

lemma ss_sim_Create:
  assumes "ss_sim st h now"
  shows "ss_sim (fst (ss_create st (Some b) now)) (h(URLEncoding_Encode (take 32 b) \<mapsto> now)) now"
proof (rule ss_simI)
  fix tok
  let ?st = "fst (ss_create st (Some b) now)" and ?h = "h(URLEncoding_Encode (take 32 b) \<mapsto> now)"
  from assms show "map_option ss_createdAt (?st tok) = ?h tok \<or>
      ?st tok = None \<and> (\<exists>t. ?h tok = Some t \<and> now - t > sessionTimeout)"
  proof (cases rule: ss_sim_cases [of st h now tok])
    case kept
    then show ?thesis by (cases "st tok") (auto simp: ss_create_def generateToken_def)
  next
    case (swept t)
    then show ?thesis by (simp add: ss_create_def generateToken_def)
  qed
qed

lemma ss_sim_run:
  "ss_sim st h now0 \<Longrightarrow> sorted (now0 # concat (map ss_time ops) @ [now]) \<Longrightarrow>
   ss_sim (fold ss_step ops st) (\<lambda>tok. issued_at tok ops (h tok)) now"
proof (induction ops arbitrary: st h now0)
  case Nil
  then show ?case using ss_sim_later by simp
next
  case (Cons op ops)
  show ?case
  proof (cases op)
    case (Create b t)
    with Cons.prems have le: "now0 \<le> t" "sorted (t # concat (map ss_time ops) @ [now])" by auto
    have "(\<lambda>tok. issued_at tok ops ((h(URLEncoding_Encode (take 32 b) \<mapsto> t)) tok)) = (\<lambda>tok. issued_at tok (op # ops) (h tok))"
      using Create by auto
    with Cons.IH [OF ss_sim_Create [OF ss_sim_later [OF Cons.prems(1) le(1)]] le(2), of b] Create show ?thesis by simp
  next
    case (Remove tok')
    have "(\<lambda>tok. issued_at tok ops ((h(tok' := None)) tok)) = (\<lambda>tok. issued_at tok (op # ops) (h tok))"
      using Remove by auto
    with Cons.IH [OF ss_sim_Remove [OF Cons.prems(1)], of tok'] Cons.prems(2) Remove show ?thesis by simp
  qed
qed

section \<open>A run of login attempts\<close>

datatype bf_op = Guess string time bool

datatype verdict = Refused | Wrong | Right

fun bf_time :: "bf_op \<Rightarrow> time" where
  "bf_time (Guess ip t good) = t"

fun bf_step :: "bruteForceProtector \<Rightarrow> bf_op \<Rightarrow> bruteForceProtector \<times> verdict" where
  "bf_step b (Guess ip t good) =
     (if isLockedOut b ip t then (b, Refused)
      else if good then (recordSuccess b ip, Right)
      else (recordFailed b ip t, Wrong))"

fun bf_run :: "bruteForceProtector \<Rightarrow> bf_op list \<Rightarrow> (string \<times> time \<times> verdict) list" where
  "bf_run b [] = []"
| "bf_run b (Guess ip t good # ops) =
     (let (b1, v) = bf_step b (Guess ip t good) in (ip, t, v) # bf_run b1 ops)"

definition wrong_times :: "string \<Rightarrow> (string \<times> time \<times> verdict) list \<Rightarrow> time list" where
  "wrong_times ip trace = map (fst \<circ> snd) (filter (\<lambda>(i, t, v). i = ip \<and> v = Wrong) trace)"

text \<open>What the entry of an address knows of the wrong guesses \<open>cs\<close> made from there.\<close>

definition bf_inv :: "loginAttempt option \<Rightarrow> time list \<Rightarrow> bool" where
  "bf_inv e cs \<longleftrightarrow>
     (\<forall>x. length (filter (\<lambda>s. x \<le> s \<and> s \<le> x + lockoutDuration) cs) \<le> 5) \<and>
     (case e of
        None \<Rightarrow> cs = []
      | Some a \<Rightarrow>
          (\<exists>l. at_lastFail a = Some l \<and> l \<in> set cs \<and> (\<forall>s \<in> set cs. s \<le> l) \<and> (at_lockedOut a \<longrightarrow> at_lockoutAt a = Some l) \<and>
             (at_lockedOut a \<longleftrightarrow> 5 \<le> at_count a) \<and>
             (\<forall>x \<ge> l - lockoutDuration. int (length (filter (\<lambda>s. x \<le> s) cs)) \<le> at_count a)))"

lemma bf_inv_None: "bf_inv None []"
  by (simp add: bf_inv_def)

lemma bf_inv_Some:
  assumes "bf_inv (Some a) cs"
  obtains l where "at_lastFail a = Some l" "l \<in> set cs" "\<forall>s \<in> set cs. s \<le> l"
    "at_lockedOut a \<Longrightarrow> at_lockoutAt a = Some l" "at_lockedOut a \<longleftrightarrow> 5 \<le> at_count a"
    "\<forall>x \<ge> l - lockoutDuration. int (length (filter (\<lambda>s. x \<le> s) cs)) \<le> at_count a"
  using assms by (auto simp: bf_inv_def)

text \<open>The count a new failure starts from: nothing, or that of a chain that is not yet locked out.\<close>

definition bf_chain :: "loginAttempt option \<Rightarrow> time \<Rightarrow> int" where
  "bf_chain e t = (case e of None \<Rightarrow> 0
    | Some a \<Rightarrow> if longer_ago failedAttemptWindow (at_lastFail a) t then 0 else at_count a)"

lemma same_window: "failedAttemptWindow = lockoutDuration"
  by (simp add: failedAttemptWindow_def lockoutDuration_def)

lemma bf_chain_recent:
  assumes "bf_inv e cs" and "\<forall>s \<in> set cs. s \<le> t" and "t - lockoutDuration \<le> x"
  shows "int (length (filter (\<lambda>s. x \<le> s) cs)) \<le> bf_chain e t"
proof (cases e)
  case None
  with assms(1) show ?thesis by (simp add: bf_inv_def bf_chain_def)
next
  case (Some a)
  with assms(1) obtain l where l: "at_lastFail a = Some l" "l \<in> set cs" "\<forall>s \<in> set cs. s \<le> l"
    "\<forall>x \<ge> l - lockoutDuration. int (length (filter (\<lambda>s. x \<le> s) cs)) \<le> at_count a"
    using bf_inv_Some by metis
  show ?thesis
  proof (cases "t - l > lockoutDuration")
    case True
    with l(3) assms(3) have "filter (\<lambda>s. x \<le> s) cs = []" by (fastforce simp: filter_empty_conv)
    then show ?thesis using Some True l(1) by (simp add: bf_chain_def longer_ago_def same_window)
  next
    case False
    then have "bf_chain e t = at_count a" using Some l(1) by (simp add: bf_chain_def longer_ago_def same_window)
    moreover have "l - lockoutDuration \<le> x" using l(2) assms(2,3) by fastforce
    ultimately show ?thesis using l(4) by simp
  qed
qed

lemma recordFailed_entry:
  assumes "bf_inv (b ip) cs" and "\<not> isLockedOut b ip t"
  obtains a where "recordFailed b ip t ip = Some a" "at_lastFail a = Some t"
    "at_count a = bf_chain (b ip) t + 1" "at_count a \<le> 5" "at_lockedOut a \<longleftrightarrow> 5 \<le> at_count a"
    "at_lockedOut a \<Longrightarrow> at_lockoutAt a = Some t"
proof -
  obtain a where a: "recordFailed b ip t ip = Some a" by (simp add: recordFailed_def Let_def)
  have "at_lastFail a = Some t" "at_count a = bf_chain (b ip) t + 1"
    using a by (auto simp: recordFailed_def bf_chain_def longer_ago_def Let_def split: option.splits)
  moreover have "at_count a \<le> 5 \<and> (at_lockedOut a \<longleftrightarrow> 5 \<le> at_count a) \<and> (at_lockedOut a \<longrightarrow> at_lockoutAt a = Some t)"
  proof (cases "b ip")
    case None
    with a show ?thesis by (auto simp: recordFailed_def longer_ago_def maxLoginAttempts_def)
  next
    case (Some e)
    with assms(1) obtain l where l: "at_lastFail e = Some l" "at_lockedOut e \<Longrightarrow> at_lockoutAt e = Some l"
      "at_lockedOut e \<longleftrightarrow> 5 \<le> at_count e"
      using bf_inv_Some by metis
    show ?thesis
    proof (cases "t - l > lockoutDuration")
      case True
      with a Some l(1) show ?thesis by (auto simp: recordFailed_def longer_ago_def maxLoginAttempts_def same_window)
    next
      case False
      then have "\<not> at_lockedOut e" using assms(2) Some l(2) by (auto simp: isLockedOut_def longer_ago_def)
      with a Some l(1,3) False show ?thesis
        by (auto simp: recordFailed_def longer_ago_def maxLoginAttempts_def same_window Let_def split: if_splits)
    qed
  qed
  ultimately show thesis using a by (intro that) blast+
qed

lemma bf_inv_Wrong:
  assumes "bf_inv (b ip) cs" and "\<forall>s \<in> set cs. s \<le> t" and "\<not> isLockedOut b ip t"
  shows "bf_inv (recordFailed b ip t ip) (cs @ [t])"
proof -
  obtain a where a: "recordFailed b ip t ip = Some a" "at_lastFail a = Some t"
    "at_count a = bf_chain (b ip) t + 1" "at_count a \<le> 5" "at_lockedOut a \<longleftrightarrow> 5 \<le> at_count a"
    "at_lockedOut a \<Longrightarrow> at_lockoutAt a = Some t"
    using recordFailed_entry [OF assms(1,3)] by metis
  have recent: "int (length (filter (\<lambda>s. x \<le> s) (cs @ [t]))) \<le> at_count a" if "t - lockoutDuration \<le> x" for x
    using bf_chain_recent [OF assms(1,2) that] a(3) by simp
  have "length (filter (\<lambda>s. x \<le> s \<and> s \<le> x + lockoutDuration) (cs @ [t])) \<le> 5" for x
  proof (cases "x \<le> t \<and> t \<le> x + lockoutDuration")
    case True
    have "length (filter (\<lambda>s. x \<le> s \<and> s \<le> x + lockoutDuration) (cs @ [t])) \<le> length (filter (\<lambda>s. x \<le> s) (cs @ [t]))"
      by (rule length_filter_mono) simp
    moreover have "int (length (filter (\<lambda>s. x \<le> s) (cs @ [t]))) \<le> at_count a" by (rule recent) (use True in simp)
    ultimately show ?thesis using a(4) by linarith
  next
    case False
    then have "filter (\<lambda>s. x \<le> s \<and> s \<le> x + lockoutDuration) (cs @ [t]) = filter (\<lambda>s. x \<le> s \<and> s \<le> x + lockoutDuration) cs"
      by auto
    with assms(1) show ?thesis by (simp add: bf_inv_def)
  qed
  with a recent assms(2) show ?thesis unfolding bf_inv_def by auto
qed

lemma bf_run_inv:
  assumes "bf_inv (b ip) cs" and "sorted (map bf_time ops)" and "\<forall>s \<in> set cs. \<forall>op \<in> set ops. s \<le> bf_time op"
    and "\<forall>t. Guess ip t True \<notin> set ops"
  shows "\<exists>e. bf_inv e (cs @ wrong_times ip (bf_run b ops))"
  using assms
proof (induction ops arbitrary: b cs)
  case Nil
  then show ?case by (auto simp: wrong_times_def)
next
  case (Cons op ops)
  obtain i t good where op: "op = Guess i t good" by (cases op)
  consider (wrong) "i = ip" "\<not> isLockedOut b ip t" | (other) "fst (bf_step b op) ip = b ip" "i \<noteq> ip \<or> isLockedOut b ip t"
    by (cases "i = ip"; cases "isLockedOut b ip t") (auto simp: op recordSuccess_def recordFailed_def Let_def)
  then show ?case
  proof cases
    case wrong
    with Cons.prems(4) op have good: "\<not> good" by auto
    have "\<forall>s \<in> set cs. s \<le> t" using Cons.prems(3) op by auto
    from bf_inv_Wrong [OF Cons.prems(1) this wrong(2)]
    have "\<exists>e. bf_inv e ((cs @ [t]) @ wrong_times ip (bf_run (recordFailed b ip t) ops))"
      by (rule Cons.IH) (use Cons.prems op in auto)
    with wrong good op show ?thesis by (simp add: wrong_times_def)
  next
    case other
    obtain b1 v where s: "bf_step b op = (b1, v)" by fastforce
    with other Cons.prems(1) have "bf_inv (b1 ip) cs" by simp
    then have "\<exists>e. bf_inv e (cs @ wrong_times ip (bf_run b1 ops))"
      by (rule Cons.IH) (use Cons.prems in auto)
    moreover have "wrong_times ip (bf_run b (op # ops)) = wrong_times ip (bf_run b1 ops)"
      using other(2) s op by (auto simp: wrong_times_def split: if_splits)
    ultimately show ?thesis by simp
  qed
qed

section \<open>Properties\<close>

text \<open>
  C40. Sessions live exactly as long as they should: whatever is created, removed and
  swept, a token opens the dashboard exactly when it was handed out at most 24 hours ago
  and not removed since.
\<close>

theorem session_lifetime:
  assumes "sorted (concat (map ss_time ops) @ [now])"
  shows "ss_validate (fold ss_step ops newSessionStore) tok now \<longleftrightarrow>
    (\<exists>t. issued_at tok ops None = Some t \<and> now - t \<le> sessionTimeout)"
proof -
  obtain t0 where "sorted (t0 # concat (map ss_time ops) @ [now])"
  proof (cases "concat (map ss_time ops)")
    case Nil
    then show thesis using that [of now] by (simp only: append_Nil) simp
  next
    case (Cons t ts)
    then have "sorted (t # concat (map ss_time ops) @ [now])" using assms by simp
    then show thesis by (rule that)
  qed
  moreover have "ss_sim newSessionStore (\<lambda>tok. None) t0" by (simp add: ss_sim_def newSessionStore_def)
  ultimately show ?thesis using ss_sim_validate [OF ss_sim_run] by blast
qed


definition demo_guesses :: "bf_op list" where
  "demo_guesses = map (\<lambda>t. Guess ''a'' t False) [0, 1, 2, 3, 4, 5, 6] @ [Guess ''b'' 7 True, Guess ''a'' (1000 * second) False]"


theorem session_lifetime_witness:
  "ss_validate (fold ss_step [Create ''x'' 0, Create ''y'' 5] newSessionStore) (URLEncoding_Encode ''x'') (24 * hour) \<and>
   \<not> ss_validate (fold ss_step [Create ''x'' 0, Create ''y'' 5] newSessionStore) (URLEncoding_Encode ''x'') (24 * hour + 1)"
  using session_lifetime [of "[Create ''x'' 0, Create ''y'' 5]" "24 * hour" "URLEncoding_Encode ''x''"]
    session_lifetime [of "[Create ''x'' 0, Create ''y'' 5]" "24 * hour + 1" "URLEncoding_Encode ''x''"]
  by (simp add: sessionTimeout_def time_units URLEncoding_Encode_def url_alphabet_def)

end
