(* ===== verification/Server.thy ===== *)
theory Server
  imports RateLimit Rbac Anomaly Admin Provider AdminLogin
begin

text \<open>
  \<^verbatim>\<open>pkg/server/server.go\<close>, the exchange of a token for a certificate: the server's state,
  the key cache, the validation of a token, the exchange handler behind its middlewares,
  and the other endpoints. What the server calls but does not contain (provider, Talos
  API, decoders, cryptography, randomness, clock) is the record \<open>world\<close>.
\<close>

section \<open>State and surroundings\<close>

record client_cert =
  CaPEM :: string
  CertPEM :: string
  KeyPEM :: string

record server_config =
  sc_ListenAddr :: string
  sc_CertTTL :: duration
  sc_Roles :: "string list"
  sc_IssuerURL :: string
  sc_ClientID :: string
  sc_ClientSecret :: string
  sc_Endpoints :: "string list"
  sc_TLSCertFile :: string
  sc_TLSKeyFile :: string
  sc_Insecure :: bool
  sc_DataDir :: string
  sc_AdminToken :: string
  sc_Allowlist :: "allowlist option"
  sc_RBACMapper :: "mapper option"

text \<open>
  The mutable parts. The listeners of the audit logger act on the pair of tracker and
  certificate log; \<open>sv_issue_calls\<close> is the sequence of calls made to the issuer.
\<close>

record server =
  sv_cfg :: server_config
  sv_limiter :: "limiter option"
  sv_anomaly :: "detector option"
  sv_logger :: "(tracker option \<times> certlog option) logger option"
  sv_tracker :: "tracker option"
  sv_certlog :: "certlog option"
  sv_cache :: "jwks_cache option"
  sv_selfSignedCA :: string
  sv_sessions :: "sessionStore option"
  sv_bruteForce :: "bruteForceProtector option"
  sv_issue_calls :: "(string list \<times> duration) list"

text \<open>
  One request's view of the world. \<open>w_clock n\<close> is the n-th reading of the clock on its way:
  0 the limiter, 1 the replay check, 2 to 4 the key cache, 5 the validation (in seconds as
  \<^verbatim>\<open>Unix\<close> gives them), 6 and 8 the audit events, 7 the certificate's expiry.
\<close>

datatype validation_error =
    DiscoveryFailed provider_error
  | FetchingJWKS fetch_error
  | InvalidToken jwt_error

record world =
  w_clock :: "nat \<Rightarrow> time"
  w_rand :: "string option"
  w_crypto :: crypto
  w_get :: http_get
  w_provider_json :: "string \<Rightarrow> ProviderConfig option"
  w_jwks_json :: "string \<Rightarrow> JWKS option"
  w_request_json :: "string \<Rightarrow> string option"
  w_issue :: "string list \<Rightarrow> duration \<Rightarrow> string + client_cert"
  w_role_order :: "string list \<Rightarrow> string list"
  w_pem :: "string \<Rightarrow> string option"
  w_x509 :: "string \<Rightarrow> string option"
  w_sha256 :: "string \<Rightarrow> string"
  w_marshal :: "event \<Rightarrow> string option"
  w_error_text :: "validation_error \<Rightarrow> string"
  w_time_text :: "time option \<Rightarrow> string"

definition Unix :: "time \<Rightarrow> int" where
  "Unix t = t div second"

section \<open>Answers\<close>

definition writeError :: "nat \<Rightarrow> string \<Rightarrow> 'p response" where
  "writeError st msg = \<lparr>status = st, headers = json_header, body = Json (JObj [(''error'', JStr msg)])\<rparr>"

definition writeJSON :: "json \<Rightarrow> 'p response" where
  "writeJSON v = \<lparr>status = StatusOK, headers = json_header, body = Json v\<rparr>"

definition cert_response :: "server_config \<Rightarrow> client_cert \<Rightarrow> json" where
  "cert_response cfg c =
     JObj [(''ca'', JStr (CaPEM c)), (''cert'', JStr (CertPEM c)), (''key'', JStr (KeyPEM c)),
       (''endpoints'', JArr (map JStr (sc_Endpoints cfg))),
       (''ttl_seconds'', JNum (int_seconds (sc_CertTTL cfg)) 0)]"

definition auditLog :: "world \<Rightarrow> time \<Rightarrow> event \<Rightarrow> server \<Rightarrow> server" where
  "auditLog w now ev s =
     (case sv_logger s of
        None \<Rightarrow> s
      | Some l \<Rightarrow>
          (let (l', (t, c)) = Log (w_marshal w) now ev l (sv_tracker s, sv_certlog s)
           in s\<lparr>sv_logger := Some l', sv_tracker := t, sv_certlog := c\<rparr>))"

section \<open>Validating the token\<close>

definition jwksCacheForIssuer :: "world \<Rightarrow> server \<Rightarrow> server \<times> (provider_error + jwks_cache)" where
  "jwksCacheForIssuer w s =
     (case sv_cache s of
        Some c \<Rightarrow> (s, Inr c)
      | None \<Rightarrow>
          (case Discover (w_get w) (w_provider_json w) (sc_IssuerURL (sv_cfg s)) of
             Inl e \<Rightarrow> (s, Inl e)
           | Inr p \<Rightarrow>
               (let c = NewJWKSCache (JWKSURI p) (5 * minute) in (s\<lparr>sv_cache := Some c\<rparr>, Inr c))))"

record tokenClaims =
  tc_Subject :: string
  tc_Email :: string
  tc_Issuer :: string
  tc_Claims :: "string \<Rightarrow> json option"

definition string_claim :: "(string \<Rightarrow> json option) \<Rightarrow> string \<Rightarrow> string" where
  "string_claim claims k = (case claims k of Some (JStr v) \<Rightarrow> v | _ \<Rightarrow> [])"

definition validateToken :: "world \<Rightarrow> string \<Rightarrow> server \<Rightarrow> server \<times> (validation_error + tokenClaims)" where
  "validateToken w idToken s =
     (case jwksCacheForIssuer w s of
        (s1, Inl e) \<Rightarrow> (s1, Inl (DiscoveryFailed e))
      | (s1, Inr cache) \<Rightarrow>
          (case jc_Get (FetchJWKS (w_get w) (w_jwks_json w)) (w_clock w 2) (w_clock w 3) (w_clock w 4) cache of
             (cache', res, asked) \<Rightarrow>
               (let s2 = s1\<lparr>sv_cache := Some cache'\<rparr>; cfg = sv_cfg s in
                case res of
                  Inl e \<Rightarrow> (s2, Inl (FetchingJWKS e))
                | Inr jwks \<Rightarrow>
                    (case ValidateIDToken (w_crypto w) (Unix (w_clock w 5)) idToken jwks
                        (sc_IssuerURL cfg) (sc_ClientID cfg) (sc_ClientSecret cfg) [] of
                       Inl e \<Rightarrow> (s2, Inl (InvalidToken e))
                     | Inr claims \<Rightarrow>
                         (s2, Inr \<lparr>tc_Subject = string_claim claims ''sub'', tc_Email = string_claim claims ''email'',
                           tc_Issuer = string_claim claims ''iss'', tc_Claims = claims\<rparr>)))))"

section \<open>The exchange handler\<close>

text \<open>The roles of the validated user: the mapper's when it has rules, else the static ones.\<close>

definition decoded :: "(string \<Rightarrow> json option) \<Rightarrow> claims" where
  "decoded cl k = map_option Decoded (cl k)"

definition roles_for :: "world \<Rightarrow> server_config \<Rightarrow> tokenClaims \<Rightarrow> string list" where
  "roles_for w cfg tc =
     (case sc_RBACMapper cfg of
        Some m \<Rightarrow> if HasRules m then MapRoles (w_role_order w) m (decoded (tc_Claims tc)) else sc_Roles cfg
      | None \<Rightarrow> sc_Roles cfg)"

definition exchange_event :: "EventType \<Rightarrow> string \<Rightarrow> string \<Rightarrow> string \<Rightarrow> string \<Rightarrow> event" where
  "exchange_event ty requestID outcome severity clientIP =
     (blank_event ty)\<lparr>RequestID := requestID, EventCategory := ''authentication'', EventOutcome := outcome,
        EventAction := ''token-exchange'', Severity := severity, ClientIP := clientIP\<rparr>"

text \<open>The body, at most 64 KiB of it; then the token in it, or the error answer.\<close>

definition read_token :: "world \<Rightarrow> request \<Rightarrow> 'p response + string" where
  "read_token w r =
     (case Body r of
        None \<Rightarrow> Inl (writeError StatusRequestEntityTooLarge ''request body too large or unreadable'')
      | Some b \<Rightarrow>
          if 64 * 1024 < length b
          then Inl (writeError StatusRequestEntityTooLarge ''request body too large or unreadable'')
          else (case w_request_json w b of
            None \<Rightarrow> Inl (writeError StatusBadRequest ''invalid JSON'')
          | Some idToken \<Rightarrow>
              if idToken = [] then Inl (writeError StatusBadRequest ''id_token is required'')
              else Inr idToken))"

definition note_token_use :: "world \<Rightarrow> string \<Rightarrow> server \<Rightarrow> server" where
  "note_token_use w idToken s =
     (case sv_anomaly s of
        None \<Rightarrow> s
      | Some d \<Rightarrow> s\<lparr>sv_anomaly := Some (fst (RecordTokenUse (w_sha256 w) d idToken (w_clock w 1)))\<rparr>)"

definition note_failure :: "string \<Rightarrow> time \<Rightarrow> server \<Rightarrow> server" where
  "note_failure clientIP now s =
     (case sv_anomaly s of
        None \<Rightarrow> s
      | Some d \<Rightarrow> s\<lparr>sv_anomaly := Some (fst (RecordFailure d clientIP now))\<rparr>)"

text \<open>From the validated claims on: roles, certificate, answer, audit record.\<close>

definition issue_certificate ::
  "world \<Rightarrow> string \<Rightarrow> string \<Rightarrow> tokenClaims \<Rightarrow> server \<Rightarrow> server \<times> 'p response" where
  "issue_certificate w requestID clientIP tc s =
     (let cfg = sv_cfg s; roles = roles_for w cfg tc in
      if roles = []
      then (s, writeError StatusForbidden ''no roles assigned - user does not match any RBAC rules'')
      else
        let s1 = s\<lparr>sv_issue_calls := sv_issue_calls s @ [(roles, sc_CertTTL cfg)]\<rparr> in
        case w_issue w roles (sc_CertTTL cfg) of
          Inl err \<Rightarrow>
            (auditLog w (w_clock w 8)
               ((exchange_event EventCertError requestID ''failure'' ''WARN'' clientIP)
                  \<lparr>Subject := tc_Subject tc, Email := tc_Email tc, Error := err\<rparr>) s1,
             writeError StatusInternalServerError ''failed to generate certificate'')
        | Inr cert \<Rightarrow>
            (let fingerprint = (case FingerprintFromPEM (w_pem w) (w_x509 w) (w_sha256 w) (CertPEM cert) of
                     Inl e \<Rightarrow> [] | Inr f \<Rightarrow> f);
                 certExpiry = w_clock w 7 + sc_CertTTL cfg
             in (auditLog w (w_clock w 8)
                   ((exchange_event EventCertIssued requestID ''success'' ''INFO'' clientIP)
                      \<lparr>Subject := tc_Subject tc, Email := tc_Email tc, Issuer := tc_Issuer tc, Roles := roles,
                       CertTTL := Duration_String (sc_CertTTL cfg), CertExpiry := Some certExpiry,
                       CertFingerprint := fingerprint\<rparr>) s1,
                 writeJSON (cert_response cfg cert))))"

definition handleExchange :: "world \<Rightarrow> (server, 'p) handler" where
  "handleExchange w s r =
     (if Method r \<noteq> ''POST'' then (s, writeError StatusMethodNotAllowed ''method not allowed'')
      else let requestID = NewRequestID (w_rand w); clientIP = RemoteAddr r in
        case read_token w r of
          Inl resp \<Rightarrow> (s, resp)
        | Inr idToken \<Rightarrow>
            (case validateToken w idToken (note_token_use w idToken s) of
               (s2, Inl e) \<Rightarrow>
                 (note_failure clientIP (w_clock w 8)
                    (auditLog w (w_clock w 6)
                       ((exchange_event EventAuthFailure requestID ''failure'' ''WARN'' clientIP)
                          \<lparr>Error := w_error_text w e\<rparr>) s2),
                  writeError StatusUnauthorized ''invalid token'')
             | (s2, Inr tc) \<Rightarrow>
                 issue_certificate w requestID clientIP tc
                   (auditLog w (w_clock w 6)
                      ((exchange_event EventAuthSuccess requestID ''success'' ''INFO'' clientIP)
                         \<lparr>Subject := tc_Subject tc, Email := tc_Email tc, Issuer := tc_Issuer tc\<rparr>) s2)))"

text \<open>The chain \<^verbatim>\<open>New\<close> registers for the endpoint: the limiter outside, the allowlist inside.\<close>

definition exchange_chain :: "world \<Rightarrow> server \<Rightarrow> (server, 'p) handler" where
  "exchange_chain w s0 =
     (let h = handleExchange w;
          h1 = (case sc_Allowlist (sv_cfg s0) of
                  Some a \<Rightarrow> if al_IsEnabled (Some a) then al_Middleware a h else h
                | None \<Rightarrow> h)
      in case sv_limiter s0 of
           Some l \<Rightarrow>
             if rl_IsEnabled (Some l)
             then rl_Middleware (\<lambda>s. case sv_limiter s of Some l' \<Rightarrow> l' | None \<Rightarrow> l)
                    (\<lambda>l' s. s\<lparr>sv_limiter := Some l'\<rparr>) (\<lambda>s. w_clock w 0) h1
             else h1
         | None \<Rightarrow> h1)"

section \<open>What each step leaves alone\<close>

lemma auditLog_frame [frame_simps]:
  "sv_cfg (auditLog w t ev s) = sv_cfg s" "sv_limiter (auditLog w t ev s) = sv_limiter s"
  "sv_anomaly (auditLog w t ev s) = sv_anomaly s" "sv_cache (auditLog w t ev s) = sv_cache s"
  "sv_issue_calls (auditLog w t ev s) = sv_issue_calls s"
  "sv_selfSignedCA (auditLog w t ev s) = sv_selfSignedCA s"
  "sv_sessions (auditLog w t ev s) = sv_sessions s" "sv_bruteForce (auditLog w t ev s) = sv_bruteForce s"
  by (simp_all add: auditLog_def split: option.split prod.split)

lemma note_token_use_frame [frame_simps]:
  "sv_cfg (note_token_use w tok s) = sv_cfg s" "sv_limiter (note_token_use w tok s) = sv_limiter s"
  "sv_logger (note_token_use w tok s) = sv_logger s" "sv_tracker (note_token_use w tok s) = sv_tracker s"
  "sv_certlog (note_token_use w tok s) = sv_certlog s" "sv_cache (note_token_use w tok s) = sv_cache s"
  "sv_issue_calls (note_token_use w tok s) = sv_issue_calls s"
  "sv_sessions (note_token_use w tok s) = sv_sessions s" "sv_bruteForce (note_token_use w tok s) = sv_bruteForce s"
  by (simp_all add: note_token_use_def split: option.split)

lemma note_failure_frame [frame_simps]:
  "sv_cfg (note_failure ip t s) = sv_cfg s" "sv_limiter (note_failure ip t s) = sv_limiter s"
  "sv_logger (note_failure ip t s) = sv_logger s" "sv_tracker (note_failure ip t s) = sv_tracker s"
  "sv_certlog (note_failure ip t s) = sv_certlog s" "sv_cache (note_failure ip t s) = sv_cache s"
  "sv_issue_calls (note_failure ip t s) = sv_issue_calls s"
  "sv_sessions (note_failure ip t s) = sv_sessions s" "sv_bruteForce (note_failure ip t s) = sv_bruteForce s"
  by (simp_all add: note_failure_def split: option.split)

lemma validateToken_cache:
  "validateToken w tok s = (s', res) \<Longrightarrow> \<exists>c. s' = s\<lparr>sv_cache := c\<rparr>"
proof -
  assume v: "validateToken w tok s = (s', res)"
  obtain s1 rc where j: "jwksCacheForIssuer w s = (s1, rc)" by fastforce
  have s1: "\<exists>c. s1 = s\<lparr>sv_cache := c\<rparr>"
  proof -
    have "s1 = s \<or> (\<exists>c. s1 = s\<lparr>sv_cache := c\<rparr>)"
      using j by (auto simp: jwksCacheForIssuer_def Let_def split: option.splits sum.splits)
    moreover have "s = s\<lparr>sv_cache := sv_cache s\<rparr>" by simp
    ultimately show ?thesis by metis
  qed
  show ?thesis
  proof (cases rc)
    case (Inl e)
    with v j s1 show ?thesis by (simp add: validateToken_def)
  next
    case (Inr cache)
    obtain cache' r asked where g:
      "jc_Get (FetchJWKS (w_get w) (w_jwks_json w)) (w_clock w 2) (w_clock w 3) (w_clock w 4) cache = (cache', r, asked)"
      by (metis prod_cases3)
    from v j Inr g have "s' = s1\<lparr>sv_cache := Some cache'\<rparr>"
      by (auto simp: validateToken_def Let_def split: sum.splits)
    with s1 show ?thesis by auto
  qed
qed

lemma validateToken_frame:
  assumes "validateToken w tok s = (s', res)"
  shows "sv_cfg s' = sv_cfg s" "sv_limiter s' = sv_limiter s" "sv_logger s' = sv_logger s"
    "sv_tracker s' = sv_tracker s" "sv_certlog s' = sv_certlog s" "sv_anomaly s' = sv_anomaly s"
    "sv_issue_calls s' = sv_issue_calls s" "sv_sessions s' = sv_sessions s" "sv_bruteForce s' = sv_bruteForce s"
  using validateToken_cache [OF assms] by auto

text \<open>The keys a token is checked against are the provider's, now or when they were cached.\<close>

definition provider_keys :: "world \<Rightarrow> server \<Rightarrow> JWKS \<Rightarrow> bool" where
  "provider_keys w s jwks \<longleftrightarrow>
     (\<exists>c. sv_cache s = Some c \<and> jc_jwks c = Some jwks) \<or>
     (\<exists>c. sv_cache s = Some c \<and> FetchJWKS (w_get w) (w_jwks_json w) (jc_uri c) = Inr jwks) \<or>
     (\<exists>p. sv_cache s = None \<and> Discover (w_get w) (w_provider_json w) (sc_IssuerURL (sv_cfg s)) = Inr p \<and>
        FetchJWKS (w_get w) (w_jwks_json w) (JWKSURI p) = Inr jwks)"

lemma jc_Get_source:
  assumes "jc_Get fetch t1 t2 t3 c = (c', Inr jwks, asked)"
  shows "jc_jwks c = Some jwks \<or> fetch (jc_uri c) = Inr jwks"
  using assms
  by (auto simp: jc_Get_def jc_refresh_def jc_fresh_Some split: option.splits sum.splits)

lemma validateToken_Inr:
  assumes "validateToken w tok s = (s', Inr tc)"
  obtains jwks where "provider_keys w s jwks"
    and "ValidateIDToken (w_crypto w) (Unix (w_clock w 5)) tok jwks (sc_IssuerURL (sv_cfg s))
      (sc_ClientID (sv_cfg s)) (sc_ClientSecret (sv_cfg s)) [] = Inr (tc_Claims tc)"
    and "tc_Subject tc = string_claim (tc_Claims tc) ''sub''"
    and "tc_Email tc = string_claim (tc_Claims tc) ''email''"
    and "tc_Issuer tc = string_claim (tc_Claims tc) ''iss''"
proof -
  obtain s1 cache where j: "jwksCacheForIssuer w s = (s1, Inr cache)"
    using assms by (auto simp: validateToken_def split: prod.splits sum.splits)
  obtain cache' r asked where g:
    "jc_Get (FetchJWKS (w_get w) (w_jwks_json w)) (w_clock w 2) (w_clock w 3) (w_clock w 4) cache = (cache', r, asked)"
    by (metis prod_cases3)
  from assms j g obtain jwks where r: "r = Inr jwks" and v:
    "ValidateIDToken (w_crypto w) (Unix (w_clock w 5)) tok jwks (sc_IssuerURL (sv_cfg s))
      (sc_ClientID (sv_cfg s)) (sc_ClientSecret (sv_cfg s)) [] = Inr (tc_Claims tc)"
    "tc_Subject tc = string_claim (tc_Claims tc) ''sub''" "tc_Email tc = string_claim (tc_Claims tc) ''email''"
    "tc_Issuer tc = string_claim (tc_Claims tc) ''iss''"
    by (auto simp: validateToken_def Let_def split: sum.splits)
  have "jc_jwks cache = Some jwks \<or> FetchJWKS (w_get w) (w_jwks_json w) (jc_uri cache) = Inr jwks"
    using jc_Get_source g r by blast
  with j have "provider_keys w s jwks"
    by (auto simp: jwksCacheForIssuer_def provider_keys_def Let_def NewJWKSCache_def
        split: option.splits sum.splits)
  from that [OF this v] show thesis .
qed

lemma read_token_Inr:
  "read_token w r = Inr tok \<longleftrightarrow>
   (\<exists>b. Body r = Some b \<and> length b \<le> 64 * 1024 \<and> w_request_json w b = Some tok \<and> tok \<noteq> [])"
  by (auto simp: read_token_def split: option.splits if_splits)

lemma read_token_Inl: "read_token w r = Inl resp \<Longrightarrow> status resp = StatusRequestEntityTooLarge \<or> status resp = StatusBadRequest"
  by (auto simp: read_token_def writeError_def split: option.splits if_splits)

section \<open>The exchange, case by case\<close>

lemma issue_certificate_calls:
  "sv_issue_calls (fst (issue_certificate w rid ip tc s)) =
   (if roles_for w (sv_cfg s) tc = [] then sv_issue_calls s
    else sv_issue_calls s @ [(roles_for w (sv_cfg s) tc, sc_CertTTL (sv_cfg s))])"
  by (simp add: issue_certificate_def Let_def frame_simps split: sum.split)

lemma issue_certificate_answer:
  "snd (issue_certificate w rid ip tc s) =
   (if roles_for w (sv_cfg s) tc = []
    then writeError StatusForbidden ''no roles assigned - user does not match any RBAC rules''
    else case w_issue w (roles_for w (sv_cfg s) tc) (sc_CertTTL (sv_cfg s)) of
      Inl err \<Rightarrow> writeError StatusInternalServerError ''failed to generate certificate''
    | Inr cert \<Rightarrow> writeJSON (cert_response (sv_cfg s) cert))"
  by (simp add: issue_certificate_def Let_def split: sum.split)

text \<open>The ways through the handler: refused before the token, a bad token, a good one.\<close>

lemma handleExchange_cases:
  obtains (refused) "fst (handleExchange w s r :: server \<times> 'p response) = s"
      "status (snd (handleExchange w s r :: server \<times> 'p response)) \<in> {StatusMethodNotAllowed, StatusRequestEntityTooLarge, StatusBadRequest}"
      "Method r \<noteq> ''POST'' \<or> (\<exists>resp. read_token w r = Inl (resp :: 'p response))"
  | (invalid) tok s2 e where "Method r = ''POST''" "read_token w r = (Inr tok :: 'p response + string)"
      "validateToken w tok (note_token_use w tok s) = (s2, Inl e)"
      "(handleExchange w s r :: server \<times> 'p response) =
        (note_failure (RemoteAddr r) (w_clock w 8)
           (auditLog w (w_clock w 6)
             ((exchange_event EventAuthFailure (NewRequestID (w_rand w)) ''failure'' ''WARN'' (RemoteAddr r))
               \<lparr>Error := w_error_text w e\<rparr>) s2),
         writeError StatusUnauthorized ''invalid token'')"
  | (valid) tok s2 tc where "Method r = ''POST''" "read_token w r = (Inr tok :: 'p response + string)"
      "validateToken w tok (note_token_use w tok s) = (s2, Inr tc)"
      "(handleExchange w s r :: server \<times> 'p response) =
        issue_certificate w (NewRequestID (w_rand w)) (RemoteAddr r) tc
          (auditLog w (w_clock w 6)
             ((exchange_event EventAuthSuccess (NewRequestID (w_rand w)) ''success'' ''INFO'' (RemoteAddr r))
               \<lparr>Subject := tc_Subject tc, Email := tc_Email tc, Issuer := tc_Issuer tc\<rparr>) s2)"
proof (cases "Method r = ''POST''")
  case False
  then show thesis using refused by (simp add: handleExchange_def writeError_def)
next
  case True
  show thesis
  proof (cases "read_token w r :: 'p response + string")
    case (Inl resp)
    then have "(handleExchange w s r :: server \<times> 'p response) = (s, resp)"
      using True by (simp add: handleExchange_def Let_def)
    with Inl read_token_Inl [OF Inl] show thesis by (intro refused) auto
  next
    case (Inr tok)
    obtain s2 res where v: "validateToken w tok (note_token_use w tok s) = (s2, res)" by fastforce
    show thesis
    proof (cases res)
      case (Inl e)
      with True Inr v show thesis by (intro invalid [OF True Inr]) (simp_all add: handleExchange_def Let_def)
    next
      case (Inr tc)
      with True \<open>read_token w r = Inr tok\<close> v show thesis
        by (intro valid [OF True \<open>read_token w r = Inr tok\<close>]) (simp_all add: handleExchange_def Let_def)
    qed
  qed
qed

section \<open>The chain as two gates and the handler\<close>

definition limiter_gate :: "world \<Rightarrow> server \<Rightarrow> request \<Rightarrow> server \<times> bool" where
  "limiter_gate w s r =
     (case sv_limiter s of
        Some l \<Rightarrow>
          if rl_IsEnabled (Some l)
          then let (l', ok) = rl_Allow l (rl_extractIP l r) (w_clock w 0) in (s\<lparr>sv_limiter := Some l'\<rparr>, ok)
          else (s, True)
      | None \<Rightarrow> (s, True))"

definition allowlist_gate :: "server_config \<Rightarrow> request \<Rightarrow> bool" where
  "allowlist_gate cfg r =
     (case sc_Allowlist cfg of Some a \<Rightarrow> al_Allowed a (al_extractIP a r) | None \<Rightarrow> True)"

lemma limiter_gate_frame:
  assumes "limiter_gate w s r = (s1, ok)"
  shows "sv_cfg s1 = sv_cfg s" "sv_anomaly s1 = sv_anomaly s" "sv_logger s1 = sv_logger s"
    "sv_tracker s1 = sv_tracker s" "sv_certlog s1 = sv_certlog s" "sv_cache s1 = sv_cache s"
    "sv_issue_calls s1 = sv_issue_calls s" "sv_sessions s1 = sv_sessions s" "sv_bruteForce s1 = sv_bruteForce s"
  using assms by (auto simp: limiter_gate_def Let_def split: option.splits if_splits prod.splits)

lemma exchange_chain_gates:
  "(exchange_chain w s s r :: server \<times> 'p response) =
   (let (s1, ok) = limiter_gate w s r in
    if \<not> ok then
      (s1, \<lparr>status = StatusTooManyRequests,
            headers = json_header @ [(''Retry-After'', dec_int (int_seconds (rl_window (the (sv_limiter s1)))))],
            body = Text ''{\"error\": \"rate limit exceeded\"}''\<rparr>)
    else if \<not> allowlist_gate (sv_cfg s) r then
      (s1, \<lparr>status = StatusForbidden, headers = json_header, body = Text ''{\"error\": \"IP not allowed\"}''\<rparr>)
    else handleExchange w s1 r)"
proof -
  let ?h1 = "case sc_Allowlist (sv_cfg s) of
      Some a \<Rightarrow> if al_IsEnabled (Some a) then al_Middleware a (handleExchange w) else handleExchange w
    | None \<Rightarrow> (handleExchange w :: (server, 'p) handler)"
  have inner: "?h1 s1 r =
      (if \<not> allowlist_gate (sv_cfg s) r then
         (s1, \<lparr>status = StatusForbidden, headers = json_header, body = Text ''{\"error\": \"IP not allowed\"}''\<rparr>)
       else handleExchange w s1 r)" for s1
  proof (cases "sc_Allowlist (sv_cfg s)")
    case (Some a)
    then show ?thesis
      by (cases "al_IsEnabled (Some a)") (simp_all add: al_Middleware_pass allowlist_gate_def al_Allowed_def)
  qed (simp add: allowlist_gate_def)
  show ?thesis
  proof (cases "sv_limiter s")
    case None
    then show ?thesis using inner by (simp add: exchange_chain_def limiter_gate_def Let_def)
  next
    case (Some l)
    show ?thesis
    proof (cases "rl_IsEnabled (Some l)")
      case False
      with Some show ?thesis using inner by (simp add: exchange_chain_def limiter_gate_def Let_def)
    next
      case True
      obtain l' ok where a: "rl_Allow l (rl_extractIP l r) (w_clock w 0) = (l', ok)" by fastforce
      show ?thesis
        using Some True a inner [of "s\<lparr>sv_limiter := Some l'\<rparr>"]
        by (simp add: exchange_chain_def limiter_gate_def rl_Middleware_def Let_def)
    qed
  qed
qed

text \<open>The keys at hand: cached and fresh, or fetched on the first request.\<close>

definition keys_at_hand :: "world \<Rightarrow> server \<Rightarrow> JWKS \<Rightarrow> bool" where
  "keys_at_hand w s jwks \<longleftrightarrow>
     (case sv_cache s of
        Some c \<Rightarrow> jc_fresh c (w_clock w 2) = Some jwks
      | None \<Rightarrow> (\<exists>p. Discover (w_get w) (w_provider_json w) (sc_IssuerURL (sv_cfg s)) = Inr p \<and>
          FetchJWKS (w_get w) (w_jwks_json w) (JWKSURI p) = Inr jwks))"

definition token_identity :: "(string \<Rightarrow> json option) \<Rightarrow> tokenClaims" where
  "token_identity claims =
     \<lparr>tc_Subject = string_claim claims ''sub'', tc_Email = string_claim claims ''email'',
      tc_Issuer = string_claim claims ''iss'', tc_Claims = claims\<rparr>"

lemma jc_Get_fresh: "jc_fresh c t1 = Some ks \<Longrightarrow> jc_Get fetch t1 t2 t3 c = (c, Inr ks, False)"
  by (simp add: jc_Get_def)

lemma jc_Get_New:
  "fetch uri = Inr ks \<Longrightarrow> jc_Get fetch t1 t2 t3 (NewJWKSCache uri ttl) =
   ((NewJWKSCache uri ttl)\<lparr>jc_jwks := Some ks, jc_fetchedAt := t3\<rparr>, Inr ks, True)"
  by (simp add: jc_Get_def jc_refresh_def jc_fresh_def NewJWKSCache_def)

lemma validateToken_accepts:
  assumes "keys_at_hand w s jwks"
    and "ValidateIDToken (w_crypto w) (Unix (w_clock w 5)) tok jwks (sc_IssuerURL (sv_cfg s))
      (sc_ClientID (sv_cfg s)) (sc_ClientSecret (sv_cfg s)) [] = Inr claims"
  shows "\<exists>s'. validateToken w tok s = (s', Inr (token_identity claims))"
proof (cases "sv_cache s")
  case None
  then obtain p where p: "Discover (w_get w) (w_provider_json w) (sc_IssuerURL (sv_cfg s)) = Inr p"
    "FetchJWKS (w_get w) (w_jwks_json w) (JWKSURI p) = Inr jwks"
    using assms(1) by (auto simp: keys_at_hand_def)
  show ?thesis
    using None p(1) jc_Get_New [where fetch = "FetchJWKS (w_get w) (w_jwks_json w)", OF p(2)] assms(2)
    by (simp add: validateToken_def jwksCacheForIssuer_def token_identity_def Let_def)
next
  case (Some c)
  then have "jc_fresh c (w_clock w 2) = Some jwks" using assms(1) by (simp add: keys_at_hand_def)
  with Some assms(2) show ?thesis
    by (simp add: validateToken_def jwksCacheForIssuer_def jc_Get_fresh token_identity_def Let_def)
qed

section \<open>A concrete server\<close>

definition demo_cert :: client_cert where
  "demo_cert = \<lparr>CaPEM = ''ca'', CertPEM = ''cert'', KeyPEM = ''key''\<rparr>"

lemma handleExchange_calls:
  fixes r :: request
  assumes "sv_issue_calls (fst (handleExchange w s r :: server \<times> 'p response)) \<noteq> sv_issue_calls s"
  obtains tok s2 tc where "Method r = ''POST''" "read_token w r = (Inr tok :: 'p response + string)"
    "validateToken w tok (note_token_use w tok s) = (s2, Inr tc)" "roles_for w (sv_cfg s) tc \<noteq> []"
    "sv_issue_calls (fst (handleExchange w s r :: server \<times> 'p response)) =
       sv_issue_calls s @ [(roles_for w (sv_cfg s) tc, sc_CertTTL (sv_cfg s))]"
proof (cases rule: handleExchange_cases [where 'p = 'p, of w s r])
  case refused
  with assms show thesis by simp
next
  case (invalid tok s2 e)
  with assms validateToken_frame [OF invalid(3)] show thesis by (simp add: frame_simps)
next
  case (valid tok s2 tc)
  with assms validateToken_frame [OF valid(3)] show thesis
    by (intro that [OF valid(1-3)]) (auto simp: frame_simps issue_certificate_calls split: if_splits)
qed

definition demo_config :: server_config where
  "demo_config =
     \<lparr>sc_ListenAddr = '':8443'', sc_CertTTL = 5 * minute, sc_Roles = [], sc_IssuerURL = ''https://idp'',
      sc_ClientID = ''talos'', sc_ClientSecret = [], sc_Endpoints = [''10.0.0.1''], sc_TLSCertFile = [],
      sc_TLSKeyFile = [], sc_Insecure = False, sc_DataDir = [], sc_AdminToken = [], sc_Allowlist = None,
      sc_RBACMapper = Some (NewMapper demo_rules [])\<rparr>"

definition demo_server :: server where
  "demo_server =
     \<lparr>sv_cfg = demo_config, sv_limiter = Some (rl_New 1 minute []), sv_anomaly = Some (an_New DefaultConfig),
      sv_logger = None, sv_tracker = None, sv_certlog = None, sv_cache = None, sv_selfSignedCA = [],
      sv_sessions = None, sv_bruteForce = None,
      sv_issue_calls = []\<rparr>"

definition demo_world :: world where
  "demo_world =
     \<lparr>w_clock = (\<lambda>n. 600 * second), w_rand = Some (replicate 16 (CHR ''r'')), w_crypto = demo_crypto,
      w_get = [''https://idp/.well-known/openid-configuration'' \<mapsto> (200, ''D''), ''https://idp/keys'' \<mapsto> (200, ''K'')],
      w_provider_json = [''D'' \<mapsto> demo_provider], w_jwks_json = [''K'' \<mapsto> [demo_key]],
      w_request_json = [''B'' \<mapsto> demo_token], w_issue = (\<lambda>roles ttl. Inr demo_cert), w_role_order = id,
      w_pem = (\<lambda>p. Some p), w_x509 = (\<lambda>b. Some b), w_sha256 = (\<lambda>s. s),
      w_marshal = (\<lambda>e. Some (Subject e)), w_error_text = (\<lambda>e. []),
      w_time_text = (\<lambda>t. [])\<rparr>"

definition demo_post :: request where
  "demo_post = (demo_request ''203.0.113.9:4711'' [])\<lparr>Method := ''POST'', Body := Some ''B''\<rparr>"

end
