(* ===== verification/ServeMux.thy ===== *)
theory ServeMux
  imports Http Encoding
begin

text \<open>
  \<^verbatim>\<open>net/http\<close>'s \<^verbatim>\<open>ServeMux\<close>, which the server and the client's callback server register
  their handlers with: patterns of literal segments and wildcards, the conflicts for which
  registering panics, and the choice of a handler for a path. The program's patterns name
  neither a method nor a host.
\<close>

section \<open>Paths\<close>

fun clean_segments :: "string list \<Rightarrow> string list \<Rightarrow> string list" where
  "clean_segments out [] = rev out"
| "clean_segments out (x # xs) =
     (if x = [] \<or> x = ''.'' then clean_segments out xs
      else if x = ''..'' then clean_segments (tl out) xs
      else clean_segments (x # out) xs)"

definition cleanPath :: "string \<Rightarrow> string" where
  "cleanPath p =
     (let segs = clean_segments [] (split_on (CHR ''/'') p); np = ''/'' @ join ''/'' segs
      in if p \<noteq> [] \<and> last p = CHR ''/'' \<and> segs \<noteq> [] then np @ ''/'' else np)"

fun PathUnescape :: "string \<Rightarrow> string option" where
  "PathUnescape [] = Some []"
| "PathUnescape (c # cs) =
     (if c = CHR ''%'' then
        (case cs of
           a # b # r \<Rightarrow>
             (case (hex_val a, hex_val b) of
                (Some h, Some l) \<Rightarrow> map_option ((#) (char_of (h * 16 + l))) (PathUnescape r)
              | _ \<Rightarrow> None)
         | _ \<Rightarrow> None)
      else map_option ((#) c) (PathUnescape cs))"

text \<open>A segment that does not unescape stands for itself.\<close>

definition pathUnescape :: "string \<Rightarrow> string" where
  "pathUnescape x = (case PathUnescape x of Some y \<Rightarrow> y | None \<Rightarrow> x)"

text \<open>
  The segments of an escaped path as the search meets them: unescaped one by one, and a
  slash at the end is a segment of its own.
\<close>

fun segments_of :: "string list \<Rightarrow> string list" where
  "segments_of [] = []"
| "segments_of [x] = [if x = [] then ''/'' else pathUnescape x]"
| "segments_of (x # y # xs) = pathUnescape x # segments_of (y # xs)"

definition segments :: "string \<Rightarrow> string list" where
  "segments p = (if p = [] then [] else segments_of (split_on (CHR ''/'') (tl p)))"

section \<open>Patterns\<close>

text \<open>
  \<open>Lit ''/''\<close> is the end of a path after a slash, which a pattern writes \<^verbatim>\<open>{$}\<close>; \<open>Multi []\<close> is
  the nameless rest of the path after a pattern's last slash.
\<close>

datatype segment = Lit string | Wild string | Multi string

type_synonym pattern = "segment list"

text \<open>The names of wildcards are Go identifiers; letters beyond ASCII are left out.\<close>

definition isValidWildcardName :: "string \<Rightarrow> bool" where
  "isValidWildcardName s \<longleftrightarrow>
     (let letter = (\<lambda>c. c = CHR ''_'' \<or> 97 \<le> byte_val c \<and> byte_val c \<le> 122 \<or> 65 \<le> byte_val c \<and> byte_val c \<le> 90);
          digit = (\<lambda>c. 48 \<le> byte_val c \<and> byte_val c \<le> 57)
      in s \<noteq> [] \<and> letter (hd s) \<and> list_all (\<lambda>c. letter c \<or> digit c) s)"

definition cutDots :: "string \<Rightarrow> string \<times> bool" where
  "cutDots name =
     (if 3 \<le> length name \<and> drop (length name - 3) name = ''...'' then (take (length name - 3) name, True)
      else (name, False))"

text \<open>\<open>None\<close> is an error of \<^verbatim>\<open>parsePattern\<close>, for which registering panics.\<close>

fun parse_segments :: "string list \<Rightarrow> string list \<Rightarrow> pattern option" where
  "parse_segments seen [] = Some []"
| "parse_segments seen (x # xs) =
     (if x = [] \<and> xs = [] then Some [Multi []]
      else if CHR ''{'' \<notin> set x then map_option ((#) (Lit (pathUnescape x))) (parse_segments seen xs)
      else if hd x \<noteq> CHR ''{'' \<or> last x \<noteq> CHR ''}'' then None
      else if x = ''{$}'' then (if xs = [] then Some [Lit ''/''] else None)
      else case cutDots (butlast (tl x)) of
        (name, multi) \<Rightarrow>
          if multi \<and> xs \<noteq> [] \<or> \<not> isValidWildcardName name \<or> name \<in> set seen then None
          else map_option ((#) (if multi then Multi name else Wild name)) (parse_segments (name # seen) xs))"

text \<open>
  What stands before a blank would be a method, and no method begins with a slash. What
  stands before the first slash would be a host; the program's patterns have none.
\<close>

definition parsePattern :: "string \<Rightarrow> pattern option" where
  "parsePattern s =
     (if s = [] \<or> hd s \<noteq> CHR ''/'' \<or> CHR '' '' \<in> set s \<or> CHR 0x09 \<in> set s then None
      else parse_segments [] (split_on (CHR ''/'') (tl s)))"

section \<open>Conflicts\<close>

datatype relationship = Equivalent | MoreGeneral | MoreSpecific | Disjoint | Overlaps

fun compareSegments :: "segment \<Rightarrow> segment \<Rightarrow> relationship" where
  "compareSegments (Multi a) (Multi b) = Equivalent"
| "compareSegments (Multi a) s = MoreGeneral"
| "compareSegments s (Multi b) = MoreSpecific"
| "compareSegments (Wild a) (Wild b) = Equivalent"
| "compareSegments (Wild a) (Lit t) = (if t = ''/'' then Disjoint else MoreGeneral)"
| "compareSegments (Lit s) (Wild b) = (if s = ''/'' then Disjoint else MoreSpecific)"
| "compareSegments (Lit s) (Lit t) = (if s = t then Equivalent else Disjoint)"

fun combineRelationships :: "relationship \<Rightarrow> relationship \<Rightarrow> relationship" where
  "combineRelationships Equivalent r = r"
| "combineRelationships Disjoint r = Disjoint"
| "combineRelationships Overlaps r = (if r = Disjoint then Disjoint else Overlaps)"
| "combineRelationships MoreGeneral r =
     (if r = Equivalent then MoreGeneral else if r = MoreSpecific then Overlaps else r)"
| "combineRelationships MoreSpecific r =
     (if r = Equivalent then MoreSpecific else if r = MoreGeneral then Overlaps else r)"

fun ends_multi :: "pattern \<Rightarrow> bool" where
  "ends_multi [] = False"
| "ends_multi [Multi n] = True"
| "ends_multi [s] = False"
| "ends_multi (s # t # p) = ends_multi (t # p)"

fun compare_along :: "bool \<Rightarrow> bool \<Rightarrow> relationship \<Rightarrow> pattern \<Rightarrow> pattern \<Rightarrow> relationship" where
  "compare_along m1 m2 rel (s # p) (t # q) =
     (let r = combineRelationships rel (compareSegments s t)
      in if r = Disjoint then Disjoint else compare_along m1 m2 r p q)"
| "compare_along m1 m2 rel [] [] = rel"
| "compare_along m1 m2 rel [] (t # q) = (if m1 then combineRelationships rel MoreGeneral else Disjoint)"
| "compare_along m1 m2 rel (s # p) [] = (if m2 then combineRelationships rel MoreSpecific else Disjoint)"

definition comparePaths :: "pattern \<Rightarrow> pattern \<Rightarrow> relationship" where
  "comparePaths p q =
     (if length p \<noteq> length q \<and> \<not> ends_multi p \<and> \<not> ends_multi q then Disjoint
      else compare_along (ends_multi p) (ends_multi q) Equivalent p q)"

definition conflictsWith :: "pattern \<Rightarrow> pattern \<Rightarrow> bool" where
  "conflictsWith p q \<longleftrightarrow> comparePaths p q \<in> {Equivalent, Overlaps}"

type_synonym 'h mux = "(pattern \<times> 'h) list"

text \<open>\<open>None\<close>: the call panics.\<close>

definition HandleFunc :: "'h mux \<Rightarrow> string \<Rightarrow> 'h \<Rightarrow> 'h mux option" where
  "HandleFunc m s h =
     (case parsePattern s of
        None \<Rightarrow> None
      | Some p \<Rightarrow> if list_ex (\<lambda>(q, g). conflictsWith p q) m then None else Some (m @ [(p, h)]))"

fun register :: "'h mux \<Rightarrow> (string \<times> 'h) list \<Rightarrow> 'h mux option" where
  "register m [] = Some m"
| "register m ((s, h) # rs) = (case HandleFunc m s h of None \<Rightarrow> None | Some m' \<Rightarrow> register m' rs)"

section \<open>The choice of a handler\<close>

fun pattern_matches :: "pattern \<Rightarrow> string list \<Rightarrow> bool" where
  "pattern_matches [] xs = (xs = [])"
| "pattern_matches (s # p) [] = False"
| "pattern_matches (Lit y # p) (x # xs) = (x = y \<and> pattern_matches p xs)"
| "pattern_matches (Wild n # p) (x # xs) = (x \<noteq> ''/'' \<and> pattern_matches p xs)"
| "pattern_matches (Multi n # p) (x # xs) = True"

text \<open>
  The search tries a literal first, then a wildcard, then the rest of the path: of the
  patterns that match it finds the one that is most specific from the left.
\<close>

fun rank :: "segment \<Rightarrow> nat" where
  "rank (Lit s) = 0"
| "rank (Wild n) = 1"
| "rank (Multi n) = 2"

fun tried_first :: "pattern \<Rightarrow> pattern \<Rightarrow> bool" where
  "tried_first (s # p) (t # q) = (rank s < rank t \<or> rank s = rank t \<and> tried_first p q)"
| "tried_first p q = (p = [])"

fun find_match :: "'h mux \<Rightarrow> string list \<Rightarrow> (pattern \<times> 'h) option" where
  "find_match [] xs = None"
| "find_match ((p, h) # m) xs =
     (if pattern_matches p xs then
        (case find_match m xs of
           Some (q, g) \<Rightarrow> if tried_first p q then Some (p, h) else Some (q, g)
         | None \<Rightarrow> Some (p, h))
      else find_match m xs)"

text \<open>A match is exact unless the rest of the path begins elsewhere than after the pattern's slash.\<close>

definition exactMatch :: "(pattern \<times> 'h) option \<Rightarrow> string \<Rightarrow> bool" where
  "exactMatch n path \<longleftrightarrow>
     (case n of
        None \<Rightarrow> False
      | Some (p, h) \<Rightarrow>
          \<not> ends_multi p \<or>
          (path = [] \<or> last path = CHR ''/'') \<and> length p = length (filter (\<lambda>c. c = CHR ''/'') path))"

datatype 'h dispatched = To 'h | Moved string | Nowhere

text \<open>
  A path that is registered only with a slash at its end is redirected there, and so is a
  path that is not clean; \<^verbatim>\<open>CONNECT\<close> requests are not cleaned.
\<close>

definition matchOrRedirect :: "'h mux \<Rightarrow> string \<Rightarrow> string \<Rightarrow> 'h dispatched" where
  "matchOrRedirect m url_path path =
     (let n = find_match m (segments path) in
      if \<not> exactMatch n path \<and> (path = [] \<or> last path \<noteq> CHR ''/'') \<and>
        exactMatch (find_match m (segments (path @ ''/''))) (path @ ''/'')
      then Moved (cleanPath (pathUnescape url_path) @ ''/'')
      else case n of None \<Rightarrow> Nowhere | Some (p, h) \<Rightarrow> To h)"

definition dispatch :: "'h mux \<Rightarrow> string \<Rightarrow> string \<Rightarrow> 'h dispatched" where
  "dispatch m verb path =
     (if verb = ''CONNECT'' then matchOrRedirect m path path
      else case matchOrRedirect m path (cleanPath path) of
        Moved p \<Rightarrow> Moved p
      | d \<Rightarrow> if cleanPath path \<noteq> path then Moved (cleanPath path) else d)"

section \<open>Matching\<close>

lemma find_match_Some:
  "find_match m xs = Some (p, h) \<Longrightarrow> (p, h) \<in> set m \<and> pattern_matches p xs"
proof (induction m)
  case (Cons x m)
  obtain q g where x: "x = (q, g)" by fastforce
  have "find_match m xs = Some (p, h) \<or> pattern_matches q xs \<and> (p, h) = (q, g)"
    using Cons.prems unfolding x by (cases "find_match m xs") (simp_all split: if_splits prod.splits)
  with Cons.IH x show ?case by auto
qed simp

lemma find_match_None: "find_match m xs = None \<longleftrightarrow> (\<forall>(p, h) \<in> set m. \<not> pattern_matches p xs)"
proof (induction m)
  case (Cons x m)
  obtain q g where x: "x = (q, g)" by fastforce
  show ?case
  proof (cases "find_match m xs")
    case None
    with Cons.IH show ?thesis by (simp add: x)
  next
    case (Some y)
    with Cons.IH show ?thesis by (cases y) (simp add: x)
  qed
qed simp

lemma matchOrRedirect_To:
  "matchOrRedirect m u path = To h \<Longrightarrow> \<exists>p. (p, h) \<in> set m \<and> pattern_matches p (segments path)"
  by (cases "find_match m (segments path)")
    (auto simp: matchOrRedirect_def Let_def dest: find_match_Some simp del: last_snoc split: if_splits)

lemma dispatch_To:
  assumes "dispatch m verb path = To h"
  shows "\<exists>p. (p, h) \<in> set m \<and> pattern_matches p (segments path)" and "verb \<noteq> ''CONNECT'' \<Longrightarrow> cleanPath path = path"
proof -
  have "matchOrRedirect m path path = To h \<and> (verb \<noteq> ''CONNECT'' \<longrightarrow> cleanPath path = path)"
    using assms by (cases "matchOrRedirect m path (cleanPath path)") (auto simp: dispatch_def split: if_splits)
  then show "\<exists>p. (p, h) \<in> set m \<and> pattern_matches p (segments path)" and "verb \<noteq> ''CONNECT'' \<Longrightarrow> cleanPath path = path"
    using matchOrRedirect_To [of m path path h] by auto
qed

section \<open>A path as its own pattern\<close>

text \<open>What a path without wildcards is parsed to: its segments, the rest of it after a last slash.\<close>

fun literal_segments :: "string list \<Rightarrow> pattern" where
  "literal_segments [] = []"
| "literal_segments [x] = [if x = [] then Multi [] else Lit (pathUnescape x)]"
| "literal_segments (x # y # xs) = Lit (pathUnescape x) # literal_segments (y # xs)"

lemma parse_segments_literal:
  "\<forall>x \<in> set xs. CHR ''{'' \<notin> set x \<Longrightarrow> parse_segments seen xs = Some (literal_segments xs)"
  by (induction xs rule: literal_segments.induct) auto

lemma literal_segments_match: "pattern_matches (literal_segments xs) (segments_of xs)"
  by (induction xs rule: literal_segments.induct) auto

lemma segments_of_Nil: "segments_of xs = [] \<longleftrightarrow> xs = []"
  by (cases xs rule: segments_of.cases) auto

lemma literal_segments_multi: "xs \<noteq> [] \<Longrightarrow> ends_multi (literal_segments xs) \<longleftrightarrow> last xs = []"
proof (induction xs rule: literal_segments.induct)
  case (3 x y xs)
  then show ?case by (cases "literal_segments (y # xs)" rule: ends_multi.cases) (auto split: if_splits)
qed auto

lemma split_on_set: "x \<in> set (split_on c s) \<Longrightarrow> set x \<subseteq> set s"
  by (induction s arbitrary: x) (force split: list.splits if_splits)+

lemma last_split_on: "last (split_on c s) = [] \<longleftrightarrow> s = [] \<or> last s = c"
proof (induction s)
  case (Cons a s)
  obtain y ys where y: "split_on c s = y # ys" by (meson neq_Nil_conv split_on_not_Nil)
  with join_split_on [of c s] have "ys = [] \<and> y = [] \<Longrightarrow> s = []" by auto
  with y Cons show ?case by (cases "ys = []") auto
qed simp

lemma parsePattern_literal:
  assumes "parsePattern s = Some p" and "CHR ''{'' \<notin> set s"
  shows "p = literal_segments (split_on (CHR ''/'') (tl s))" and "hd s = CHR ''/''" and "s \<noteq> []"
proof -
  have "set (tl s) \<subseteq> set s" by (cases s) auto
  then have "\<forall>x \<in> set (split_on (CHR ''/'') (tl s)). CHR ''{'' \<notin> set x"
    using split_on_set [of _ "CHR ''/''" "tl s"] assms(2) by blast
  with assms(1) show "p = literal_segments (split_on (CHR ''/'') (tl s))" and "hd s = CHR ''/''" and "s \<noteq> []"
    by (auto simp: parsePattern_def parse_segments_literal split: if_splits)
qed

end
