(* ===== verification/AdminApi.thy ===== *)
theory AdminApi
  imports Server ServeMux
begin

text \<open>
  The endpoints of \<^verbatim>\<open>pkg/server\<close> besides the exchange: health, CA, the admin API behind the
  bearer token, the dashboard with its login (\<^verbatim>\<open>admin_dashboard.go\<close>), and the routes that
  \<^verbatim>\<open>New\<close> registers. A page of the dashboard is the data its template shows; the template is
  a constant of the build that parses.
\<close>

section \<open>Health and CA\<close>

definition handleHealth :: "(server, 'p) handler" where
  "handleHealth s r =
     (if Method r \<noteq> ''GET'' then (s, writeError StatusMethodNotAllowed ''method not allowed'')
      else (s, \<lparr>status = StatusOK, headers = [], body = Text ''ok''\<rparr>))"

definition handleCA :: "(server, 'p) handler" where
  "handleCA s r =
     (if Method r \<noteq> ''GET'' then (s, writeError StatusMethodNotAllowed ''method not allowed'')
      else if sv_selfSignedCA s = []
      then (s, writeError StatusNotFound ''CA endpoint only available in self-signed TLS mode'')
      else (s, \<lparr>status = StatusOK, headers = [(''Content-Type'', ''application/x-pem-file'')],
                body = Text (sv_selfSignedCA s)\<rparr>))"

section \<open>The admin API\<close>

definition requireAdminToken :: "(server, 'p) handler \<Rightarrow> (server, 'p) handler" where
  "requireAdminToken nxt s r =
     (if sc_AdminToken (sv_cfg s) = []
      then (s, writeError StatusForbidden ''admin API is disabled (no TALOSCTL_OIDC_ADMIN_TOKEN configured)'')
      else let auth = header_get r ''Authorization'' in
        if auth = [] then (s, writeError StatusUnauthorized ''missing Authorization header'')
        else if \<not> has_prefix auth ''Bearer ''
        then (s, writeError StatusUnauthorized ''invalid Authorization header (expected Bearer token)'')
        else if constant_time_compare (drop (length ''Bearer '') auth) (sc_AdminToken (sv_cfg s)) \<noteq> 1
        then (s, writeError StatusForbidden ''invalid admin token'')
        else nxt s r)"

text \<open>The answers of the API; a time is encoded by a parameter, as RFC 3339 text.\<close>

definition stats_json :: "world \<Rightarrow> Stats \<Rightarrow> json" where
  "stats_json w st =
     JObj [(''started_at'', JStr (w_time_text w (Some (st_StartedAt st)))), (''uptime'', JStr (st_Uptime st)),
       (''total_certs_issued'', JNum (st_TotalCertsIssued st) 0), (''active_certs'', JNum (st_ActiveCerts st) 0),
       (''total_auth_successes'', JNum (st_TotalAuthSuccesses st) 0),
       (''total_auth_failures'', JNum (st_TotalAuthFailures st) 0),
       (''total_cert_errors'', JNum (st_TotalCertErrors st) 0)]"

definition cert_json :: "world \<Rightarrow> CertRecord \<Rightarrow> json" where
  "cert_json w c =
     JObj [(''subject'', JStr (cr_Subject c)), (''email'', JStr (cr_Email c)),
       (''issued_at'', JStr (w_time_text w (cr_IssuedAt c))), (''expires_at'', JStr (w_time_text w (cr_ExpiresAt c))),
       (''client_ip'', JStr (cr_ClientIP c)), (''roles'', JArr (map JStr (cr_Roles c))), (''ttl'', JStr (cr_TTL c)),
       (''fingerprint'', JStr (cr_Fingerprint c))]"

definition handleAdminStats :: "world \<Rightarrow> (server, 'p) handler" where
  "handleAdminStats w s r =
     (if Method r \<noteq> ''GET'' then (s, writeError StatusMethodNotAllowed ''method not allowed'')
      else case sv_tracker s of
        None \<Rightarrow> (s, writeError StatusInternalServerError ''tracker not initialized'')
      | Some t \<Rightarrow>
          (let (t1, st) = GetStats t (w_clock w 0) (w_clock w 1)
           in (s\<lparr>sv_tracker := Some t1\<rparr>, writeJSON (stats_json w st))))"

definition handleAdminCerts :: "world \<Rightarrow> (server, 'p) handler" where
  "handleAdminCerts w s r =
     (if Method r \<noteq> ''GET'' then (s, writeError StatusMethodNotAllowed ''method not allowed'')
      else case sv_tracker s of
        None \<Rightarrow> (s, writeError StatusInternalServerError ''tracker not initialized'')
      | Some t \<Rightarrow>
          (let (t1, certs) = ActiveCerts t (w_clock w 0)
           in (s\<lparr>sv_tracker := Some t1\<rparr>, writeJSON (JArr (map (cert_json w) certs)))))"

section \<open>The dashboard\<close>

text \<open>The data of the page; without a session the statistics and certificates are the zero values.\<close>

record AdminPageData =
  pg_Stats :: "Stats option"
  pg_Certs :: "CertRecord list"
  pg_CurrentTime :: time
  pg_LoggedIn :: bool
  pg_Error :: string

definition html_header :: "(string \<times> string) list" where
  "html_header = [(''Content-Type'', ''text/html; charset=utf-8'')]"

definition login_page :: "time \<Rightarrow> string \<Rightarrow> AdminPageData" where
  "login_page now err =
     \<lparr>pg_Stats = None, pg_Certs = [], pg_CurrentTime = now, pg_LoggedIn = False, pg_Error = err\<rparr>"

definition cookieName :: string where "cookieName = ''talosctl_oidc_admin_session''"

definition getSessionToken :: "request \<Rightarrow> string" where
  "getSessionToken r = (case map_of (Cookies r) cookieName of None \<Rightarrow> [] | Some v \<Rightarrow> v)"

text \<open>\<^verbatim>\<open>http.Cookie.String\<close> with the attributes the handlers set; the value needs no quoting.\<close>

definition session_cookie :: "request \<Rightarrow> string \<Rightarrow> int \<Rightarrow> string" where
  "session_cookie r val maxAge =
     cookieName @ ''='' @ val @ ''; Path=/admin/; Max-Age='' @ dec_int (if maxAge < 0 then 0 else maxAge) @
     ''; HttpOnly'' @ (if over_TLS r \<or> has_prefix (Proto r) ''HTTPS'' then ''; Secure'' else []) @
     ''; SameSite=Strict''"

text \<open>\<^verbatim>\<open>http.Redirect\<close> in answer to a POST.\<close>

definition see_other :: "(string \<times> string) list \<Rightarrow> string \<Rightarrow> 'p response" where
  "see_other hs url = \<lparr>status = StatusSeeOther, headers = hs @ [(''Location'', url)], body = Text []\<rparr>"

definition handleAdminDashboard :: "world \<Rightarrow> (server, AdminPageData) handler" where
  "handleAdminDashboard w s r =
     (let sessions = (case sv_sessions s of None \<Rightarrow> newSessionStore | Some st \<Rightarrow> st);
          s1 = s\<lparr>sv_sessions := Some sessions\<rparr>;
          sessionToken = getSessionToken r;
          isLoggedIn = (sessionToken \<noteq> [] \<and> ss_validate sessions sessionToken (w_clock w 0));
          page = (\<lambda>d. \<lparr>status = StatusOK, headers = html_header, body = Page d\<rparr>)
      in if \<not> isLoggedIn then (s1, page (login_page (w_clock w 1) []))
         else case sv_tracker s of
           None \<Rightarrow> (s1, writeError StatusInternalServerError ''tracker not initialized'')
         | Some t \<Rightarrow>
             (let (t1, st) = GetStats t (w_clock w 2) (w_clock w 3); (t2, certs) = ActiveCerts t1 (w_clock w 4)
              in (s1\<lparr>sv_tracker := Some t2\<rparr>,
                  page \<lparr>pg_Stats = Some st, pg_Certs = certs, pg_CurrentTime = w_clock w 1, pg_LoggedIn = True,
                    pg_Error = []\<rparr>)))"

text \<open>\<^verbatim>\<open>FormValue\<close> after a \<^verbatim>\<open>ParseForm\<close> that succeeded.\<close>

definition form_value :: "(string \<times> string) list \<Rightarrow> string \<Rightarrow> string" where
  "form_value form k = (case map_of form k of None \<Rightarrow> [] | Some v \<Rightarrow> v)"

definition handleAdminLogin :: "world \<Rightarrow> (server, AdminPageData) handler" where
  "handleAdminLogin w s r =
     (if Method r \<noteq> ''POST'' then (s, writeError StatusMethodNotAllowed ''method not allowed'')
      else if sc_AdminToken (sv_cfg s) = []
      then (s, writeError StatusForbidden ''admin API is disabled (no TALOSCTL_OIDC_ADMIN_TOKEN configured)'')
      else
        let bf = (case sv_bruteForce s of None \<Rightarrow> newBruteForceProtector | Some b \<Rightarrow> b);
            s1 = s\<lparr>sv_bruteForce := Some bf\<rparr>;
            clientIP = getClientIP r
        in if isLockedOut bf clientIP (w_clock w 0) then
             (let remaining = getRemainingLockoutTime bf clientIP (w_clock w 1)
              in (s1, \<lparr>status = StatusTooManyRequests, headers = html_header,
                    body = Page (login_page (w_clock w 2)
                      (''Too many failed attempts. Please try again in '' @ dec_int (remaining div minute + 1) @
                       '' minutes.''))\<rparr>))
           else case Form r of
             None \<Rightarrow> (s1, see_other [] ''/admin/'')
           | Some form \<Rightarrow>
               if constant_time_compare (form_value form ''token'') (sc_AdminToken (sv_cfg s)) \<noteq> 1 then
                 (s1\<lparr>sv_bruteForce := Some (recordFailed bf clientIP (w_clock w 1))\<rparr>,
                  \<lparr>status = StatusUnauthorized, headers = html_header,
                   body = Page (login_page (w_clock w 2) ''Invalid admin token'')\<rparr>)
               else
                 let s2 = s1\<lparr>sv_bruteForce := Some (recordSuccess bf clientIP)\<rparr>;
                     sessions = (case sv_sessions s of None \<Rightarrow> newSessionStore | Some st \<Rightarrow> st)
                 in case ss_create sessions (w_rand w) (w_clock w 1) of
                      (st, None) \<Rightarrow>
                        (s2\<lparr>sv_sessions := Some st\<rparr>, writeError StatusInternalServerError ''failed to create session'')
                    | (st, Some tok) \<Rightarrow>
                        (s2\<lparr>sv_sessions := Some st\<rparr>,
                         see_other [(''Set-Cookie'', session_cookie r tok (int_seconds sessionTimeout))] ''/admin/''))"

definition handleAdminLogout :: "(server, AdminPageData) handler" where
  "handleAdminLogout s r =
     (if Method r \<noteq> ''POST'' then (s, writeError StatusMethodNotAllowed ''method not allowed'')
      else
        let sessionToken = getSessionToken r;
            s1 = (case sv_sessions s of
                    Some st \<Rightarrow> if sessionToken \<noteq> [] then s\<lparr>sv_sessions := Some (ss_delete st sessionToken)\<rparr> else s
                  | None \<Rightarrow> s)
        in (s1, see_other [(''Set-Cookie'', session_cookie r [] (- 1))] ''/admin/''))"

section \<open>Routes\<close>

datatype route = ToExchange | ToHealth | ToCA | ToDashboard | ToLogin | ToLogout | ToStats | ToCerts
  | MovedTo string | NoRoute

definition routes :: "bool \<Rightarrow> (string \<times> route) list" where
  "routes admin =
     [(''/exchange'', ToExchange), (''/healthz'', ToHealth), (''/ca'', ToCA)] @
     (if admin then
        [(''/admin/'', ToDashboard), (''/admin/login'', ToLogin), (''/admin/logout'', ToLogout),
         (''/admin/stats'', ToStats), (''/admin/certs'', ToCerts)]
      else [])"

text \<open>No call panics: \<open>routes_registered\<close> below.\<close>

definition server_mux :: "bool \<Rightarrow> route mux" where
  "server_mux admin = the (register [] (routes admin))"

definition route_of :: "bool \<Rightarrow> request \<Rightarrow> route" where
  "route_of admin r =
     (case dispatch (server_mux admin) (Method r) (Path r) of
        To h \<Rightarrow> h
      | Moved p \<Rightarrow> MovedTo p
      | Nowhere \<Rightarrow> NoRoute)"

lemma routes_registered:
  "register [] (routes admin) = Some (
     [([Lit ''exchange''], ToExchange), ([Lit ''healthz''], ToHealth), ([Lit ''ca''], ToCA)] @
     (if admin then
        [([Lit ''admin'', Multi []], ToDashboard), ([Lit ''admin'', Lit ''login''], ToLogin),
         ([Lit ''admin'', Lit ''logout''], ToLogout), ([Lit ''admin'', Lit ''stats''], ToStats),
         ([Lit ''admin'', Lit ''certs''], ToCerts)]
      else []))"
proof -
  have "\<forall>admin \<in> {True, False}. register [] (routes admin) = Some (
     [([Lit ''exchange''], ToExchange), ([Lit ''healthz''], ToHealth), ([Lit ''ca''], ToCA)] @
     (if admin then
        [([Lit ''admin'', Multi []], ToDashboard), ([Lit ''admin'', Lit ''login''], ToLogin),
         ([Lit ''admin'', Lit ''logout''], ToLogout), ([Lit ''admin'', Lit ''stats''], ToStats),
         ([Lit ''admin'', Lit ''certs''], ToCerts)]
      else []))"
    by code_simp
  then show ?thesis by (cases admin) blast+
qed

lemmas server_mux_patterns = server_mux_def [unfolded routes_registered option.sel]

text \<open>An endpoint answers on its path alone, the dashboard on what is left below its own.\<close>

lemma route_of_endpoint:
  assumes "route_of admin r = h" and "h \<noteq> NoRoute" and "\<forall>p. h \<noteq> MovedTo p"
  shows "\<exists>p. (p, h) \<in> set (server_mux admin) \<and> pattern_matches p (segments (Path r))"
proof (rule dispatch_To)
  show "dispatch (server_mux admin) (Method r) (Path r) = To h"
    using assms by (auto simp: route_of_def split: dispatched.splits)
qed

lemma route_of_exchange: "route_of admin r = ToExchange \<Longrightarrow> segments (Path r) = [''exchange'']"
  by (drule route_of_endpoint) (auto simp: server_mux_patterns neq_Nil_conv elim!: pattern_matches.elims split: if_splits)

text \<open>
  The handler of the server built from \<open>s0\<close>, in its state \<open>s\<close>. The answer to a path that
  moved is the library's.
\<close>

definition NotFound :: "'p response" where
  "NotFound =
     \<lparr>status = StatusNotFound,
      headers = [(''Content-Type'', ''text/plain; charset=utf-8''), (''X-Content-Type-Options'', ''nosniff'')],
      body = Text (''404 page not found'' @ [CHR 0x0A])\<rparr>"

type_synonym moved = "request \<Rightarrow> string \<Rightarrow> nat \<times> (string \<times> string) list \<times> string"

definition moved_response :: "nat \<times> (string \<times> string) list \<times> string \<Rightarrow> 'p response" where
  "moved_response m = (case m of (st, hs, b) \<Rightarrow> \<lparr>status = st, headers = hs, body = Text b\<rparr>)"

definition serve :: "moved \<Rightarrow> server \<Rightarrow> world \<Rightarrow> (server, AdminPageData) handler" where
  "serve moved s0 w s r =
     (case route_of (sv_tracker s0 \<noteq> None) r of
        ToExchange \<Rightarrow> exchange_chain w s0 s r
      | ToHealth \<Rightarrow> handleHealth s r
      | ToCA \<Rightarrow> handleCA s r
      | ToDashboard \<Rightarrow> handleAdminDashboard w s r
      | ToLogin \<Rightarrow> handleAdminLogin w s r
      | ToLogout \<Rightarrow> handleAdminLogout s r
      | ToStats \<Rightarrow> requireAdminToken (handleAdminStats w) s r
      | ToCerts \<Rightarrow> requireAdminToken (handleAdminCerts w) s r
      | MovedTo p \<Rightarrow> (s, moved_response (moved r p))
      | NoRoute \<Rightarrow> (s, NotFound))"

section \<open>What the exchange leaves alone\<close>

definition dash_frame :: "server \<Rightarrow> server \<Rightarrow> bool" where
  "dash_frame s s' \<longleftrightarrow>
     sv_cfg s' = sv_cfg s \<and> sv_sessions s' = sv_sessions s \<and> sv_bruteForce s' = sv_bruteForce s"

lemma issue_certificate_dash:
  "dash_frame s (fst (issue_certificate w rid ip tc s :: server \<times> 'p response))"
  by (simp add: dash_frame_def issue_certificate_def Let_def frame_simps split: sum.split)

lemma handleExchange_dash: "dash_frame s (fst (handleExchange w s r :: server \<times> 'p response))"
proof (cases rule: handleExchange_cases [where 'p = 'p, of w s r])
  case refused
  then show ?thesis by (simp add: dash_frame_def)
next
  case (invalid tok s2 e)
  with validateToken_frame [OF invalid(3)] show ?thesis by (simp add: dash_frame_def frame_simps)
next
  case (valid tok s2 tc)
  let ?s3 = "auditLog w (w_clock w 6)
    ((exchange_event EventAuthSuccess (NewRequestID (w_rand w)) ''success'' ''INFO'' (RemoteAddr r))
      \<lparr>Subject := tc_Subject tc, Email := tc_Email tc, Issuer := tc_Issuer tc\<rparr>) s2"
  have "dash_frame s ?s3" using validateToken_frame [OF valid(3)] by (simp add: dash_frame_def frame_simps)
  with issue_certificate_dash [of ?s3 w "NewRequestID (w_rand w)" "RemoteAddr r" tc, where 'p = 'p] valid(4)
  show ?thesis by (simp add: dash_frame_def)
qed

lemma dash_frame_trans: "dash_frame s s1 \<Longrightarrow> dash_frame s1 s2 \<Longrightarrow> dash_frame s s2"
  by (simp add: dash_frame_def)

lemma al_Middleware_dash:
  "(\<And>s. dash_frame s (fst (h s r))) \<Longrightarrow> dash_frame s (fst (al_Middleware a h s r))"
  by (simp add: al_Middleware_def Let_def) (simp add: dash_frame_def)

lemma rl_Middleware_dash:
  assumes "\<And>s. dash_frame s (fst (h s r))" and "\<And>l s. dash_frame s (put l s)"
  shows "dash_frame s (fst (rl_Middleware get put clock h s r))"
  using assms dash_frame_trans [OF assms(2) assms(1)]
  by (auto simp: rl_Middleware_def Let_def split: prod.split)

lemma exchange_chain_dash: "dash_frame s (fst (exchange_chain w s0 s r :: server \<times> 'p response))"
proof -
  have h: "dash_frame s (fst (handleExchange w s r :: server \<times> 'p response))" for s
    by (rule handleExchange_dash)
  have put: "dash_frame s (s\<lparr>sv_limiter := l\<rparr>)" for l s by (simp add: dash_frame_def)
  obtain h1 :: "(server, 'p) handler" where h1: "h1 = (case sc_Allowlist (sv_cfg s0) of
      Some a \<Rightarrow> if al_IsEnabled (Some a) then al_Middleware a (handleExchange w) else handleExchange w
    | None \<Rightarrow> handleExchange w)" by simp
  have "dash_frame s (fst (h1 s r))" for s
    using h al_Middleware_dash [where h = "handleExchange w", OF h] by (simp add: h1 split: option.split)
  note inner = this rl_Middleware_dash [where h = h1 and put = "\<lambda>l s. s\<lparr>sv_limiter := Some l\<rparr>", OF this put]
  show ?thesis
    unfolding exchange_chain_def Let_def h1 [symmetric] using inner by (simp split: option.split)
qed

section \<open>Who sees the administrator's data\<close>

text \<open>
  What happens to a running server: it answers a request, or the goroutine that
  \<^verbatim>\<open>StartCleanup\<close> began finds a tick and clears the limiter, when there is one.
\<close>

datatype happening = Answered world request "AdminPageData response" | CleanedUp time

fun answers :: "happening list \<Rightarrow> (world \<times> request \<times> AdminPageData response) list" where
  "answers [] = []"
| "answers (Answered w r resp # hs) = (w, r, resp) # answers hs"
| "answers (CleanedUp t # hs) = answers hs"

lemma answers_append [simp]: "answers (hs @ hs') = answers hs @ answers hs'"
  by (induction hs rule: answers.induct) simp_all

definition limiter_tick :: "time \<Rightarrow> server \<Rightarrow> server" where
  "limiter_tick now s = s\<lparr>sv_limiter := map_option (\<lambda>l. rl_Cleanup l now) (sv_limiter s)\<rparr>"

lemma limiter_tick_fields [simp]:
  "sv_cfg (limiter_tick t s) = sv_cfg s" "sv_sessions (limiter_tick t s) = sv_sessions s"
  "sv_issue_calls (limiter_tick t s) = sv_issue_calls s"
  "sv_limiter (limiter_tick t s) = map_option (\<lambda>l. rl_Cleanup l t) (sv_limiter s)"
  by (simp_all add: limiter_tick_def)

inductive served :: "moved \<Rightarrow> server \<Rightarrow> happening list \<Rightarrow> server \<Rightarrow> bool"
  for moved :: moved and s0 :: server where
  started: "served moved s0 [] s0"
| answered: "served moved s0 tr s \<Longrightarrow> serve moved s0 w s r = (s', resp) \<Longrightarrow>
    served moved s0 (tr @ [Answered w r resp]) s'"
| cleaned: "served moved s0 tr s \<Longrightarrow> served moved s0 (tr @ [CleanedUp t]) (limiter_tick t s)"

text \<open>A login that succeeded, the token it handed out and when.\<close>

definition logged_in :: "server \<Rightarrow> world \<times> request \<times> AdminPageData response \<Rightarrow> string \<Rightarrow> time \<Rightarrow> bool" where
  "logged_in s0 x tok t \<longleftrightarrow>
     (case x of (w, r, resp) \<Rightarrow>
        Method r = ''POST'' \<and> sc_AdminToken (sv_cfg s0) \<noteq> [] \<and>
        (\<exists>form. Form r = Some form \<and> form_value form ''token'' = sc_AdminToken (sv_cfg s0)) \<and>
        generateToken (w_rand w) = Some tok \<and> w_clock w 1 = t \<and>
        resp = see_other [(''Set-Cookie'', session_cookie r tok (int_seconds sessionTimeout))] ''/admin/'')"

definition sessions_earned :: "server \<Rightarrow> (world \<times> request \<times> AdminPageData response) list \<Rightarrow> server \<Rightarrow> bool" where
  "sessions_earned s0 tr s \<longleftrightarrow> sv_cfg s = sv_cfg s0 \<and>
     (\<forall>st tok e. sv_sessions s = Some st \<longrightarrow> st tok = Some e \<longrightarrow>
        (\<exists>x \<in> set tr. logged_in s0 x tok (ss_createdAt e)))"

lemma sessions_earned_frame:
  "sessions_earned s0 tr s \<Longrightarrow> sv_cfg s' = sv_cfg s \<Longrightarrow> sv_sessions s' = sv_sessions s \<Longrightarrow>
   sessions_earned s0 (tr @ [x]) s'"
  by (fastforce simp: sessions_earned_def)

text \<open>A login is turned away, or finds no randomness, or opens a session.\<close>

definition store_of :: "server \<Rightarrow> sessionStore" where
  "store_of s = (case sv_sessions s of None \<Rightarrow> newSessionStore | Some st \<Rightarrow> st)"

lemma handleAdminLogin_cases:
  assumes "handleAdminLogin w s r = (s', resp)"
  obtains (turned_away) "sv_cfg s' = sv_cfg s" "sv_sessions s' = sv_sessions s" "status resp \<noteq> StatusOK"
  | (no_token) "sv_cfg s' = sv_cfg s" "sv_sessions s' = Some (store_of s)" "status resp \<noteq> StatusOK"
  | (entered) form st tok where "Method r = ''POST''" "sc_AdminToken (sv_cfg s) \<noteq> []" "Form r = Some form"
      "form_value form ''token'' = sc_AdminToken (sv_cfg s)" "ss_create (store_of s) (w_rand w) (w_clock w 1) = (st, Some tok)"
      "sv_cfg s' = sv_cfg s" "sv_sessions s' = Some st"
      "resp = see_other [(''Set-Cookie'', session_cookie r tok (int_seconds sessionTimeout))] ''/admin/''"
proof -
  let ?bf = "case sv_bruteForce s of None \<Rightarrow> newBruteForceProtector | Some b \<Rightarrow> b"
  note defs = handleAdminLogin_def Let_def writeError_def see_other_def
  consider (closed) "Method r \<noteq> ''POST'' \<or> sc_AdminToken (sv_cfg s) = [] \<or> isLockedOut ?bf (getClientIP r) (w_clock w 0) \<or>
      Form r = None \<or> (\<exists>form. Form r = Some form \<and> form_value form ''token'' \<noteq> sc_AdminToken (sv_cfg s))"
    | (open_) form where "Method r = ''POST''" "sc_AdminToken (sv_cfg s) \<noteq> []"
      "\<not> isLockedOut ?bf (getClientIP r) (w_clock w 0)"
      "Form r = Some form" "form_value form ''token'' = sc_AdminToken (sv_cfg s)"
    by (cases "Form r") blast+
  then show thesis
  proof cases
    case closed
    with assms show thesis by (intro turned_away) (auto simp: defs split: if_splits option.splits)
  next
    case open_
    obtain st to where c: "ss_create (store_of s) (w_rand w) (w_clock w 1) = (st, to)" by fastforce
    show thesis
    proof (cases to)
      case None
      with c have "st = store_of s" by (auto simp: ss_create_def Let_def split: option.splits)
      with open_ c None assms show thesis by (intro no_token) (auto simp: defs store_of_def split: if_splits)
    next
      case (Some tok)
      with open_ c assms show thesis
        by (intro entered [of form st tok]) (auto simp: defs store_of_def split: if_splits)
    qed
  qed
qed

lemma ss_create_entry:
  assumes "ss_create st rand now = (st', Some tok)"
  shows "generateToken rand = Some tok" "ss_createdAt (the (st' tok)) = now"
    and "st' k = Some e \<Longrightarrow> k = tok \<and> ss_createdAt e = now \<or> st k = Some e"
  using assms by (auto simp: ss_create_def Let_def split: option.splits if_splits)

lemma sessions_earned_same:
  "sessions_earned s0 tr s \<Longrightarrow> sv_cfg s' = sv_cfg s \<Longrightarrow> sv_sessions s' = Some (store_of s) \<Longrightarrow>
   sessions_earned s0 (tr @ [x]) s'"
  by (cases "sv_sessions s") (fastforce simp: sessions_earned_def store_of_def newSessionStore_def)+

lemma handleAdminLogin_sessions:
  assumes "sessions_earned s0 tr s" and "handleAdminLogin w s r = (s', resp)"
  shows "sessions_earned s0 (tr @ [(w, r, resp)]) s'"
  using assms(2)
proof (cases rule: handleAdminLogin_cases)
  case turned_away
  with assms(1) show ?thesis using sessions_earned_frame by metis
next
  case no_token
  with assms(1) show ?thesis using sessions_earned_same by metis
next
  case (entered form st tok)
  note entry = ss_create_entry [OF entered(5)]
  have cfg: "sv_cfg s = sv_cfg s0" using assms(1) by (simp add: sessions_earned_def)
  have new: "logged_in s0 (w, r, resp) tok (w_clock w 1)"
    using entered entry(1) by (simp add: logged_in_def cfg)
  have "\<exists>x \<in> set (tr @ [(w, r, resp)]). logged_in s0 x k (ss_createdAt e)" if "st k = Some e" for k e
    using entry(3) [OF that]
  proof
    assume "k = tok \<and> ss_createdAt e = w_clock w 1"
    with new show ?thesis by auto
  next
    assume "store_of s k = Some e"
    then obtain st0 where "sv_sessions s = Some st0" "st0 k = Some e"
      by (auto simp: store_of_def newSessionStore_def split: option.splits)
    with assms(1) show ?thesis unfolding sessions_earned_def by fastforce
  qed
  with entered(6,7) cfg show ?thesis by (simp add: sessions_earned_def)
qed

lemma handleAdminLogout_sessions:
  assumes "sessions_earned s0 tr s" and "handleAdminLogout s r = (s', resp)"
  shows "sessions_earned s0 (tr @ [x]) s'"
proof -
  have "s' = s \<or> (\<exists>st. sv_sessions s = Some st \<and> s' = s\<lparr>sv_sessions := Some (ss_delete st (getSessionToken r))\<rparr>)"
    using assms(2) by (auto simp: handleAdminLogout_def Let_def split: if_splits option.splits)
  then show ?thesis
  proof
    assume "s' = s"
    with assms(1) show ?thesis using sessions_earned_frame by metis
  next
    assume "\<exists>st. sv_sessions s = Some st \<and> s' = s\<lparr>sv_sessions := Some (ss_delete st (getSessionToken r))\<rparr>"
    then obtain st where st: "sv_sessions s = Some st"
      "s' = s\<lparr>sv_sessions := Some (ss_delete st (getSessionToken r))\<rparr>" by blast
    have "\<exists>x \<in> set tr. logged_in s0 x k (ss_createdAt e)" if "ss_delete st (getSessionToken r) k = Some e" for k e
      using assms(1) st(1) that by (auto simp: sessions_earned_def ss_delete_def split: if_splits)
    with assms(1) st(2) show ?thesis by (auto simp: sessions_earned_def)
  qed
qed

lemma handleAdminDashboard_state:
  assumes "handleAdminDashboard w s r = (s', resp)"
  shows "sv_cfg s' = sv_cfg s" "sv_sessions s' = Some (store_of s)"
  using assms
  by (auto simp: handleAdminDashboard_def Let_def store_of_def split: if_splits option.splits prod.splits)

lemma requireAdminToken_state:
  assumes "\<And>s. sv_cfg (fst (h s r)) = sv_cfg s \<and> sv_sessions (fst (h s r)) = sv_sessions s"
  shows "sv_cfg (fst (requireAdminToken h s r)) = sv_cfg s"
    "sv_sessions (fst (requireAdminToken h s r)) = sv_sessions s"
  using assms by (simp_all add: requireAdminToken_def Let_def)

lemma admin_api_state:
  "sv_cfg (fst (handleAdminStats w s r)) = sv_cfg s \<and> sv_sessions (fst (handleAdminStats w s r)) = sv_sessions s"
  "sv_cfg (fst (handleAdminCerts w s r)) = sv_cfg s \<and> sv_sessions (fst (handleAdminCerts w s r)) = sv_sessions s"
  by (simp_all add: handleAdminStats_def handleAdminCerts_def Let_def split: option.split prod.split)

lemma serve_sessions:
  assumes "sessions_earned s0 tr s" and "serve moved s0 w s r = (s', resp)"
  shows "sessions_earned s0 (tr @ [(w, r, resp)]) s'"
proof -
  have same: "sessions_earned s0 (tr @ [(w, r, resp)]) s'" if "sv_cfg s' = sv_cfg s" "sv_sessions s' = sv_sessions s"
    using assms(1) that by (rule sessions_earned_frame)
  have api: "sessions_earned s0 (tr @ [(w, r, resp)]) s'"
    if "s' = fst (requireAdminToken h s r)"
      and "\<And>s. sv_cfg (fst (h s r)) = sv_cfg s \<and> sv_sessions (fst (h s r)) = sv_sessions s" for h :: "(server, AdminPageData) handler"
    using that(1) requireAdminToken_state [where h = h, OF that(2)] by (intro same) simp_all
  show ?thesis
  proof (cases "route_of (sv_tracker s0 \<noteq> None) r")
    case ToExchange
    with assms(2) exchange_chain_dash [of s w s0 r, where 'p = AdminPageData] show ?thesis
      by (intro same) (simp_all add: serve_def dash_frame_def)
  next
    case ToDashboard
    with assms(2) have "handleAdminDashboard w s r = (s', resp)" by (simp add: serve_def)
    from handleAdminDashboard_state [OF this] assms(1) show ?thesis using sessions_earned_same by metis
  next
    case ToLogin
    with assms(2) have "handleAdminLogin w s r = (s', resp)" by (simp add: serve_def)
    with assms(1) show ?thesis by (rule handleAdminLogin_sessions)
  next
    case ToLogout
    with assms(2) have "handleAdminLogout s r = (s', resp)" by (simp add: serve_def)
    with assms(1) show ?thesis by (rule handleAdminLogout_sessions)
  next
    case ToStats
    with assms(2) show ?thesis
      by (intro api [where h = "handleAdminStats w"]) (simp_all add: serve_def admin_api_state)
  next
    case ToCerts
    with assms(2) show ?thesis
      by (intro api [where h = "handleAdminCerts w"]) (simp_all add: serve_def admin_api_state)
  qed ((rule same; use assms(2) in \<open>auto simp: serve_def handleHealth_def handleCA_def split: if_splits\<close>)+)
qed

lemma sessions_earned_tick: "sessions_earned s0 tr s \<Longrightarrow> sessions_earned s0 tr (limiter_tick t s)"
  by (simp add: sessions_earned_def)

lemma served_earned: "served moved s0 tr s \<Longrightarrow> sv_sessions s0 = None \<Longrightarrow> sessions_earned s0 (answers tr) s"
  by (induction rule: served.induct)
    (simp_all add: sessions_earned_def [of s0 "[]"] serve_sessions sessions_earned_tick)

text \<open>An answer that shows what the tracker knows.\<close>

definition shows_data :: "server \<Rightarrow> request \<Rightarrow> AdminPageData response \<Rightarrow> bool" where
  "shows_data s0 r resp \<longleftrightarrow>
     route_of (sv_tracker s0 \<noteq> None) r \<in> {ToStats, ToCerts} \<and> status resp = StatusOK \<or>
     (\<exists>d. body resp = Page d \<and> (pg_LoggedIn d \<or> pg_Stats d \<noteq> None \<or> pg_Certs d \<noteq> []))"

lemma requireAdminToken_OK:
  assumes "status (snd (requireAdminToken h s r)) = StatusOK"
  shows "header_get r ''Authorization'' = ''Bearer '' @ sc_AdminToken (sv_cfg s) \<and> sc_AdminToken (sv_cfg s) \<noteq> []"
proof -
  have "has_prefix (header_get r ''Authorization'') ''Bearer ''"
    "drop (length ''Bearer '') (header_get r ''Authorization'') = sc_AdminToken (sv_cfg s)"
    "sc_AdminToken (sv_cfg s) \<noteq> []"
    using assms by (auto simp: requireAdminToken_def writeError_def Let_def split: if_splits)
  then show ?thesis unfolding has_prefix_def by (metis append_take_drop_id)
qed

definition no_page :: "'p response \<Rightarrow> bool" where
  "no_page resp \<longleftrightarrow> (\<forall>d. body resp \<noteq> Page d)"

lemma no_page_simps [simp]:
  "no_page (writeError st msg)" "no_page (writeJSON v)" "no_page (see_other hs url)" "no_page NotFound"
  "no_page (moved_response m)" "no_page \<lparr>status = st, headers = hs, body = Text t\<rparr>"
  by (simp_all add: no_page_def writeError_def writeJSON_def see_other_def NotFound_def moved_response_def
      split: prod.split)

lemma exchange_no_page: "no_page (snd (exchange_chain w s0 s r :: server \<times> 'p response))"
proof -
  have h: "no_page (snd (handleExchange w s r :: server \<times> 'p response))" for s
  proof -
    have "no_page resp" if "read_token w r = Inl resp" for resp :: "'p response"
      using that by (auto simp: read_token_def split: option.splits if_splits)
    then show ?thesis
      by (auto simp: handleExchange_def Let_def issue_certificate_answer split: sum.split prod.split)
  qed
  have al: "no_page (snd (al_Middleware a (handleExchange w) s r :: server \<times> 'p response))" for a s
    using h by (simp add: al_Middleware_def Let_def)
  have rl: "no_page (snd (rl_Middleware get put clock h1 s r :: server \<times> 'p response))"
    if "\<And>s. no_page (snd (h1 s r))" for get put clock s and h1 :: "(server, 'p) handler"
    using that by (simp add: rl_Middleware_def Let_def split: prod.split)
  show ?thesis
    unfolding exchange_chain_def Let_def
    using h al rl by (auto split: option.split)
qed

lemma requireAdminToken_no_page:
  "no_page (snd (h s r)) \<Longrightarrow> no_page (snd (requireAdminToken h s r))"
  by (simp add: requireAdminToken_def Let_def)

lemma admin_api_no_page:
  "no_page (snd (handleAdminStats w s r))" "no_page (snd (handleAdminCerts w s r))"
  by (simp_all add: handleAdminStats_def handleAdminCerts_def Let_def split: option.split prod.split)

lemma page_route:
  assumes "serve moved s0 w s r = (s', resp)" and "\<not> no_page resp"
  shows "route_of (sv_tracker s0 \<noteq> None) r \<in> {ToDashboard, ToLogin}"
proof (cases "route_of (sv_tracker s0 \<noteq> None) r")
  case ToExchange
  with assms exchange_no_page [of w s0 s r, where 'p = AdminPageData] show ?thesis by (simp add: serve_def)
next
  case ToStats
  with assms requireAdminToken_no_page [where h = "handleAdminStats w :: (server, AdminPageData) handler", OF admin_api_no_page(1), of s r]
  show ?thesis by (simp add: serve_def)
next
  case ToCerts
  with assms requireAdminToken_no_page [where h = "handleAdminCerts w :: (server, AdminPageData) handler", OF admin_api_no_page(2), of s r]
  show ?thesis by (simp add: serve_def)
qed (use assms in \<open>auto simp: serve_def handleHealth_def handleCA_def handleAdminLogout_def Let_def
    split: if_splits\<close>)

lemma dashboard_page:
  assumes "handleAdminDashboard w s r = (s', resp)" and "body resp = Page d"
    and "pg_LoggedIn d \<or> pg_Stats d \<noteq> None \<or> pg_Certs d \<noteq> []"
  shows "getSessionToken r \<noteq> [] \<and> ss_validate (store_of s) (getSessionToken r) (w_clock w 0)"
  using assms
  by (auto simp: handleAdminDashboard_def Let_def store_of_def login_page_def split: if_splits option.splits)

lemma login_page_hidden:
  assumes "handleAdminLogin w s r = (s', resp)" and "body resp = Page d"
  shows "\<not> pg_LoggedIn d \<and> pg_Stats d = None \<and> pg_Certs d = []"
  using assms
  by (auto simp: handleAdminLogin_def Let_def login_page_def writeError_def see_other_def
      split: if_splits option.splits prod.splits)

text \<open>
  C14. Nobody sees the statistics or the issued certificates without the admin token:
  whatever requests the server has answered since it started, an answer of the API that
  shows them went to a request with the configured bearer token, and a dashboard that
  shows them to a request with the session cookie that an earlier login handed out, at
  most 24 hours ago, to whoever posted the configured token. With no token configured,
  nobody sees them.
\<close>

theorem admin_data_guarded:
  assumes "served moved s0 tr s" and "sv_sessions s0 = None"
    and "serve moved s0 w s r = (s', resp)" and "shows_data s0 r resp"
  shows "sc_AdminToken (sv_cfg s0) \<noteq> [] \<and>
    (header_get r ''Authorization'' = ''Bearer '' @ sc_AdminToken (sv_cfg s0) \<or>
     (\<exists>x \<in> set (answers tr). \<exists>t. logged_in s0 x (getSessionToken r) t \<and> w_clock w 0 - t \<le> sessionTimeout))"
proof -
  have earned: "sessions_earned s0 (answers tr) s" using served_earned assms(1,2) .
  then have cfg: "sv_cfg s = sv_cfg s0" by (simp add: sessions_earned_def)
  have guarded: ?thesis if "status (snd (requireAdminToken h s r)) = StatusOK" for h :: "(server, AdminPageData) handler"
    using requireAdminToken_OK [OF that] cfg by simp
  consider (api) "route_of (sv_tracker s0 \<noteq> None) r \<in> {ToStats, ToCerts}" "status resp = StatusOK"
    | (page) d where "body resp = Page d" "pg_LoggedIn d \<or> pg_Stats d \<noteq> None \<or> pg_Certs d \<noteq> []"
    using assms(4) by (auto simp: shows_data_def)
  then show ?thesis
  proof cases
    case api
    with assms(3) guarded [of "handleAdminStats w"] guarded [of "handleAdminCerts w"] show ?thesis
      by (auto simp: serve_def)
  next
    case page
    then have "\<not> no_page resp" by (auto simp: no_page_def)
    with page_route [OF assms(3)] login_page_hidden [of w s r s' resp d] page assms(3)
    have "handleAdminDashboard w s r = (s', resp)" by (auto simp: serve_def)
    from dashboard_page [OF this page]
    have "ss_validate (store_of s) (getSessionToken r) (w_clock w 0)" by simp
    then obtain st e where e: "sv_sessions s = Some st" "st (getSessionToken r) = Some e"
      "w_clock w 0 - ss_createdAt e \<le> sessionTimeout"
      by (auto simp: ss_validate_def store_of_def session_live_def newSessionStore_def not_less split: option.splits)
    then obtain x where x: "x \<in> set (answers tr)" "logged_in s0 x (getSessionToken r) (ss_createdAt e)"
      using earned unfolding sessions_earned_def by blast
    then have "sc_AdminToken (sv_cfg s0) \<noteq> []" by (auto simp: logged_in_def)
    with x e(3) show ?thesis by blast
  qed
qed

text \<open>A login and a visit to the dashboard an hour later.\<close>

definition demo_admin :: server where
  "demo_admin = demo_server\<lparr>sv_cfg := demo_config\<lparr>sc_AdminToken := ''T''\<rparr>, sv_tracker := Some (NewTracker 0)\<rparr>"

definition demo_moved :: moved where
  "demo_moved r p = (307, [(''Location'', p)], [])"

definition demo_at :: "time \<Rightarrow> world" where
  "demo_at t = demo_world\<lparr>w_clock := \<lambda>n. t, w_rand := Some (replicate 32 (CHR ''r''))\<rparr>"

definition demo_login :: "string \<Rightarrow> request" where
  "demo_login tok = (demo_request ''203.0.113.9:4711'' [])
     \<lparr>Method := ''POST'', Path := ''/admin/login'', Form := Some [(''token'', tok)]\<rparr>"

definition demo_visit :: request where
  "demo_visit = (demo_request ''203.0.113.9:4712'' [])
     \<lparr>Path := ''/admin/'', Cookies := [(cookieName, URLEncoding_Encode (replicate 32 (CHR ''r'')))]\<rparr>"

lemma demo_routes:
  "route_of True (demo_login tok) = ToLogin" "route_of True demo_visit = ToDashboard"
proof -
  have "dispatch (server_mux True) ''POST'' ''/admin/login'' = To ToLogin"
    "dispatch (server_mux True) ''GET'' ''/admin/'' = To ToDashboard"
    by code_simp+
  then show "route_of True (demo_login tok) = ToLogin" "route_of True demo_visit = ToDashboard"
    by (simp_all add: route_of_def demo_login_def demo_visit_def demo_request_def)
qed

definition demo_session :: string where
  "demo_session = URLEncoding_Encode (replicate 32 (CHR ''r''))"

lemma ss_create_New:
  "ss_create newSessionStore (Some b) now =
   ([URLEncoding_Encode (take 32 b) \<mapsto> \<lparr>ss_token = URLEncoding_Encode (take 32 b), ss_createdAt = now\<rparr>],
    Some (URLEncoding_Encode (take 32 b)))"
  by (simp add: ss_create_def generateToken_def newSessionStore_def)

lemma demo_logged_in:
  "sv_tracker (fst (handleAdminLogin (demo_at 0) demo_admin (demo_login ''T''))) = Some (NewTracker 0)"
  "sv_sessions (fst (handleAdminLogin (demo_at 0) demo_admin (demo_login ''T''))) =
     Some [demo_session \<mapsto> \<lparr>ss_token = demo_session, ss_createdAt = 0\<rparr>]"
  by (simp_all add: handleAdminLogin_def Let_def demo_admin_def demo_server_def demo_config_def demo_login_def
      demo_request_def newBruteForceProtector_def isLockedOut_def ss_create_New demo_at_def form_value_def
      demo_session_def)

lemma demo_session_nonempty: "demo_session \<noteq> []"
proof -
  have "replicate 32 (CHR ''r'') = CHR ''r'' # CHR ''r'' # CHR ''r'' # replicate 29 (CHR ''r'')"
    by (simp add: numeral_eq_Suc)
  then show ?thesis by (simp add: demo_session_def URLEncoding_Encode_def Let_def)
qed

lemma demo_shown:
  assumes "sv_tracker s = Some (NewTracker 0)"
    and "sv_sessions s = Some [demo_session \<mapsto> \<lparr>ss_token = demo_session, ss_createdAt = 0\<rparr>]"
  shows "\<exists>d. body (snd (handleAdminDashboard (demo_at hour) s demo_visit)) = Page d \<and> pg_LoggedIn d"
proof -
  have "getSessionToken demo_visit = demo_session"
    by (simp add: getSessionToken_def demo_visit_def demo_session_def)
  moreover have "session_live \<lparr>ss_token = demo_session, ss_createdAt = 0\<rparr> hour"
    by (simp add: session_live_def sessionTimeout_def)
  ultimately show ?thesis
    using assms demo_session_nonempty
    by (simp add: handleAdminDashboard_def Let_def ss_validate_def demo_at_def split: prod.split)
qed

theorem admin_data_guarded_witness:
  "\<exists>x t. logged_in demo_admin x demo_session t \<and> w_clock (demo_at hour) 0 - t \<le> sessionTimeout"
proof -
  let ?w = "demo_at 0" and ?r = "demo_login ''T''"
  obtain s1 resp where login: "handleAdminLogin ?w demo_admin ?r = (s1, resp)" by fastforce
  obtain s2 page where visit: "handleAdminDashboard (demo_at hour) s1 demo_visit = (s2, page)" by fastforce
  have tracked: "sv_tracker demo_admin \<noteq> None" by (simp add: demo_admin_def)
  have "serve demo_moved demo_admin ?w demo_admin ?r = (s1, resp)"
    using login demo_routes(1) tracked by (simp add: serve_def)
  from served.answered [OF served.started this]
  have run: "served demo_moved demo_admin [Answered ?w ?r resp] s1" by simp
  have answer: "serve demo_moved demo_admin (demo_at hour) s1 demo_visit = (s2, page)"
    using visit demo_routes(2) tracked by (simp add: serve_def)
  have "shows_data demo_admin demo_visit page"
    using demo_shown [of s1] demo_logged_in login visit by (auto simp: shows_data_def)
  from admin_data_guarded [OF run _ answer this] have
    "header_get demo_visit ''Authorization'' = ''Bearer '' @ sc_AdminToken (sv_cfg demo_admin) \<or>
     (\<exists>x \<in> {(?w, ?r, resp)}. \<exists>t. logged_in demo_admin x (getSessionToken demo_visit) t \<and>
       w_clock (demo_at hour) 0 - t \<le> sessionTimeout)"
    by (simp add: demo_admin_def demo_server_def)
  moreover have "getSessionToken demo_visit = demo_session" "header_get demo_visit ''Authorization'' = []"
    by (simp_all add: getSessionToken_def demo_visit_def demo_session_def header_get_def demo_request_def)
  ultimately show ?thesis by auto
qed

section \<open>The lockout and the header\<close>

fun logins :: "server \<Rightarrow> (world \<times> request) list \<Rightarrow> AdminPageData response list" where
  "logins s [] = []"
| "logins s ((w, r) # rs) = (let (s1, resp) = handleAdminLogin w s r in resp # logins s1 rs)"

text \<open>The \<open>i\<close>-th guess of a client that makes up a new forwarded address each time.\<close>

definition forged_guess :: "request \<Rightarrow> nat \<Rightarrow> string \<Rightarrow> request" where
  "forged_guess r i guess =
     r\<lparr>Method := ''POST'', Header := (Header r)(''X-Forwarded-For'' := [replicate (Suc i) (CHR ''x'')]),
       Form := Some [(''token'', guess)]\<rparr>"

lemma forged_key: "getClientIP (forged_guess r i g) = replicate (Suc i) (CHR ''x'')"
  by (simp add: getClientIP_def header_get_def forged_guess_def before_char_def)

lemma forged_answer:
  assumes "sc_AdminToken (sv_cfg s) \<noteq> []" and "g \<noteq> sc_AdminToken (sv_cfg s)"
    and "\<forall>j \<ge> i. \<forall>b. sv_bruteForce s = Some b \<longrightarrow> b (replicate (Suc j) (CHR ''x'')) = None"
  obtains s1 where "handleAdminLogin w s (forged_guess r i g) =
      (s1, \<lparr>status = StatusUnauthorized, headers = html_header,
        body = Page (login_page (w_clock w 2) ''Invalid admin token'')\<rparr>)"
    "sv_cfg s1 = sv_cfg s"
    "\<forall>j \<ge> Suc i. \<forall>b. sv_bruteForce s1 = Some b \<longrightarrow> b (replicate (Suc j) (CHR ''x'')) = None"
proof -
  define bf where "bf = (case sv_bruteForce s of None \<Rightarrow> newBruteForceProtector | Some b \<Rightarrow> b)"
  have fresh: "\<forall>j \<ge> i. bf (replicate (Suc j) (CHR ''x'')) = None"
    using assms(3) by (auto simp: bf_def newBruteForceProtector_def split: option.split)
  then have "\<not> isLockedOut bf (replicate (Suc i) (CHR ''x'')) (w_clock w 0)" by (simp add: isLockedOut_def)
  moreover have "Method (forged_guess r i g) = ''POST''" "Form (forged_guess r i g) = Some [(''token'', g)]"
    by (simp_all add: forged_guess_def)
  ultimately have answer: "handleAdminLogin w s (forged_guess r i g) =
      (s\<lparr>sv_bruteForce := Some (recordFailed bf (replicate (Suc i) (CHR ''x'')) (w_clock w 1))\<rparr>,
       \<lparr>status = StatusUnauthorized, headers = html_header,
        body = Page (login_page (w_clock w 2) ''Invalid admin token'')\<rparr>)"
    using assms(1,2) forged_key [of r i g]
    by (simp add: handleAdminLogin_def Let_def bf_def [symmetric] form_value_def del: replicate.simps)
  have rest: "\<forall>j \<ge> Suc i. recordFailed bf (replicate (Suc i) (CHR ''x'')) (w_clock w 1) (replicate (Suc j) (CHR ''x'')) = None"
  proof (intro allI impI)
    fix j assume "Suc i \<le> j"
    then have "replicate (Suc j) (CHR ''x'') \<noteq> replicate (Suc i) (CHR ''x'')" by (auto dest: arg_cong [of _ _ length] simp del: replicate.simps)
    with fresh \<open>Suc i \<le> j\<close> show "recordFailed bf (replicate (Suc i) (CHR ''x'')) (w_clock w 1) (replicate (Suc j) (CHR ''x'')) = None"
      by (simp add: recordFailed_def Let_def del: replicate.simps)
  qed
  show thesis by (rule that [OF answer]) (use rest in simp_all)
qed

text \<open>
  C21. The lockout does not bind a client that sets \<^verbatim>\<open>X-Forwarded-For\<close>: from one address and
  on a fresh server, any number of wrong tokens are all compared and answered with 401,
  none with 429, since the header the client chooses is the key they are counted under.
\<close>

theorem lockout_evaded:
  assumes "sc_AdminToken (sv_cfg s) \<noteq> []" and "sv_bruteForce s = None"
    and "\<forall>g \<in> set guesses. g \<noteq> sc_AdminToken (sv_cfg s)"
  shows "map status (logins s (map (\<lambda>(i, g). (w, forged_guess r i g)) (enumerate 0 guesses))) =
    replicate (length guesses) StatusUnauthorized"
proof -
  have "map status (logins s (map (\<lambda>(i, g). (w, forged_guess r i g)) (enumerate n guesses))) =
      replicate (length guesses) StatusUnauthorized"
    if "\<forall>j \<ge> n. \<forall>b. sv_bruteForce s = Some b \<longrightarrow> b (replicate (Suc j) (CHR ''x'')) = None" for n
    using assms(1,3) that
  proof (induction guesses arbitrary: s n)
    case (Cons g gs)
    obtain s1 where a: "handleAdminLogin w s (forged_guess r n g) =
        (s1, \<lparr>status = StatusUnauthorized, headers = html_header,
          body = Page (login_page (w_clock w 2) ''Invalid admin token'')\<rparr>)"
      "sv_cfg s1 = sv_cfg s"
      "\<forall>j \<ge> Suc n. \<forall>b. sv_bruteForce s1 = Some b \<longrightarrow> b (replicate (Suc j) (CHR ''x'')) = None"
      by (rule forged_answer [of s g n w r]) (use Cons.prems in auto)
    with Cons.IH [of s1 "Suc n"] Cons.prems show ?case by simp
  qed simp
  from this [of 0] assms(2) show ?thesis by simp
qed

theorem lockout_evaded_witness:
  "map status (logins demo_admin (map (\<lambda>(i, g). (demo_at 0, forged_guess demo_visit i g)) (enumerate 0 (replicate 100 ''wrong'')))) =
     replicate 100 StatusUnauthorized"
  using lockout_evaded [of demo_admin "replicate 100 ''wrong''" "demo_at 0" demo_visit]
  by (simp add: demo_admin_def demo_server_def demo_config_def del: replicate.simps)

end
