(* ===== verification/CertReload.thy ===== *)
theory CertReload
  imports GoTime
begin

text \<open>
  \<^verbatim>\<open>pkg/server/certreload.go\<close>: serving a TLS key pair that is replaced on disk while the
  server runs. The disk is a function of time, since a rotation can happen between any two
  accesses of one call; \<^verbatim>\<open>tls.X509KeyPair\<close> is a parameter.
\<close>

section \<open>Files\<close>

record disk_file =
  fl_data :: string
  fl_modTime :: int

type_synonym files = "string \<Rightarrow> disk_file option"
type_synonym disk = "time \<Rightarrow> files"

definition Stat :: "files \<Rightarrow> string \<Rightarrow> (nat \<times> int) option" where
  "Stat fs p = map_option (\<lambda>f. (length (fl_data f), fl_modTime f)) (fs p)"

definition ReadFile :: "files \<Rightarrow> string \<Rightarrow> string option" where
  "ReadFile fs p = map_option fl_data (fs p)"

section \<open>The reloader\<close>

definition certReloadInterval :: duration where "certReloadInterval = minute"

record 'c certReloader =
  re_certPath :: string
  re_keyPath :: string
  re_interval :: duration
  re_cert :: 'c
  re_stamp :: string
  re_lastCheck :: time

datatype reload_error = StatCert | StatKey | BadPair

definition fingerprint :: "disk \<Rightarrow> string \<Rightarrow> string \<Rightarrow> time \<Rightarrow> time \<Rightarrow> reload_error + string" where
  "fingerprint d certPath keyPath t1 t2 =
     (case Stat (d t1) certPath of
        None \<Rightarrow> Inl StatCert
      | Some (cs, cm) \<Rightarrow>
          (case Stat (d t2) keyPath of
             None \<Rightarrow> Inl StatKey
           | Some (ks, km) \<Rightarrow>
               Inr (dec_int (int cs) @ ''/'' @ dec_int cm @ ''/'' @ dec_int (int ks) @ ''/'' @ dec_int km)))"

type_synonym 'c key_pair = "string \<Rightarrow> string \<Rightarrow> 'c option"

definition LoadX509KeyPair :: "'c key_pair \<Rightarrow> disk \<Rightarrow> string \<Rightarrow> string \<Rightarrow> time \<Rightarrow> time \<Rightarrow> 'c option" where
  "LoadX509KeyPair pair d certPath keyPath t1 t2 =
     (case ReadFile (d t1) certPath of
        None \<Rightarrow> None
      | Some c \<Rightarrow> (case ReadFile (d t2) keyPath of None \<Rightarrow> None | Some k \<Rightarrow> pair c k))"

definition re_load ::
  "'c key_pair \<Rightarrow> disk \<Rightarrow> string \<Rightarrow> string \<Rightarrow> (nat \<Rightarrow> time) \<Rightarrow> reload_error + 'c \<times> string" where
  "re_load pair d certPath keyPath t =
     (case fingerprint d certPath keyPath (t 0) (t 1) of
        Inl e \<Rightarrow> Inl e
      | Inr stamp \<Rightarrow>
          (case LoadX509KeyPair pair d certPath keyPath (t 2) (t 3) of
             None \<Rightarrow> Inl BadPair
           | Some cert \<Rightarrow> Inr (cert, stamp)))"

definition newCertReloader ::
  "'c key_pair \<Rightarrow> disk \<Rightarrow> string \<Rightarrow> string \<Rightarrow> duration \<Rightarrow> (nat \<Rightarrow> time) \<Rightarrow> reload_error + 'c certReloader" where
  "newCertReloader pair d certPath keyPath interval t =
     (case re_load pair d certPath keyPath t of
        Inl e \<Rightarrow> Inl e
      | Inr (cert, stamp) \<Rightarrow>
          Inr \<lparr>re_certPath = certPath, re_keyPath = keyPath, re_interval = interval, re_cert = cert,
               re_stamp = stamp, re_lastCheck = t 4\<rparr>)"

text \<open>
  \<^verbatim>\<open>refresh\<close> under the lock: the second look at the interval, the stamp, and the reload
  when it changed. Every problem leaves the loaded pair in place.
\<close>

definition refresh :: "'c key_pair \<Rightarrow> disk \<Rightarrow> (nat \<Rightarrow> time) \<Rightarrow> 'c certReloader \<Rightarrow> 'c certReloader" where
  "refresh pair d t r =
     (if t 1 - re_lastCheck r < re_interval r then r
      else let r1 = r\<lparr>re_lastCheck := t 2\<rparr> in
        case fingerprint d (re_certPath r) (re_keyPath r) (t 3) (t 4) of
          Inl e \<Rightarrow> r1
        | Inr stamp \<Rightarrow>
            if stamp = re_stamp r then r1
            else case re_load pair d (re_certPath r) (re_keyPath r) (\<lambda>i. t (5 + i)) of
              Inl e \<Rightarrow> r1
            | Inr (cert, stamp') \<Rightarrow> r1\<lparr>re_cert := cert, re_stamp := stamp'\<rparr>)"

definition GetCertificate :: "'c key_pair \<Rightarrow> disk \<Rightarrow> (nat \<Rightarrow> time) \<Rightarrow> 'c certReloader \<Rightarrow> 'c certReloader \<times> 'c" where
  "GetCertificate pair d t r =
     (if t 0 - re_lastCheck r < re_interval r then (r, re_cert r)
      else let r' = refresh pair d t r in (r', re_cert r'))"

section \<open>Runs\<close>

text \<open>
  A handshake reads the clock and the disk at nine moments in order; the handshakes of a
  run follow one another, as the lock makes the refreshes do.
\<close>

definition in_order :: "time \<Rightarrow> (nat \<Rightarrow> time) \<Rightarrow> time \<Rightarrow> bool" where
  "in_order a t b \<longleftrightarrow> a \<le> t 0 \<and> (\<forall>i < 8. t i \<le> t (Suc i)) \<and> t 8 \<le> b"

inductive reloading :: "'c key_pair \<Rightarrow> disk \<Rightarrow> string \<Rightarrow> string \<Rightarrow> duration \<Rightarrow> time \<Rightarrow> 'c certReloader \<Rightarrow> time \<Rightarrow> bool"
  for pair :: "'c key_pair" and d :: disk and certPath keyPath :: string and interval :: duration and start :: time where
  loaded: "newCertReloader pair d certPath keyPath interval t = Inr r \<Longrightarrow> \<forall>i < 4. t i \<le> t (Suc i) \<Longrightarrow> t 4 = start \<Longrightarrow>
    reloading pair d certPath keyPath interval start r start"
| handshake: "reloading pair d certPath keyPath interval start r a \<Longrightarrow> in_order a t b \<Longrightarrow>
    reloading pair d certPath keyPath interval start (fst (GetCertificate pair d t r)) b"

text \<open>
  A modification time never comes back to an old value: a file with the same size and
  time at two moments was the same file at all moments between.
\<close>

definition honest :: "disk \<Rightarrow> string \<Rightarrow> bool" where
  "honest d p \<longleftrightarrow> (\<forall>a b c. a \<le> b \<longrightarrow> b \<le> c \<longrightarrow> Stat (d a) p \<noteq> None \<longrightarrow> Stat (d a) p = Stat (d c) p \<longrightarrow> d b p = d a p)"

text \<open>Where the certificate and the stamp of a reloader come from.\<close>

definition loaded_from :: "'c key_pair \<Rightarrow> disk \<Rightarrow> string \<Rightarrow> string \<Rightarrow> 'c \<Rightarrow> string \<Rightarrow> time \<Rightarrow> bool" where
  "loaded_from pair d cp kp cert stamp now \<longleftrightarrow>
     (\<exists>a1 a2 b1 b2. a1 \<le> b1 \<and> b1 \<le> now \<and> a2 \<le> b2 \<and> b2 \<le> now \<and>
        fingerprint d cp kp a1 a2 = Inr stamp \<and> LoadX509KeyPair pair d cp kp b1 b2 = Some cert)"

lemma loaded_from_later: "loaded_from pair d cp kp c s a \<Longrightarrow> a \<le> b \<Longrightarrow> loaded_from pair d cp kp c s b"
  unfolding loaded_from_def by (meson order_trans)

lemma re_load_from:
  assumes "re_load pair d cp kp t = Inr (cert, stamp)" and "\<forall>i < 3. t i \<le> t (Suc i)"
  shows "loaded_from pair d cp kp cert stamp (t 3)"
proof -
  have "t 0 \<le> t 1" "t 1 \<le> t 2" "t 2 \<le> t 3"
    using assms(2) by (auto simp: eval_nat_numeral)
  moreover have "fingerprint d cp kp (t 0) (t 1) = Inr stamp" "LoadX509KeyPair pair d cp kp (t 2) (t 3) = Some cert"
    using assms(1) by (auto simp: re_load_def split: sum.splits option.splits)
  ultimately show ?thesis
    unfolding loaded_from_def by (intro exI [of _ "t 0"] exI [of _ "t 1"] exI [of _ "t 2"] exI [of _ "t 3"]) auto
qed

lemma refresh_paths [simp]:
  "re_certPath (refresh pair d t r) = re_certPath r" "re_keyPath (refresh pair d t r) = re_keyPath r"
  "re_interval (refresh pair d t r) = re_interval r"
  by (simp_all add: refresh_def Let_def split: sum.split prod.split)

text \<open>The clock readings and accesses of a handshake, named.\<close>

lemma in_order_le:
  assumes "in_order a t b" and "i \<le> j" and "j \<le> 8"
  shows "t i \<le> t j" "a \<le> t i" "t j \<le> b"
proof -
  have step: "i \<le> j \<Longrightarrow> j \<le> 8 \<Longrightarrow> t i \<le> t j" for i j
  proof (induction j rule: dec_induct)
    case (step n)
    then have "t n \<le> t (Suc n)" using assms(1) by (simp add: in_order_def)
    with step show ?case by simp
  qed simp
  show "t i \<le> t j" using step assms by simp
  show "a \<le> t i" using step [of 0 i] assms by (simp add: in_order_def)
  show "t j \<le> b" using step [of j 8] assms by (simp add: in_order_def)
qed

text \<open>The stamp determines the sizes and times it was made of.\<close>

lemma digit_not: "is_digit c \<Longrightarrow> c \<noteq> CHR ''/'' \<and> c \<noteq> CHR ''-''"
  by (auto simp: is_digit_def code_def)

lemma dec_int_chars: "CHR ''/'' \<notin> set (dec_int i)"
  using dec_nat_digits digit_not by (auto simp: dec_int_def)

lemma dec_int_inj: "dec_int i = dec_int j \<longleftrightarrow> i = j"
proof -
  have "dec_nat m \<noteq> CHR ''-'' # dec_nat n" for m n
    using dec_nat_digits [of "CHR ''-''" m] digit_not [of "CHR ''-''"] by (metis list.set_intros(1))
  then have "CHR ''-'' # dec_nat m \<noteq> dec_nat n" "dec_nat m \<noteq> CHR ''-'' # dec_nat n" for m n
    by metis+
  then show ?thesis by (simp add: dec_int_def dec_nat_inj nat_eq_iff)
qed

lemma stamp_inj:
  assumes "dec_int a @ ''/'' @ dec_int b @ ''/'' @ dec_int c @ ''/'' @ dec_int e =
    dec_int a' @ ''/'' @ dec_int b' @ ''/'' @ dec_int c' @ ''/'' @ dec_int e'"
  shows "a = a' \<and> b = b' \<and> c = c' \<and> e = e'"
proof -
  have j: "dec_int a @ ''/'' @ dec_int b @ ''/'' @ dec_int c @ ''/'' @ dec_int e =
      join [CHR ''/''] [dec_int a, dec_int b, dec_int c, dec_int e]" for a b c e
    by simp
  have s: "split_on (CHR ''/'') (join [CHR ''/''] [dec_int a, dec_int b, dec_int c, dec_int e]) =
      [dec_int a, dec_int b, dec_int c, dec_int e]" for a b c e
    by (rule split_on_join) (simp_all add: dec_int_chars)
  from assms have "[dec_int a, dec_int b, dec_int c, dec_int e] = [dec_int a', dec_int b', dec_int c', dec_int e']"
    by (metis j s)
  then show ?thesis by (simp add: dec_int_inj)
qed

lemma fingerprint_inj:
  assumes "fingerprint d cp kp a1 a2 = Inr stamp" and "fingerprint d cp kp c1 c2 = Inr stamp"
  shows "Stat (d a1) cp = Stat (d c1) cp \<and> Stat (d a2) kp = Stat (d c2) kp \<and>
    Stat (d a1) cp \<noteq> None \<and> Stat (d a2) kp \<noteq> None"
proof -
  obtain cs cm ks km where a: "Stat (d a1) cp = Some (cs, cm)" "Stat (d a2) kp = Some (ks, km)"
    "stamp = dec_int (int cs) @ ''/'' @ dec_int cm @ ''/'' @ dec_int (int ks) @ ''/'' @ dec_int km"
    using assms(1) by (auto simp: fingerprint_def split: option.splits)
  obtain cs' cm' ks' km' where b: "Stat (d c1) cp = Some (cs', cm')" "Stat (d c2) kp = Some (ks', km')"
    "stamp = dec_int (int cs') @ ''/'' @ dec_int cm' @ ''/'' @ dec_int (int ks') @ ''/'' @ dec_int km'"
    using assms(2) by (auto simp: fingerprint_def split: option.splits)
  from stamp_inj [OF a(3) [unfolded b(3), symmetric]] a(1,2) b(1,2) show ?thesis by simp
qed

text \<open>Files that rest from \<open>T\<close> on and hold a pair.\<close>

definition settled :: "'c key_pair \<Rightarrow> disk \<Rightarrow> string \<Rightarrow> string \<Rightarrow> time \<Rightarrow> 'c \<Rightarrow> bool" where
  "settled pair d cp kp T cert \<longleftrightarrow>
     (\<forall>t \<ge> T. d t cp = d T cp \<and> d t kp = d T kp) \<and> LoadX509KeyPair pair d cp kp T T = Some cert"

lemma LoadX509KeyPair_cong:
  "d a1 cp = d b1 cp \<Longrightarrow> d a2 kp = d b2 kp \<Longrightarrow>
   LoadX509KeyPair pair d cp kp a1 a2 = LoadX509KeyPair pair d cp kp b1 b2"
  by (simp add: LoadX509KeyPair_def ReadFile_def cong: option.case_cong)

lemma settled_load:
  assumes "settled pair d cp kp T cert" and "T \<le> b1" and "T \<le> b2"
  shows "LoadX509KeyPair pair d cp kp b1 b2 = Some cert"
proof -
  have "d b1 cp = d T cp" "d b2 kp = d T kp" using assms unfolding settled_def by blast+
  then have "LoadX509KeyPair pair d cp kp b1 b2 = LoadX509KeyPair pair d cp kp T T"
    by (rule LoadX509KeyPair_cong)
  with assms(1) show ?thesis unfolding settled_def by simp
qed

lemma LoadX509KeyPair_files:
  assumes "LoadX509KeyPair pair d cp kp a1 a2 = Some cert"
  obtains stamp where "fingerprint d cp kp a1 a2 = Inr stamp"
proof -
  obtain f g where "d a1 cp = Some f" "d a2 kp = Some g"
    using assms by (cases "d a1 cp"; cases "d a2 kp") (auto simp: LoadX509KeyPair_def ReadFile_def)
  then show thesis using that by (simp add: fingerprint_def Stat_def)
qed

lemma settled_fingerprint:
  assumes "settled pair d cp kp T cert" and "T \<le> a1" and "T \<le> a2"
  obtains stamp where "fingerprint d cp kp a1 a2 = Inr stamp"
  using LoadX509KeyPair_files [OF settled_load [OF assms]] that .

lemma stamp_unchanged:
  assumes "honest d cp" and "honest d kp" and "settled pair d cp kp T cert"
    and "loaded_from pair d cp kp c stamp now" and "now \<le> t1" and "now \<le> t2" and "T \<le> t1" and "T \<le> t2"
    and "fingerprint d cp kp t1 t2 = Inr stamp"
  shows "c = cert"
proof -
  obtain a1 a2 b1 b2 where from_: "a1 \<le> b1" "b1 \<le> now" "a2 \<le> b2" "b2 \<le> now"
    "fingerprint d cp kp a1 a2 = Inr stamp" "LoadX509KeyPair pair d cp kp b1 b2 = Some c"
    using assms(4) unfolding loaded_from_def by blast
  note same = fingerprint_inj [OF from_(5) assms(9)]
  have at: "d b cp = d a1 cp" if "a1 \<le> b" "b \<le> t1" for b
    using assms(1) same that unfolding honest_def by blast
  have at': "d b kp = d a2 kp" if "a2 \<le> b" "b \<le> t2" for b
    using assms(2) same that unfolding honest_def by blast
  have "d b1 cp = d t1 cp" using at [of b1] at [of t1] from_(1,2) assms(5) by auto
  moreover have "d b2 kp = d t2 kp" using at' [of b2] at' [of t2] from_(3,4) assms(6) by auto
  ultimately have "LoadX509KeyPair pair d cp kp b1 b2 = LoadX509KeyPair pair d cp kp t1 t2"
    by (rule LoadX509KeyPair_cong)
  with settled_load [OF assms(3,7,8)] from_(6) show ?thesis by simp
qed

section \<open>The invariant of a run\<close>

definition re_ok :: "'c key_pair \<Rightarrow> disk \<Rightarrow> 'c certReloader \<Rightarrow> time \<Rightarrow> bool" where
  "re_ok pair d r now \<longleftrightarrow>
     loaded_from pair d (re_certPath r) (re_keyPath r) (re_cert r) (re_stamp r) now"

text \<open>A refresh that happens replaces a pair that is out of date, or finds it up to date.\<close>

lemma refresh_settled:
  assumes "honest d (re_certPath r)" and "honest d (re_keyPath r)"
    and "settled pair d (re_certPath r) (re_keyPath r) T cert" and "re_ok pair d r a" and "in_order a t b"
    and "T \<le> t 2" and "\<not> t 1 - re_lastCheck r < re_interval r"
  shows "re_cert (refresh pair d t r) = cert"
proof -
  have t: "T \<le> t i" "a \<le> t i" if "2 \<le> i" "i \<le> 8" for i
    using in_order_le [OF assms(5) that] in_order_le(2) [OF assms(5) order_refl that(2)] assms(6) by auto
  obtain stamp where stamp: "fingerprint d (re_certPath r) (re_keyPath r) (t 3) (t 4) = Inr stamp"
    using settled_fingerprint [OF assms(3), of "t 3" "t 4"] t by auto
  obtain stamp' where stamp': "fingerprint d (re_certPath r) (re_keyPath r) (t 5) (t 6) = Inr stamp'"
    using settled_fingerprint [OF assms(3), of "t 5" "t 6"] t by auto
  have load: "LoadX509KeyPair pair d (re_certPath r) (re_keyPath r) (t 7) (t 8) = Some cert"
    using settled_load [OF assms(3), of "t 7" "t 8"] t by auto
  show ?thesis
  proof (cases "stamp = re_stamp r")
    case True
    have "re_cert r = cert"
      using stamp_unchanged [OF assms(1-3), of "re_cert r" "re_stamp r" a "t 3" "t 4"] assms(4) t stamp True
      by (simp add: re_ok_def)
    with True stamp assms(7) show ?thesis by (simp add: refresh_def)
  next
    case False
    with stamp stamp' load assms(7) show ?thesis by (simp add: refresh_def re_load_def)
  qed
qed

lemma refresh_ok:
  assumes "re_ok pair d r a" and "in_order a t b"
  shows "re_ok pair d (refresh pair d t r) b"
proof -
  have le: "a \<le> b" using in_order_le [OF assms(2), of 0 8] by simp
  have keep: "re_ok pair d r' b" if "re_cert r' = re_cert r" "re_stamp r' = re_stamp r"
    "re_certPath r' = re_certPath r" "re_keyPath r' = re_keyPath r" for r'
    using assms(1) loaded_from_later [OF _ le] that by (simp add: re_ok_def)
  have new: "re_ok pair d r' b" if "re_load pair d (re_certPath r) (re_keyPath r) (\<lambda>i. t (5 + i)) = Inr (re_cert r', re_stamp r')"
    "re_certPath r' = re_certPath r" "re_keyPath r' = re_keyPath r" for r'
  proof -
    have "t (5 + i) \<le> t (5 + Suc i)" if "i < 3" for i
      using assms(2) that by (intro in_order_le(1) [OF assms(2)]) simp_all
    then have "\<forall>i < 3. t (5 + i) \<le> t (5 + Suc i)" by blast
    from re_load_from [OF that(1) this] that(2,3) show ?thesis
      using loaded_from_later [of _ _ _ _ _ _ "t (5 + 3)" b] assms(2) by (simp add: re_ok_def in_order_def)
  qed
  show ?thesis
    unfolding refresh_def Let_def
    by (auto split: sum.split intro: keep new)
qed

lemma newCertReloader_ok:
  assumes "newCertReloader pair d cp kp interval t = Inr r" and "\<forall>i < 4. t i \<le> t (Suc i)"
  shows "re_ok pair d r (t 4)" "re_certPath r = cp" "re_keyPath r = kp" "re_interval r = interval" "re_lastCheck r = t 4"
proof -
  obtain cert stamp where l: "re_load pair d cp kp t = Inr (cert, stamp)"
    and r: "r = \<lparr>re_certPath = cp, re_keyPath = kp, re_interval = interval, re_cert = cert,
               re_stamp = stamp, re_lastCheck = t 4\<rparr>"
    using assms(1) by (auto simp: newCertReloader_def split: sum.splits)
  have "t 3 \<le> t 4" using assms(2) by (auto simp: eval_nat_numeral)
  with loaded_from_later [OF re_load_from [OF l]] assms(2)
  show "re_ok pair d r (t 4)" by (simp add: re_ok_def r)
qed (use assms in \<open>auto simp: newCertReloader_def split: sum.splits\<close>)

lemma refresh_lastCheck:
  "re_lastCheck (refresh pair d t r) = (if t 1 - re_lastCheck r < re_interval r then re_lastCheck r else t 2)"
  by (simp add: refresh_def Let_def split: sum.split prod.split)

text \<open>
  After \<open>now\<close>, the reloader has a pair it loaded; and if the files rest since before its last
  check, it is theirs.
\<close>

lemma reloading_inv:
  assumes "reloading pair d cp kp interval start r now"
  shows "re_ok pair d r now \<and> re_certPath r = cp \<and> re_keyPath r = kp \<and> re_interval r = interval \<and>
    re_lastCheck r \<le> now \<and> start \<le> now \<and>
    (\<forall>T cert. honest d cp \<longrightarrow> honest d kp \<longrightarrow> settled pair d cp kp T cert \<longrightarrow> start < T \<longrightarrow> T \<le> re_lastCheck r \<longrightarrow>
       re_cert r = cert)"
  using assms
proof (induction rule: reloading.induct)
  case (loaded t r)
  with newCertReloader_ok [OF loaded(1,2)] show ?case by simp
next
  case (handshake r a t b)
  let ?r = "refresh pair d t r"
  note IH = handshake.IH
  have le: "a \<le> b" "t 2 \<le> b" "a \<le> t 0" "t 0 \<le> t 1"
    using in_order_le [OF handshake.hyps(2), of 0 8] in_order_le [OF handshake.hyps(2), of 2 2]
      in_order_le [OF handshake.hyps(2), of 0 1] by simp_all
  show ?case
  proof (cases "t 0 - re_lastCheck r < re_interval r")
    case True
    then have "fst (GetCertificate pair d t r) = r" by (simp add: GetCertificate_def)
    moreover have "re_ok pair d r b" unfolding re_ok_def by (rule loaded_from_later [OF _ le(1)]) (use IH in \<open>auto simp: re_ok_def\<close>)
    ultimately show ?thesis using IH le(1) by auto
  next
    case False
    then have r: "fst (GetCertificate pair d t r) = ?r" by (simp add: GetCertificate_def Let_def)
    have due: "\<not> t 1 - re_lastCheck r < re_interval r" using False le(4) by linarith
    have "re_cert ?r = cert" if "honest d cp" "honest d kp" "settled pair d cp kp T cert" "T \<le> re_lastCheck ?r" for T cert
      using refresh_settled [of d r pair T cert a t b] IH handshake.hyps(2) due that
      by (simp add: refresh_lastCheck)
    moreover have "re_ok pair d ?r b" using refresh_ok IH handshake.hyps(2) by blast
    ultimately show ?thesis unfolding r using IH le due by (auto simp: refresh_lastCheck)
  qed
qed

section \<open>Properties\<close>

text \<open>
  C24. A rotated certificate is picked up: once the files have come to rest at \<open>T\<close> after the
  start and hold a key pair, every handshake that begins a check interval or more after
  \<open>T\<close> is served that pair, whatever was on disk before, however often it changed and
  whatever loads failed in between.
\<close>

theorem rotation_picked_up:
  assumes "reloading pair d cp kp interval start r now" and "in_order now t b"
    and "honest d cp" and "honest d kp" and "settled pair d cp kp T cert"
    and "start < T" and "T + interval \<le> t 0" and "0 \<le> interval"
  shows "snd (GetCertificate pair d t r) = cert"
proof -
  note inv = reloading_inv [OF assms(1)]
  show ?thesis
  proof (cases "t 0 - re_lastCheck r < re_interval r")
    case True
    then have "T \<le> re_lastCheck r" using inv assms(7) by linarith
    with inv assms(3-6) True show ?thesis by (simp add: GetCertificate_def)
  next
    case False
    have le: "t 0 \<le> t 1" "t 0 \<le> t 2"
      using in_order_le [OF assms(2), of 0 1] in_order_le [OF assms(2), of 0 2] by simp_all
    then have "\<not> t 1 - re_lastCheck r < re_interval r" "T \<le> t 2" using False assms(7,8) by linarith+
    with refresh_settled [of d r pair T cert now t b] inv assms False show ?thesis
      by (simp add: GetCertificate_def Let_def)
  qed
qed

text \<open>
  A handshake never fails over a reload and never sees a mixed pair: what it is served
  was loaded, as certificate and key that fit together, from what the two files held at
  some moments up to then.
\<close>

theorem reloader_serves_loaded:
  assumes "reloading pair d cp kp interval start r now" and "in_order now t b"
  shows "\<exists>b1 b2. b1 \<le> b \<and> b2 \<le> b \<and> LoadX509KeyPair pair d cp kp b1 b2 = Some (snd (GetCertificate pair d t r))"
proof -
  have served: "snd (GetCertificate pair d t r) = re_cert (fst (GetCertificate pair d t r))"
    by (simp add: GetCertificate_def Let_def)
  have "reloading pair d cp kp interval start (fst (GetCertificate pair d t r)) b"
    using assms by (rule reloading.handshake)
  from reloading_inv [OF this] show ?thesis
    unfolding served re_ok_def loaded_from_def by blast
qed

text \<open>A certificate rotated ten seconds after the start, and a handshake two minutes later.\<close>

definition demo_disk :: disk where
  "demo_disk t p = (if t < 10 * second then Some \<lparr>fl_data = ''old'', fl_modTime = 0\<rparr>
     else Some \<lparr>fl_data = ''new'', fl_modTime = 10 * second\<rparr>)"

definition demo_pair :: "string key_pair" where
  "demo_pair c k = (if c = k then Some c else None)"

definition demo_reloader :: "string certReloader" where
  "demo_reloader = \<lparr>re_certPath = ''tls.crt'', re_keyPath = ''tls.key'', re_interval = minute, re_cert = ''old'',
     re_stamp = dec_int 3 @ ''/'' @ dec_int 0 @ ''/'' @ dec_int 3 @ ''/'' @ dec_int 0, re_lastCheck = 0\<rparr>"

lemma demo_reloading: "reloading demo_pair demo_disk ''tls.crt'' ''tls.key'' minute 0 demo_reloader 0"
  by (rule reloading.loaded [where t = "\<lambda>i. 0"])
    (simp_all add: newCertReloader_def re_load_def fingerprint_def Stat_def demo_disk_def LoadX509KeyPair_def
      ReadFile_def demo_pair_def demo_reloader_def)

lemma demo_honest: "honest demo_disk p"
  by (auto simp: honest_def demo_disk_def Stat_def second_def)

lemma demo_settled: "settled demo_pair demo_disk ''tls.crt'' ''tls.key'' (10 * second) ''new''"
  by (simp add: settled_def demo_disk_def LoadX509KeyPair_def ReadFile_def demo_pair_def)

lemma demo_order: "in_order 0 (\<lambda>i. 2 * minute) (2 * minute)"
  by (simp add: in_order_def minute_def second_def)

theorem rotation_picked_up_witness:
  "snd (GetCertificate demo_pair demo_disk (\<lambda>i. 2 * minute) demo_reloader) = ''new'' \<and> re_cert demo_reloader = ''old''"
  using rotation_picked_up [OF demo_reloading demo_order demo_honest demo_honest demo_settled]
  by (simp add: demo_reloader_def minute_def second_def)

theorem reloader_serves_loaded_witness:
  "\<exists>b1 b2. b1 \<le> 2 * minute \<and> b2 \<le> 2 * minute \<and> LoadX509KeyPair demo_pair demo_disk ''tls.crt'' ''tls.key'' b1 b2 =
     Some (snd (GetCertificate demo_pair demo_disk (\<lambda>i. 2 * minute) demo_reloader))"
  by (rule reloader_serves_loaded [OF demo_reloading demo_order])

end
