(* ===== verification/GoFiles.thy ===== *)
theory GoFiles
  imports GoStrings
begin

text \<open>
  Paths and files: \<^verbatim>\<open>path/filepath\<close> on Unix, and what the program's calls of \<^verbatim>\<open>os\<close> see of the
  file system. A write can fail before anything is written or after some of it.
\<close>

section \<open>Paths\<close>

text \<open>\<^verbatim>\<open>filepath.Clean\<close> on the segments between slashes; \<open>out\<close> is reversed.\<close>

fun clean_path :: "bool \<Rightarrow> string list \<Rightarrow> string list \<Rightarrow> string list" where
  "clean_path rooted out [] = rev out"
| "clean_path rooted out (x # xs) =
     (if x = [] \<or> x = ''.'' then clean_path rooted out xs
      else if x = ''..'' then
        (if out \<noteq> [] \<and> hd out \<noteq> ''..'' then clean_path rooted (tl out) xs
         else if rooted then clean_path rooted out xs
         else clean_path rooted (x # out) xs)
      else clean_path rooted (x # out) xs)"

definition is_rooted :: "string \<Rightarrow> bool" where
  "is_rooted p \<longleftrightarrow> (case p of c # cs \<Rightarrow> c = CHR ''/'' | [] \<Rightarrow> False)"

definition Clean :: "string \<Rightarrow> string" where
  "Clean p =
     (let out = (if is_rooted p then ''/'' else []) @ join ''/'' (clean_path (is_rooted p) [] (split_on (CHR ''/'') p))
      in if out = [] then ''.'' else out)"

text \<open>\<^verbatim>\<open>filepath.Join(dir, name)\<close> for a non-empty name: an empty directory is left out.\<close>

definition Join :: "string \<Rightarrow> string \<Rightarrow> string" where
  "Join dir name = Clean (if dir = [] then name else dir @ ''/'' @ name)"

text \<open>\<^verbatim>\<open>filepath.Dir\<close>: all but the last element, cleaned.\<close>

definition Dir :: "string \<Rightarrow> string" where
  "Dir p = Clean (rev (dropWhile (\<lambda>c. c \<noteq> CHR ''/'') (rev p)))"

definition plain_name :: "string \<Rightarrow> bool" where
  "plain_name f \<longleftrightarrow> f \<noteq> [] \<and> f \<noteq> ''.'' \<and> f \<noteq> ''..'' \<and> CHR ''/'' \<notin> set f"

lemma clean_path_snoc:
  "plain_name f \<Longrightarrow> clean_path rooted out (xs @ [f]) = clean_path rooted out xs @ [f]"
  by (induction rooted out xs rule: clean_path.induct) (auto simp: plain_name_def)

lemma join_snoc: "join sep (xs @ [f]) = (if xs = [] then f else join sep xs @ sep @ f)"
  by (induction sep xs rule: join.induct) (auto simp: join_Cons)

text \<open>A plain name comes last in the path, after something that depends on the directory only.\<close>

definition dir_prefix :: "string \<Rightarrow> string" where
  "dir_prefix dir =
     (if dir = [] then []
      else (if is_rooted dir then ''/'' else []) @
        (let segs = clean_path (is_rooted dir) [] (split_on (CHR ''/'') dir)
         in if segs = [] then [] else join ''/'' segs @ ''/''))"

lemma Join_plain:
  assumes "plain_name f"
  shows "Join dir f = dir_prefix dir @ f"
proof (cases "dir = []")
  case True
  from assms have "\<not> is_rooted f" by (cases f) (auto simp: is_rooted_def plain_name_def)
  moreover have "split_on (CHR ''/'') f = [f]" using assms by (simp add: split_on_single plain_name_def)
  moreover have "clean_path False [] [f] = [f]" using clean_path_snoc [OF assms, of False "[]" "[]"] by simp
  ultimately show ?thesis using True assms by (simp add: Join_def Clean_def dir_prefix_def plain_name_def Let_def)
next
  case False
  then have r: "is_rooted (dir @ ''/'' @ f) = is_rooted dir" by (cases dir) (auto simp: is_rooted_def)
  have "split_on (CHR ''/'') (dir @ ''/'' @ f) = split_on (CHR ''/'') dir @ [f]"
    using assms by (simp add: split_on_append split_on_single plain_name_def)
  then have "clean_path (is_rooted dir) [] (split_on (CHR ''/'') (dir @ ''/'' @ f)) =
      clean_path (is_rooted dir) [] (split_on (CHR ''/'') dir) @ [f]"
    using clean_path_snoc [OF assms] by simp
  with r False assms show ?thesis
    by (simp add: Join_def Clean_def dir_prefix_def join_snoc plain_name_def Let_def)
qed

lemma Join_inj: "plain_name f \<Longrightarrow> plain_name g \<Longrightarrow> Join dir f = Join dir g \<longleftrightarrow> f = g"
  by (simp add: Join_plain)

section \<open>Files\<close>

datatype entry = Absent | Unreadable | Contents string

type_synonym file_system = "string \<Rightarrow> entry"

datatype read_error = NotExist | OtherError

definition read_file :: "file_system \<Rightarrow> string \<Rightarrow> read_error + string" where
  "read_file fs p = (case fs p of Absent \<Rightarrow> Inl NotExist | Unreadable \<Rightarrow> Inl OtherError | Contents s \<Rightarrow> Inr s)"

text \<open>
  \<^verbatim>\<open>os.WriteFile\<close>: it truncates, then writes; how far it gets is up to the system.
\<close>

datatype write_outcome = Written | NotOpened | CutOff nat

definition write_file :: "(string \<Rightarrow> write_outcome) \<Rightarrow> string \<Rightarrow> string \<Rightarrow> file_system \<Rightarrow> file_system \<times> bool" where
  "write_file sys p data fs =
     (case sys p of
        Written \<Rightarrow> (fs(p := Contents data), True)
      | NotOpened \<Rightarrow> (fs, False)
      | CutOff n \<Rightarrow> (fs(p := Contents (take n data)), False))"

section \<open>A value kept in a file\<close>

text \<open>
  The contract of the client's two files, the token cache and the talosconfig: on a file
  that is good for it a store reads back what it wrote, it reads nothing but that file, and
  writing it touches no other file except a scratch file.
\<close>

locale file_store =
  fixes good :: "'w \<Rightarrow> string \<Rightarrow> bool"
    and load_from :: "'w \<Rightarrow> file_system \<Rightarrow> string \<Rightarrow> 'e + 'v"
    and save_to :: "'w \<Rightarrow> string \<Rightarrow> 'v \<Rightarrow> file_system \<Rightarrow> file_system \<times> 'e option"
    and scratch :: "string \<Rightarrow> string set"
  assumes load_saved: "good w p \<Longrightarrow> save_to w p v fs = (fs', None) \<Longrightarrow> load_from w fs' p = Inr v"
    and load_cong: "good w p \<Longrightarrow> fs' p = fs p \<Longrightarrow> load_from w fs' p = load_from w fs p"
    and save_frame: "q \<noteq> p \<Longrightarrow> q \<notin> scratch p \<Longrightarrow> fst (save_to w p v fs) q = fs q"
begin

text \<open>Loading, changing and saving is a change of what is loaded.\<close>

lemma load_changed:
  assumes "good w p" and "load_from w fs p = Inr v" and "save_to w p (f v) fs = (fs', None)"
  shows "load_from w fs' p = map_sum id f (load_from w fs p)"
  using load_saved [OF assms(1,3)] assms(2) by simp

end

end
