(* ===== verification/SelfSigned.thy ===== *)
theory SelfSigned
  imports AdminApi CertReload GoFiles
begin

text \<open>
  \<^verbatim>\<open>pkg/server/server.go\<close>, starting up: the choice of the TLS mode, and the self-signed
  certificate that is generated, persisted and loaded again. Key generation, X.509 and PEM
  are parameters; the templates are the code's.
\<close>

section \<open>Certificates\<close>

datatype key_usage = DigitalSignature | CertSign | CRLSign

datatype ext_key_usage = ServerAuth | ClientAuth

record template =
  tp_Serial :: int
  tp_CommonName :: string
  tp_Organization :: "string list"
  tp_NotBefore :: time
  tp_NotAfter :: time
  tp_KeyUsage :: "key_usage list"
  tp_ExtKeyUsage :: "ext_key_usage list"
  tp_IsCA :: bool
  tp_DNSNames :: "string list"
  tp_IPAddresses :: "ip list"

text \<open>A key pair as \<^verbatim>\<open>tls\<close> holds it: the leaf in DER, and parsed when the library kept it.\<close>

record tls_cert =
  ct_der :: string
  ct_leaf :: "template option"

record pki =
  pk_key :: "nat \<Rightarrow> string option"
  pk_serial :: "nat \<Rightarrow> int option"
  pk_create :: "template \<Rightarrow> template \<Rightarrow> string \<Rightarrow> string \<Rightarrow> string option"
  pk_parse :: "string \<Rightarrow> template option"
  pk_marshal :: "string \<Rightarrow> string option"
  pk_pem :: "string \<Rightarrow> string \<Rightarrow> string"
  pk_pair :: "string \<Rightarrow> string \<Rightarrow> tls_cert option"
  pk_clock :: "nat \<Rightarrow> time"

datatype tls_error =
    ReadingCA read_error
  | LoadingPair "read_error option"
  | ParsingLeaf
  | CertExpired
  | ReadingCAKey read_error
  | Generating string
  | Reloader reload_error

definition ten_years :: duration where "ten_years = 10 * 365 * 24 * hour"

definition ca_template :: "pki \<Rightarrow> int \<Rightarrow> template" where
  "ca_template k serial =
     \<lparr>tp_Serial = serial, tp_CommonName = ''talosctl-oidc self-signed CA'', tp_Organization = [''talosctl-oidc''],
      tp_NotBefore = pk_clock k 0 - minute, tp_NotAfter = pk_clock k 1 + ten_years,
      tp_KeyUsage = [CertSign, CRLSign], tp_ExtKeyUsage = [], tp_IsCA = True, tp_DNSNames = [], tp_IPAddresses = []\<rparr>"

text \<open>The names the certificate is for: localhost, and the host the server listens on.\<close>

definition listen_sans :: "string \<Rightarrow> string list \<times> ip list" where
  "listen_sans listenAddr =
     (let dns = [''localhost'']; ips = map the [ParseIP ''127.0.0.1'', ParseIP ''::1''] in
      case SplitHostPort listenAddr of
        None \<Rightarrow> (dns, ips)
      | Some (host, port) \<Rightarrow>
          if host = [] then (dns, ips)
          else (case ParseIP host of Some ip \<Rightarrow> (dns, ips @ [ip]) | None \<Rightarrow> (dns @ [host], ips)))"

definition server_template :: "pki \<Rightarrow> string \<Rightarrow> int \<Rightarrow> template" where
  "server_template k listenAddr serial =
     \<lparr>tp_Serial = serial, tp_CommonName = ''talosctl-oidc server'', tp_Organization = [''talosctl-oidc''],
      tp_NotBefore = pk_clock k 2 - minute, tp_NotAfter = pk_clock k 3 + ten_years,
      tp_KeyUsage = [DigitalSignature], tp_ExtKeyUsage = [ServerAuth], tp_IsCA = False,
      tp_DNSNames = fst (listen_sans listenAddr), tp_IPAddresses = snd (listen_sans listenAddr)\<rparr>"

section \<open>Generating\<close>

record material =
  mt_tls :: tls_cert
  mt_ca :: string
  mt_caKey :: string
  mt_cert :: string
  mt_key :: string

definition try_or :: "'e \<Rightarrow> 'a option \<Rightarrow> ('a \<Rightarrow> 'e + 'b) \<Rightarrow> 'e + 'b" where
  "try_or e x f = (case x of None \<Rightarrow> Inl e | Some v \<Rightarrow> f v)"

text \<open>
  The CA part leaves its PEM in the server as soon as it is there, so also when a later
  step fails.
\<close>

definition generate_ca :: "pki \<Rightarrow> tls_error + string \<times> template \<times> string" where
  "generate_ca k =
     try_or (Generating ''CA key'') (pk_key k 0) (\<lambda>caKey.
     try_or (Generating ''CA serial'') (pk_serial k 0) (\<lambda>serial.
     try_or (Generating ''CA certificate'') (pk_create k (ca_template k serial) (ca_template k serial) caKey caKey) (\<lambda>der.
     try_or (Generating ''parsing CA certificate'') (pk_parse k der) (\<lambda>caCert.
     Inr (caKey, caCert, pk_pem k ''CERTIFICATE'' der)))))"

definition generate_server :: "pki \<Rightarrow> string \<Rightarrow> string \<times> template \<times> string \<Rightarrow> tls_error + material" where
  "generate_server k listenAddr ca =
     (case ca of (caKey, caCert, caPEM) \<Rightarrow>
        try_or (Generating ''marshaling CA key'') (pk_marshal k caKey) (\<lambda>caKeyDER.
        try_or (Generating ''server key'') (pk_key k 1) (\<lambda>serverKey.
        try_or (Generating ''server serial'') (pk_serial k 1) (\<lambda>serial.
        try_or (Generating ''server certificate'')
          (pk_create k (server_template k listenAddr serial) caCert serverKey caKey) (\<lambda>der.
        try_or (Generating ''marshaling server key'') (pk_marshal k serverKey) (\<lambda>keyDER.
        let certPEM = pk_pem k ''CERTIFICATE'' der; keyPEM = pk_pem k ''EC PRIVATE KEY'' keyDER in
        try_or (Generating ''TLS key pair'') (pk_pair k certPEM keyPEM) (\<lambda>pair.
        Inr \<lparr>mt_tls = pair, mt_ca = caPEM, mt_caKey = pk_pem k ''EC PRIVATE KEY'' caKeyDER,
             mt_cert = certPEM, mt_key = keyPEM\<rparr>)))))))"

definition generateSelfSignedMaterial :: "pki \<Rightarrow> server \<Rightarrow> server \<times> (tls_error + material)" where
  "generateSelfSignedMaterial k s =
     (case generate_ca k of
        Inl e \<Rightarrow> (s, Inl e)
      | Inr ca \<Rightarrow> (s\<lparr>sv_selfSignedCA := snd (snd ca)\<rparr>, generate_server k (sc_ListenAddr (sv_cfg s)) ca))"

section \<open>Loading and persisting\<close>

record tls_paths =
  caCrt :: string
  caKey :: string
  srvCrt :: string
  srvKey :: string

definition selfSignedPaths :: "server \<Rightarrow> tls_paths" where
  "selfSignedPaths s =
     (let d = sc_DataDir (sv_cfg s) in
      \<lparr>caCrt = Join d ''ca.crt'', caKey = Join d ''ca.key'', srvCrt = Join d ''server.crt'', srvKey = Join d ''server.key''\<rparr>)"

definition selfSignedRenewBefore :: duration where "selfSignedRenewBefore = 24 * hour"

definition load_pair :: "pki \<Rightarrow> file_system \<Rightarrow> string \<Rightarrow> string \<Rightarrow> tls_error + tls_cert" where
  "load_pair k fs crt key =
     (case read_file fs crt of
        Inl e \<Rightarrow> Inl (LoadingPair (Some e))
      | Inr c \<Rightarrow>
          (case read_file fs key of
             Inl e \<Rightarrow> Inl (LoadingPair (Some e))
           | Inr p \<Rightarrow> (case pk_pair k c p of None \<Rightarrow> Inl (LoadingPair None) | Some pair \<Rightarrow> Inr pair)))"

definition leaf_of :: "pki \<Rightarrow> tls_cert \<Rightarrow> template option" where
  "leaf_of k pair = (case ct_leaf pair of Some l \<Rightarrow> Some l | None \<Rightarrow> pk_parse k (ct_der pair))"

definition loadPersistedSelfSignedTLS ::
  "pki \<Rightarrow> file_system \<Rightarrow> time \<Rightarrow> tls_paths \<Rightarrow> server \<Rightarrow> server \<times> (tls_error + tls_cert)" where
  "loadPersistedSelfSignedTLS k fs now ps s =
     (case read_file fs (caCrt ps) of
        Inl e \<Rightarrow> (s, Inl (ReadingCA e))
      | Inr caPEM \<Rightarrow>
          (let s1 = s\<lparr>sv_selfSignedCA := caPEM\<rparr> in
           case load_pair k fs (srvCrt ps) (srvKey ps) of
             Inl e \<Rightarrow> (s1, Inl e)
           | Inr pair \<Rightarrow>
               (case leaf_of k pair of
                  None \<Rightarrow> (s1, Inl ParsingLeaf)
                | Some leaf \<Rightarrow>
                    if after now (tp_NotAfter leaf - selfSignedRenewBefore) then (s1, Inl CertExpired)
                    else (case read_file fs (caKey ps) of
                      Inl e \<Rightarrow> (s1, Inl (ReadingCAKey e))
                    | Inr _ \<Rightarrow> (s1, Inr pair)))))"

text \<open>Which errors of loading lead to a new certificate: a missing file, or one about to expire.\<close>

fun regenerates :: "tls_error \<Rightarrow> bool" where
  "regenerates CertExpired \<longleftrightarrow> True"
| "regenerates (ReadingCA e) \<longleftrightarrow> e = NotExist"
| "regenerates (LoadingPair (Some e)) \<longleftrightarrow> e = NotExist"
| "regenerates (ReadingCAKey e) \<longleftrightarrow> e = NotExist"
| "regenerates _ \<longleftrightarrow> False"

fun write_all :: "(string \<Rightarrow> write_outcome) \<Rightarrow> (string \<times> string) list \<Rightarrow> file_system \<Rightarrow> file_system" where
  "write_all sys [] fs = fs"
| "write_all sys ((p, data) # ws) fs =
     (case write_file sys p data fs of (fs1, ok) \<Rightarrow> if ok then write_all sys ws fs1 else fs1)"

definition loadOrGenerateSelfSignedTLS ::
  "pki \<Rightarrow> bool \<Rightarrow> (string \<Rightarrow> write_outcome) \<Rightarrow> time \<Rightarrow> file_system \<Rightarrow> server
     \<Rightarrow> server \<times> file_system \<times> (tls_error + tls_cert)" where
  "loadOrGenerateSelfSignedTLS k mkdir sys now fs s =
     (let ps = selfSignedPaths s in
      case loadPersistedSelfSignedTLS k fs now ps s of
        (s1, Inr pair) \<Rightarrow> (s1, fs, Inr pair)
      | (s1, Inl e) \<Rightarrow>
          if \<not> regenerates e then (s1, fs, Inl e)
          else (case generateSelfSignedMaterial k s1 of
            (s2, Inl e) \<Rightarrow> (s2, fs, Inl e)
          | (s2, Inr m) \<Rightarrow>
              if \<not> mkdir then (s2, fs, Inr (mt_tls m))
              else (s2, write_all sys [(caCrt ps, mt_ca m), (caKey ps, mt_caKey m), (srvCrt ps, mt_cert m),
                  (srvKey ps, mt_key m)] fs, Inr (mt_tls m))))"

definition generateSelfSignedTLS ::
  "pki \<Rightarrow> bool \<Rightarrow> (string \<Rightarrow> write_outcome) \<Rightarrow> time \<Rightarrow> file_system \<Rightarrow> server
     \<Rightarrow> server \<times> file_system \<times> (tls_error + tls_cert)" where
  "generateSelfSignedTLS k mkdir sys now fs s =
     (if sc_DataDir (sv_cfg s) \<noteq> [] then loadOrGenerateSelfSignedTLS k mkdir sys now fs s
      else case generateSelfSignedMaterial k s of (s1, r) \<Rightarrow> (s1, fs, map_sum id mt_tls r))"

section \<open>Starting\<close>

text \<open>What the server listens with; the modes in their order of precedence.\<close>

datatype tls_mode = Provided "tls_cert certReloader" | PlainHTTP | SelfSigned tls_cert

definition Start ::
  "pki \<Rightarrow> disk \<Rightarrow> (nat \<Rightarrow> time) \<Rightarrow> bool \<Rightarrow> (string \<Rightarrow> write_outcome) \<Rightarrow> time \<Rightarrow> file_system \<Rightarrow> server
     \<Rightarrow> server \<times> file_system \<times> (tls_error + tls_mode)" where
  "Start k d t mkdir sys now fs s =
     (let cfg = sv_cfg s in
      if sc_TLSCertFile cfg \<noteq> [] \<and> sc_TLSKeyFile cfg \<noteq> []
      then (s, fs, map_sum Reloader Provided
              (newCertReloader (pk_pair k) d (sc_TLSCertFile cfg) (sc_TLSKeyFile cfg) certReloadInterval t))
      else if sc_Insecure cfg then (s, fs, Inr PlainHTTP)
      else case generateSelfSignedTLS k mkdir sys now fs s of (s1, fs1, r) \<Rightarrow> (s1, fs1, map_sum id SelfSigned r))"

section \<open>What a start leaves on disk\<close>

lemma paths_distinct:
  "distinct [caCrt (selfSignedPaths s), caKey (selfSignedPaths s), srvCrt (selfSignedPaths s), srvKey (selfSignedPaths s)]"
  by (simp add: selfSignedPaths_def Let_def Join_inj plain_name_def)

text \<open>The files a key pair was made from, and the CA it belongs to.\<close>

definition on_disk :: "pki \<Rightarrow> tls_paths \<Rightarrow> file_system \<Rightarrow> string \<Rightarrow> tls_cert \<Rightarrow> bool" where
  "on_disk k ps fs ca pair \<longleftrightarrow>
     (\<exists>c p ck. fs (caCrt ps) = Contents ca \<and> fs (srvCrt ps) = Contents c \<and> fs (srvKey ps) = Contents p \<and>
        fs (caKey ps) = Contents ck \<and> pk_pair k c p = Some pair)"

lemma read_file_Inr: "read_file fs p = Inr x \<longleftrightarrow> fs p = Contents x"
  by (simp add: read_file_def split: entry.split)

lemma load_pair_Inr:
  "load_pair k fs crt key = Inr pair \<longleftrightarrow>
   (\<exists>c p. fs crt = Contents c \<and> fs key = Contents p \<and> pk_pair k c p = Some pair)"
  by (auto simp: load_pair_def read_file_def split: entry.split option.split)

lemma loadPersisted_Inr:
  assumes "loadPersistedSelfSignedTLS k fs now ps s = (s1, Inr pair)"
  shows "on_disk k ps fs (sv_selfSignedCA s1) pair \<and> sv_cfg s1 = sv_cfg s"
  using assms
  by (auto simp: loadPersistedSelfSignedTLS_def on_disk_def load_pair_Inr read_file_Inr Let_def
      split: sum.splits option.splits if_splits)

lemma loadPersisted_loads:
  assumes "on_disk k ps fs ca pair" and "leaf_of k pair = Some leaf"
    and "now \<le> tp_NotAfter leaf - selfSignedRenewBefore"
  shows "loadPersistedSelfSignedTLS k fs now ps s = (s\<lparr>sv_selfSignedCA := ca\<rparr>, Inr pair)"
  using assms by (auto simp: on_disk_def loadPersistedSelfSignedTLS_def load_pair_def read_file_def Let_def)

lemma generate_server_Inr:
  assumes "generate_server k listenAddr ca = Inr m"
  shows "mt_ca m = snd (snd ca) \<and> pk_pair k (mt_cert m) (mt_key m) = Some (mt_tls m)"
proof -
  obtain ck cc cp where ca: "ca = (ck, cc, cp)" by (cases ca) auto
  show ?thesis
    using assms by (auto simp: ca generate_server_def try_or_def Let_def split: option.splits)
qed

lemma generate_Inr:
  assumes "generateSelfSignedMaterial k s = (s1, Inr m)"
  shows "sv_selfSignedCA s1 = mt_ca m" "pk_pair k (mt_cert m) (mt_key m) = Some (mt_tls m)" "sv_cfg s1 = sv_cfg s"
proof -
  obtain ca where "generate_server k (sc_ListenAddr (sv_cfg s)) ca = Inr m" "s1 = s\<lparr>sv_selfSignedCA := snd (snd ca)\<rparr>"
    using assms by (auto simp: generateSelfSignedMaterial_def split: sum.splits)
  with generate_server_Inr [of k "sc_ListenAddr (sv_cfg s)" ca m]
  show "sv_selfSignedCA s1 = mt_ca m" "pk_pair k (mt_cert m) (mt_key m) = Some (mt_tls m)" "sv_cfg s1 = sv_cfg s"
    by simp_all
qed

lemma loadPersisted_cfg: "sv_cfg (fst (loadPersistedSelfSignedTLS k fs now ps s)) = sv_cfg s"
  by (auto simp: loadPersistedSelfSignedTLS_def Let_def split: sum.split option.split)

lemma loadOrGenerate_cases:
  assumes "loadOrGenerateSelfSignedTLS k mkdir sys now fs s = (s1, fs1, Inr pair)"
  obtains (loaded) "fs1 = fs" "on_disk k (selfSignedPaths s) fs (sv_selfSignedCA s1) pair"
  | (generated) m :: material where "pair = mt_tls m" "sv_selfSignedCA s1 = mt_ca m" "pk_pair k (mt_cert m) (mt_key m) = Some pair"
      "fs1 = (if mkdir then write_all sys [(caCrt (selfSignedPaths s), mt_ca m), (caKey (selfSignedPaths s), mt_caKey m),
          (srvCrt (selfSignedPaths s), mt_cert m), (srvKey (selfSignedPaths s), mt_key m)] fs else fs)"
proof -
  obtain s0 r where l: "loadPersistedSelfSignedTLS k fs now (selfSignedPaths s) s = (s0, r)" by fastforce
  show thesis
  proof (cases r)
    case (Inr pair')
    with l assms have "fs1 = fs" "pair' = pair" "s1 = s0" by (simp_all add: loadOrGenerateSelfSignedTLS_def)
    with loadPersisted_Inr [of k fs now "selfSignedPaths s" s s0 pair'] l Inr show thesis by (intro loaded) simp_all
  next
    case (Inl e)
    obtain s2 g where g: "generateSelfSignedMaterial k s0 = (s2, g)" by fastforce
    with Inl l assms obtain m where m: "g = Inr m"
      by (cases g) (auto simp: loadOrGenerateSelfSignedTLS_def Let_def split: if_splits)
    with Inl l g assms have "pair = mt_tls m" "s1 = s2"
      "fs1 = (if mkdir then write_all sys [(caCrt (selfSignedPaths s), mt_ca m), (caKey (selfSignedPaths s), mt_caKey m),
          (srvCrt (selfSignedPaths s), mt_cert m), (srvKey (selfSignedPaths s), mt_key m)] fs else fs)"
      by (auto simp: loadOrGenerateSelfSignedTLS_def Let_def split: if_splits)
    with generate_Inr [of k s0 s2 m] g m show thesis by (intro generated [of m]) simp_all
  qed
qed

section \<open>Properties\<close>

text \<open>
  C26. The self-signed identity survives a restart: when a start could write its files,
  every later start on those files, until a day before the certificate expires, loads the
  same key pair under the same CA, changes nothing on disk and needs no randomness, so
  clients that trusted the CA go on trusting the server.
\<close>

theorem self_signed_survives_restart:
  assumes "loadOrGenerateSelfSignedTLS k True (\<lambda>p. Written) now fs s = (s1, fs1, Inr pair)"
    and "pk_pair k' = pk_pair k" and "leaf_of k' pair = Some leaf"
    and "now' \<le> tp_NotAfter leaf - selfSignedRenewBefore"
    and "sc_DataDir (sv_cfg s') = sc_DataDir (sv_cfg s)"
  shows "loadOrGenerateSelfSignedTLS k' mkdir' sys' now' fs1 s' =
    (s'\<lparr>sv_selfSignedCA := sv_selfSignedCA s1\<rparr>, fs1, Inr pair)"
proof -
  have paths: "selfSignedPaths s' = selfSignedPaths s" using assms(5) by (simp add: selfSignedPaths_def)
  have "on_disk k (selfSignedPaths s) fs1 (sv_selfSignedCA s1) pair"
    using assms(1)
  proof (cases rule: loadOrGenerate_cases)
    case (generated m)
    with paths_distinct [of s] show ?thesis by (simp add: write_file_def on_disk_def)
  qed simp
  then have "on_disk k' (selfSignedPaths s') fs1 (sv_selfSignedCA s1) pair"
    using assms(2) paths by (simp add: on_disk_def)
  from loadPersisted_loads [OF this assms(3,4)] show ?thesis
    by (simp add: loadOrGenerateSelfSignedTLS_def Let_def)
qed

text \<open>
  C27. A start that is interrupted in its last write does not recover: when the server's
  key is cut off, that start still serves, but every later one, at any time and however
  well the disk works by then, finds a pair that does not load, changes nothing and fails.
\<close>

theorem torn_key_blocks_restart:
  assumes "loadOrGenerateSelfSignedTLS k True sys now fs s = (s1, fs1, Inr pair)"
    and "fs (caCrt (selfSignedPaths s)) = Absent"
    and "sys (caCrt (selfSignedPaths s)) = Written" and "sys (caKey (selfSignedPaths s)) = Written"
    and "sys (srvCrt (selfSignedPaths s)) = Written" and "sys (srvKey (selfSignedPaths s)) = CutOff n"
    and "\<forall>cert key. pk_pair k cert (take n key) = None" and "pk_pair k' = pk_pair k"
    and "sc_DataDir (sv_cfg s') = sc_DataDir (sv_cfg s)"
  shows "\<exists>s2. loadOrGenerateSelfSignedTLS k' mkdir' sys' now' fs1 s' = (s2, fs1, Inl (LoadingPair None))"
proof -
  have paths: "selfSignedPaths s' = selfSignedPaths s" using assms(9) by (simp add: selfSignedPaths_def)
  have "\<exists>ca c p. fs1 (caCrt (selfSignedPaths s)) = Contents ca \<and> fs1 (srvCrt (selfSignedPaths s)) = Contents c \<and>
      fs1 (srvKey (selfSignedPaths s)) = Contents (take n p)"
    using assms(1)
  proof (cases rule: loadOrGenerate_cases)
    case loaded
    with assms(2) show ?thesis by (simp add: on_disk_def)
  next
    case (generated m)
    with paths_distinct [of s] assms(3-6) show ?thesis by (auto simp: write_file_def)
  qed
  then obtain ca c p where f: "fs1 (caCrt (selfSignedPaths s)) = Contents ca"
    "fs1 (srvCrt (selfSignedPaths s)) = Contents c" "fs1 (srvKey (selfSignedPaths s)) = Contents (take n p)" by blast
  have "loadPersistedSelfSignedTLS k' fs1 now' (selfSignedPaths s') s' =
      (s'\<lparr>sv_selfSignedCA := ca\<rparr>, Inl (LoadingPair None))"
    using f assms(7,8) paths by (simp add: loadPersistedSelfSignedTLS_def load_pair_def read_file_def Let_def)
  then show ?thesis by (simp add: loadOrGenerateSelfSignedTLS_def Let_def)
qed

text \<open>Keys and certificates as plain text: a certificate is its names, a key a letter.\<close>

definition demo_leaf :: template where
  "demo_leaf = \<lparr>tp_Serial = 1, tp_CommonName = [], tp_Organization = [], tp_NotBefore = 0, tp_NotAfter = ten_years,
     tp_KeyUsage = [], tp_ExtKeyUsage = [ServerAuth], tp_IsCA = False, tp_DNSNames = [], tp_IPAddresses = []\<rparr>"

definition demo_pki :: pki where
  "demo_pki =
     \<lparr>pk_key = (\<lambda>n. Some (if n = 0 then ''C'' else ''S'')), pk_serial = (\<lambda>n. Some 1),
      pk_create = (\<lambda>t parent pub key. Some (pub @ key)), pk_parse = (\<lambda>der. Some demo_leaf), pk_marshal = Some,
      pk_pem = (\<lambda>ty b. b), pk_pair = (\<lambda>c p. if c = p @ ''C'' \<and> p \<noteq> [] then Some \<lparr>ct_der = c, ct_leaf = None\<rparr> else None),
      pk_clock = (\<lambda>n. 0)\<rparr>"

definition demo_dir :: server where
  "demo_dir = demo_server\<lparr>sv_cfg := demo_config\<lparr>sc_DataDir := ''data''\<rparr>\<rparr>"

lemma demo_paths: "selfSignedPaths demo_dir =
  \<lparr>caCrt = ''data/ca.crt'', caKey = ''data/ca.key'', srvCrt = ''data/server.crt'', srvKey = ''data/server.key''\<rparr>"
proof -
  have "Join ''data'' ''ca.crt'' = ''data/ca.crt''" "Join ''data'' ''ca.key'' = ''data/ca.key''"
    "Join ''data'' ''server.crt'' = ''data/server.crt''" "Join ''data'' ''server.key'' = ''data/server.key''"
    by code_simp+
  then show ?thesis by (simp add: selfSignedPaths_def demo_dir_def Let_def)
qed

lemma demo_start:
  "\<exists>s1. loadOrGenerateSelfSignedTLS demo_pki True sys 0 (\<lambda>p. Absent) demo_dir =
     (s1, write_all sys [(''data/ca.crt'', ''CC''), (''data/ca.key'', ''C''), (''data/server.crt'', ''SC''), (''data/server.key'', ''S'')]
        (\<lambda>p. Absent), Inr \<lparr>ct_der = ''SC'', ct_leaf = None\<rparr>)"
  by (simp add: loadOrGenerateSelfSignedTLS_def demo_paths loadPersistedSelfSignedTLS_def read_file_def
      generateSelfSignedMaterial_def generate_ca_def generate_server_def try_or_def demo_pki_def Let_def
      del: write_all.simps)

theorem self_signed_survives_restart_witness:
  "\<exists>s1 fs1. loadOrGenerateSelfSignedTLS demo_pki True (\<lambda>p. Written) 0 (\<lambda>p. Absent) demo_dir =
      (s1, fs1, Inr \<lparr>ct_der = ''SC'', ct_leaf = None\<rparr>) \<and>
    loadOrGenerateSelfSignedTLS demo_pki False (\<lambda>p. NotOpened) hour fs1 demo_dir =
      (demo_dir\<lparr>sv_selfSignedCA := sv_selfSignedCA s1\<rparr>, fs1, Inr \<lparr>ct_der = ''SC'', ct_leaf = None\<rparr>)"
proof -
  obtain s1 fs1 where first: "loadOrGenerateSelfSignedTLS demo_pki True (\<lambda>p. Written) 0 (\<lambda>p. Absent) demo_dir =
      (s1, fs1, Inr \<lparr>ct_der = ''SC'', ct_leaf = None\<rparr>)"
    using demo_start [of "\<lambda>p. Written"] by blast
  have leaf: "leaf_of demo_pki \<lparr>ct_der = ''SC'', ct_leaf = None\<rparr> = Some demo_leaf"
    by (simp add: leaf_of_def demo_pki_def)
  have "hour \<le> tp_NotAfter demo_leaf - selfSignedRenewBefore"
    by (simp add: demo_leaf_def ten_years_def selfSignedRenewBefore_def time_units)
  from self_signed_survives_restart [OF first refl leaf this refl] first show ?thesis by blast
qed

theorem torn_key_blocks_restart_witness:
  "\<exists>s1 fs1 s2. loadOrGenerateSelfSignedTLS demo_pki True
        (\<lambda>p. if p = ''data/server.key'' then CutOff 0 else Written) 0 (\<lambda>p. Absent) demo_dir =
      (s1, fs1, Inr \<lparr>ct_der = ''SC'', ct_leaf = None\<rparr>) \<and>
    loadOrGenerateSelfSignedTLS demo_pki True (\<lambda>p. Written) hour fs1 demo_dir = (s2, fs1, Inl (LoadingPair None))"
proof -
  let ?sys = "\<lambda>p. if p = ''data/server.key'' then CutOff 0 else Written"
  obtain s1 fs1 where first: "loadOrGenerateSelfSignedTLS demo_pki True ?sys 0 (\<lambda>p. Absent) demo_dir =
      (s1, fs1, Inr \<lparr>ct_der = ''SC'', ct_leaf = None\<rparr>)"
    using demo_start [of ?sys] by blast
  have "\<forall>cert key. pk_pair demo_pki cert (take 0 key) = None" by (simp add: demo_pki_def)
  from torn_key_blocks_restart [OF first _ _ _ _ _ this refl refl] demo_paths first show ?thesis by simp
qed

end
