(* ===== verification/Serve.thy ===== *)
theory Serve
  imports SelfSigned
begin

text \<open>
  \<^verbatim>\<open>cmd/serve.go\<close> and \<^verbatim>\<open>pkg/talosapi\<close>: how the server is put together from its configuration,
  and the issuer behind it. The Talos client is a parameter: from its options it gives a
  connection or an error, and a connection answers \<^verbatim>\<open>GenerateClientConfiguration\<close>.
\<close>

section \<open>The issuer\<close>

record Issuer =
  is_talosConfigPath :: string
  is_endpoints :: "string list"

datatype client_option = ConfigFromFile string | DefaultConfig | Endpoints_option "string list"

type_synonym connection = "string list \<Rightarrow> duration \<Rightarrow> string + client_cert list"

definition NewIssuer :: "string \<Rightarrow> string list \<Rightarrow> Issuer" where
  "NewIssuer path eps = \<lparr>is_talosConfigPath = path, is_endpoints = eps\<rparr>"

definition client_options :: "Issuer \<Rightarrow> client_option list" where
  "client_options i =
     [if is_talosConfigPath i \<noteq> [] then ConfigFromFile (is_talosConfigPath i) else DefaultConfig] @
     (if is_endpoints i \<noteq> [] then [Endpoints_option (is_endpoints i)] else [])"

definition Issue ::
  "(client_option list \<Rightarrow> string + connection) \<Rightarrow> Issuer \<Rightarrow> string list \<Rightarrow> duration \<Rightarrow> string + client_cert" where
  "Issue connect i roles ttl =
     (case connect (client_options i) of
        Inl e \<Rightarrow> Inl (''creating Talos API client: '' @ e)
      | Inr call \<Rightarrow>
          (case call roles ttl of
             Inl e \<Rightarrow> Inl (''generating client configuration through the Talos API: '' @ e)
           | Inr [] \<Rightarrow> Inl ''the Talos API returned no client configuration''
           | Inr (m # ms) \<Rightarrow> Inr m))"

section \<open>Putting the server together\<close>

datatype serve_error =
    ConfigFailed config_error
  | AuditLogFailed
  | CertLogFailed
  | AllowlistFailed parse_error
  | StartFailed tls_error
  | ServerFailed
  | ShutdownFailed

record serve_world =
  se_env :: "string \<Rightarrow> string"
  se_read :: "string \<Rightarrow> string option"
  se_yaml :: "string \<Rightarrow> FileConfig option"
  se_opens :: "string \<Rightarrow> bool" \<comment> \<open>opening a log for appending\<close>
  se_now :: time
  se_cert_marshal :: "CertRecord \<Rightarrow> string option"

text \<open>The two listeners; each acts on its part of the pair, the second when there is a certificate log.\<close>

definition tracker_listener :: "event \<Rightarrow> tracker option \<times> certlog option \<Rightarrow> tracker option \<times> certlog option" where
  "tracker_listener ev tc = (map_option (tr_handleEvent ev) (fst tc), snd tc)"

definition certlog_listener ::
  "(CertRecord \<Rightarrow> string option) \<Rightarrow> event \<Rightarrow> tracker option \<times> certlog option \<Rightarrow> tracker option \<times> certlog option" where
  "certlog_listener marshal ev tc = (fst tc, map_option (cl_handleEvent marshal ev) (snd tc))"

definition configured_limiter :: "ResolvedConfig \<Rightarrow> limiter option" where
  "configured_limiter rc =
     (if 0 < rc_RateLimitRequests rc
      then let win = (if rc_RateLimitWindow rc \<le> 0 then minute else rc_RateLimitWindow rc)
           in Some (rl_New (rc_RateLimitRequests rc) win (rc_TrustedProxies rc))
      else None)"

definition configured_allowlist :: "ResolvedConfig \<Rightarrow> parse_error + allowlist option" where
  "configured_allowlist rc =
     (if rc_IPAllowlist rc \<noteq> [] then map_sum id Some (al_New (rc_IPAllowlist rc) (rc_TrustedProxies rc)) else Inr None)"

definition configured_mapper :: "ResolvedConfig \<Rightarrow> mapper option" where
  "configured_mapper rc = (if rc_RBAC rc \<noteq> [] then Some (NewMapper (rc_RBAC rc) (rc_Roles rc)) else None)"

definition server_of :: "ResolvedConfig \<Rightarrow> duration \<Rightarrow> allowlist option \<Rightarrow> server_config" where
  "server_of rc ttl al =
     \<lparr>sc_ListenAddr = rc_Listen rc, sc_CertTTL = ttl, sc_Roles = rc_Roles rc, sc_IssuerURL = rc_IssuerURL rc,
      sc_ClientID = rc_ClientID rc, sc_ClientSecret = rc_ClientSecret rc, sc_Endpoints = rc_Endpoints rc,
      sc_TLSCertFile = rc_TLSCert rc, sc_TLSKeyFile = rc_TLSKey rc, sc_Insecure = rc_Insecure rc,
      sc_DataDir = rc_DataDir rc, sc_AdminToken = rc_AdminToken rc, sc_Allowlist = al,
      sc_RBACMapper = configured_mapper rc\<rparr>"

text \<open>\<^verbatim>\<open>server.New\<close>: nothing is cached, nobody is logged in; \<^verbatim>\<open>serve\<close> sets no anomaly detector.\<close>

definition New_server ::
  "server_config \<Rightarrow> limiter option \<Rightarrow> (tracker option \<times> certlog option) logger \<Rightarrow> tracker \<Rightarrow> certlog option \<Rightarrow> server" where
  "New_server cfg lim lg t c =
     \<lparr>sv_cfg = cfg, sv_limiter = lim, sv_anomaly = None, sv_logger = Some lg, sv_tracker = Some t, sv_certlog = c,
      sv_cache = None, sv_selfSignedCA = [], sv_sessions = None, sv_bruteForce = None, sv_issue_calls = []\<rparr>"

definition serve_setup :: "serve_world \<Rightarrow> string \<Rightarrow> serve_error + Issuer \<times> server" where
  "serve_setup w configFile =
     (case resolve (se_env w) (se_read w) (se_yaml w) configFile of
        Inl e \<Rightarrow> Inl (ConfigFailed e)
      | Inr (rc, certTTL) \<Rightarrow>
          (let issuer = NewIssuer (rc_TalosConfig rc) (rc_Endpoints rc) in
           case NewLogger (se_opens w) (rc_AuditLog rc) of
             None \<Rightarrow> Inl AuditLogFailed
           | Some lg0 \<Rightarrow>
               (let lg1 = AddListener tracker_listener lg0;
                    certLog = (if rc_CertLog rc = [] then Inr None
                      else case NewCertLog (se_opens w) (rc_CertLog rc) of None \<Rightarrow> Inl CertLogFailed | Some c \<Rightarrow> Inr (Some c))
                in case certLog of
                     Inl e \<Rightarrow> Inl e
                   | Inr c \<Rightarrow>
                       (let lg2 = (if c = None then lg1 else AddListener (certlog_listener (se_cert_marshal w)) lg1) in
                        case configured_allowlist rc of
                          Inl e \<Rightarrow> Inl (AllowlistFailed e)
                        | Inr al \<Rightarrow>
                            Inr (issuer, New_server (server_of rc certTTL al) (configured_limiter rc) lg2
                              (NewTracker (se_now w)) c)))))"

text \<open>How serving ends: by itself, or by a signal with or without a clean shutdown.\<close>

datatype ending = ByItself | BySignal bool

definition runServe ::
  "serve_world \<Rightarrow> pki \<Rightarrow> disk \<Rightarrow> (nat \<Rightarrow> time) \<Rightarrow> bool \<Rightarrow> (string \<Rightarrow> write_outcome) \<Rightarrow> time \<Rightarrow> file_system \<Rightarrow> ending
     \<Rightarrow> string \<Rightarrow> file_system \<times> serve_error option" where
  "runServe w k d t mkdir sys now fs ending configFile =
     (case serve_setup w configFile of
        Inl e \<Rightarrow> (fs, Some e)
      | Inr (issuer, s) \<Rightarrow>
          (case Start k d t mkdir sys now fs s of
             (s1, fs1, mode) \<Rightarrow>
               (fs1, case ending of
                  BySignal clean \<Rightarrow> if clean then None else Some ShutdownFailed
                | ByItself \<Rightarrow> Some (case mode of Inl e \<Rightarrow> StartFailed e | Inr m \<Rightarrow> ServerFailed))))"

section \<open>What the configuration becomes\<close>

lemma serve_setup_Inr:
  assumes "serve_setup w configFile = Inr (issuer, s)"
  obtains rc ttl al lg c where "resolve (se_env w) (se_read w) (se_yaml w) configFile = Inr (rc, ttl)"
    and "configured_allowlist rc = Inr al" and "issuer = NewIssuer (rc_TalosConfig rc) (rc_Endpoints rc)"
    and "s = New_server (server_of rc ttl al) (configured_limiter rc) lg (NewTracker (se_now w)) c"
    and "lg_listeners lg = tracker_listener # (if c = None then [] else [certlog_listener (se_cert_marshal w)])"
proof -
  obtain rc ttl where rc: "resolve (se_env w) (se_read w) (se_yaml w) configFile = Inr (rc, ttl)"
    using assms by (auto simp: serve_setup_def split: sum.splits)
  obtain lg0 :: "(tracker option \<times> certlog option) logger" where lg0: "NewLogger (se_opens w) (rc_AuditLog rc) = Some lg0"
    using assms rc by (auto simp: serve_setup_def Let_def split: option.splits)
  then have none: "lg_listeners lg0 = []" by (auto simp: NewLogger_def split: if_splits)
  obtain c where c: "(if rc_CertLog rc = [] then Inr None
      else case NewCertLog (se_opens w) (rc_CertLog rc) of None \<Rightarrow> Inl CertLogFailed | Some c \<Rightarrow> Inr (Some c)) = Inr c"
    using assms rc lg0 by (auto simp: serve_setup_def Let_def split: sum.splits)
  obtain al where al: "configured_allowlist rc = Inr al"
    using assms rc lg0 c by (auto simp: serve_setup_def Let_def split: sum.splits)
  show thesis
    by (rule that [OF rc al,
          of "if c = None then AddListener tracker_listener lg0 else AddListener (certlog_listener (se_cert_marshal w)) (AddListener tracker_listener lg0)" c])
      (use assms rc lg0 c al none in \<open>auto simp: serve_setup_def Let_def AddListener_def\<close>)
qed

text \<open>The address the allowlist acts on.\<close>

definition client_address :: "server_config \<Rightarrow> request \<Rightarrow> string" where
  "client_address cfg r = (case sc_Allowlist cfg of Some a \<Rightarrow> al_extractIP a r | None \<Rightarrow> peer r)"

lemma blank_matches_nothing: "blank e \<Longrightarrow> \<not> entry_matches e ip"
proof -
  have "ParseIP [] = None" "ParseCIDR [] = None" by code_simp+
  then show "blank e \<Longrightarrow> \<not> entry_matches e ip" by (simp add: blank_def entry_matches_def)
qed

lemma configured_gate:
  assumes "configured_allowlist rc = Inr al"
  shows "allowlist_gate (server_of rc ttl al) r \<longleftrightarrow>
    (\<forall>e \<in> set (rc_IPAllowlist rc). blank e) \<or>
    (\<exists>ip. ParseIP (client_address (server_of rc ttl al) r) = Some ip \<and>
      (\<exists>e \<in> set (rc_IPAllowlist rc). \<not> blank e \<and> entry_matches e ip))"
proof (cases "rc_IPAllowlist rc = []")
  case True
  with assms show ?thesis by (simp add: configured_allowlist_def allowlist_gate_def server_of_def)
next
  case False
  then obtain a where a: "al = Some a" "al_New (rc_IPAllowlist rc) (rc_TrustedProxies rc) = Inr a"
    using assms by (cases "al_New (rc_IPAllowlist rc) (rc_TrustedProxies rc)") (auto simp: configured_allowlist_def)
  then obtain t where e: "al_entries (rc_IPAllowlist rc) \<lparr>al_nets = [], al_ips = [], al_trusted = t\<rparr> = Inr a"
    by (auto simp: al_New_def split: sum.splits)
  have "al_IsEnabled (Some a) \<longleftrightarrow> (\<exists>e \<in> set (rc_IPAllowlist rc). \<not> blank e)"
    using al_entries_enabled [OF e] by (simp add: al_IsEnabled_def)
  moreover have "al_holds a ip \<longleftrightarrow> (\<exists>e \<in> set (rc_IPAllowlist rc). \<not> blank e \<and> entry_matches e ip)" for ip
    using al_entries_holds [OF e] by (simp add: al_holds_def)
  ultimately show ?thesis
    using a(1) by (auto simp: allowlist_gate_def client_address_def server_of_def al_Allowed_holds)
qed

section \<open>What a run keeps\<close>

text \<open>The configuration, and the fixed fields of the limiter.\<close>

definition same_limits :: "limiter option \<Rightarrow> limiter option \<Rightarrow> bool" where
  "same_limits a b \<longleftrightarrow>
     map_option (\<lambda>l. (rl_requests l, rl_window l, rl_trusted l)) b =
     map_option (\<lambda>l. (rl_requests l, rl_window l, rl_trusted l)) a"

lemma same_limits_refl [simp]: "same_limits a a"
  by (simp add: same_limits_def)

lemma same_limits_trans: "same_limits a b \<Longrightarrow> same_limits b c \<Longrightarrow> same_limits a c"
  by (simp add: same_limits_def)

lemma rl_Allow_limits: "same_limits (Some l) (Some (fst (rl_Allow l ip now)))"
  by (simp add: same_limits_def rl_Allow_def rl_lookup_def rl_count_unfold Let_def split: option.split)

lemma handleExchange_limiter: "sv_limiter (fst (handleExchange w s r :: server \<times> 'p response)) = sv_limiter s"
proof (cases rule: handleExchange_cases [where 'p = 'p, of w s r])
  case (invalid tok s2 e)
  with validateToken_frame [OF invalid(3)] show ?thesis by (simp add: frame_simps)
next
  case (valid tok s2 tc)
  with validateToken_frame [OF valid(3)] show ?thesis
    by (simp add: issue_certificate_def Let_def frame_simps split: sum.split)
qed simp

lemma rl_Cleanup_limits: "same_limits (Some l) (Some (rl_Cleanup l now))"
proof -
  have "rl_requests (fold (rl_cleanup_client t) cs l) = rl_requests l \<and> rl_window (fold (rl_cleanup_client t) cs l) = rl_window l \<and>
      rl_trusted (fold (rl_cleanup_client t) cs l) = rl_trusted l" for t cs
    by (induction cs arbitrary: l) (simp_all add: rl_cleanup_client_def Let_def split: prod.split)
  then show ?thesis by (simp add: same_limits_def rl_Cleanup_def)
qed

lemma limiter_gate_limits:
  assumes "limiter_gate w s r = (s1, ok)"
  shows "same_limits (sv_limiter s) (sv_limiter s1)"
proof (cases "sv_limiter s")
  case None
  with assms show ?thesis by (simp add: limiter_gate_def)
next
  case (Some l)
  obtain l' ok' where a: "rl_Allow l (rl_extractIP l r) (w_clock w 0) = (l', ok')" by fastforce
  with rl_Allow_limits [of l "rl_extractIP l r" "w_clock w 0"] Some assms show ?thesis
    by (auto simp: limiter_gate_def Let_def split: if_splits)
qed

lemma exchange_chain_limits:
  "same_limits (sv_limiter s) (sv_limiter (fst (exchange_chain w s s r :: server \<times> 'p response)))"
proof -
  obtain s1 ok where gate: "limiter_gate w s r = (s1, ok)" by fastforce
  with limiter_gate_limits [OF gate] show ?thesis
    by (simp add: exchange_chain_gates handleExchange_limiter)
qed

lemma exchange_chain_same:
  assumes "sv_cfg s = sv_cfg s0" and "same_limits (sv_limiter s0) (sv_limiter s)"
  shows "(exchange_chain w s0 s r :: server \<times> 'p response) = exchange_chain w s s r"
proof (cases "sv_limiter s0")
  case None
  with assms have "sv_limiter s = None" by (simp add: same_limits_def)
  with None assms(1) show ?thesis by (simp add: exchange_chain_def)
next
  case (Some l0)
  with assms(2) obtain l where "sv_limiter s = Some l" "rl_requests l = rl_requests l0"
    by (cases "sv_limiter s") (auto simp: same_limits_def)
  with Some assms(1) show ?thesis by (simp add: exchange_chain_def rl_IsEnabled_def rl_Middleware_def Let_def)
qed

text \<open>The other endpoints do not touch the limiter, nor the issuer.\<close>

definition exchange_frame :: "server \<Rightarrow> server \<Rightarrow> bool" where
  "exchange_frame s s' \<longleftrightarrow>
     sv_cfg s' = sv_cfg s \<and> sv_limiter s' = sv_limiter s \<and> sv_issue_calls s' = sv_issue_calls s"

lemma exchange_frame_refl [simp]: "exchange_frame s s"
  by (simp add: exchange_frame_def)

lemma admin_api_exchange_frame:
  "exchange_frame s (fst (requireAdminToken (handleAdminStats w) s r :: server \<times> 'p response))"
  "exchange_frame s (fst (requireAdminToken (handleAdminCerts w) s r :: server \<times> 'p response))"
  by (simp_all add: requireAdminToken_def handleAdminStats_def handleAdminCerts_def exchange_frame_def Let_def
      split: option.split prod.split)

lemma handleAdminDashboard_exchange_frame: "exchange_frame s (fst (handleAdminDashboard w s r))"
  by (auto simp: handleAdminDashboard_def exchange_frame_def Let_def split: option.split prod.split)

lemma handleAdminLogout_exchange_frame: "exchange_frame s (fst (handleAdminLogout s r))"
  by (auto simp: handleAdminLogout_def exchange_frame_def Let_def split: option.split prod.split)

lemma handleAdminLogin_exchange_frame: "exchange_frame s (fst (handleAdminLogin w s r))"
  by (auto simp: handleAdminLogin_def exchange_frame_def Let_def split: option.split prod.split)

lemma serve_other_frame:
  assumes "serve moved s0 w s r = (s', resp)" and "route_of (sv_tracker s0 \<noteq> None) r \<noteq> ToExchange"
  shows "exchange_frame s s'"
  using assms(1)
proof (cases "route_of (sv_tracker s0 \<noteq> None) r")
  case ToStats
  with assms(1) admin_api_exchange_frame(1) [of s w r, where 'p = AdminPageData] show ?thesis by (simp add: serve_def)
next
  case ToCerts
  with assms(1) admin_api_exchange_frame(2) [of s w r, where 'p = AdminPageData] show ?thesis by (simp add: serve_def)
next
  case ToDashboard
  with assms(1) handleAdminDashboard_exchange_frame [of s w r] show ?thesis by (simp add: serve_def)
next
  case ToLogin
  with assms(1) handleAdminLogin_exchange_frame [of s w r] show ?thesis by (simp add: serve_def)
next
  case ToLogout
  with assms(1) handleAdminLogout_exchange_frame [of s r] show ?thesis by (simp add: serve_def)
qed (use assms in \<open>auto simp: serve_def handleHealth_def handleCA_def split: if_splits\<close>)

lemma served_same:
  "served moved s0 tr s \<Longrightarrow> sv_cfg s = sv_cfg s0 \<and> same_limits (sv_limiter s0) (sv_limiter s)"
proof (induction rule: served.induct)
  case (answered tr s w r s' resp)
  show ?case
  proof (cases "route_of (sv_tracker s0 \<noteq> None) r = ToExchange")
    case True
    with answered(2) have s': "s' = fst (exchange_chain w s s r :: server \<times> AdminPageData response)"
      by (simp add: serve_def exchange_chain_same [OF conjunct1 [OF answered(3)] conjunct2 [OF answered(3)]])
    have "sv_cfg s' = sv_cfg s"
      using exchange_chain_dash [of s w s r, where 'p = AdminPageData] by (simp add: s' dash_frame_def)
    moreover have "same_limits (sv_limiter s0) (sv_limiter s')"
      unfolding s' using answered(3) exchange_chain_limits by (blast intro: same_limits_trans)
    ultimately show ?thesis using answered(3) by simp
  next
    case False
    with serve_other_frame [OF answered(2)] answered(3) show ?thesis by (simp add: exchange_frame_def)
  qed
next
  case (cleaned tr s t)
  moreover have "same_limits (sv_limiter s) (sv_limiter (limiter_tick t s))"
    using rl_Cleanup_limits by (cases "sv_limiter s") auto
  ultimately show ?case by (auto intro: same_limits_trans)
qed simp

text \<open>So at every moment of a run the endpoint is the chain over the server's present state.\<close>

lemma served_exchange:
  assumes "served moved s0 tr s" and "route_of (sv_tracker s0 \<noteq> None) r = ToExchange"
  shows "serve moved s0 w s r = exchange_chain w s s r"
  using assms(2) served_same [OF assms(1)] by (simp add: serve_def exchange_chain_same [of s s0])

text \<open>What a request adds to the calls of the issuer, and what roles it can be.\<close>

lemma exchange_chain_calls:
  assumes "(exchange_chain w s s r :: server \<times> 'p response) = (s', resp)"
  shows "sv_issue_calls s' = sv_issue_calls s \<or>
    (Method r = ''POST'' \<and> (\<exists>tc. roles_for w (sv_cfg s) tc \<noteq> [] \<and>
      sv_issue_calls s' = sv_issue_calls s @ [(roles_for w (sv_cfg s) tc, sc_CertTTL (sv_cfg s))]))"
proof (cases "sv_issue_calls s' = sv_issue_calls s")
  case False
  obtain s1 ok where gate: "limiter_gate w s r = (s1, ok)" by fastforce
  note frame = limiter_gate_frame [OF gate]
  have h: "(handleExchange w s1 r :: server \<times> 'p response) = (s', resp)"
    using assms gate False frame(7) by (auto simp: exchange_chain_gates split: if_splits)
  with False frame(7) have "sv_issue_calls (fst (handleExchange w s1 r :: server \<times> 'p response)) \<noteq> sv_issue_calls s1"
    by simp
  then obtain tok s2 tc where "Method r = ''POST''" "roles_for w (sv_cfg s1) tc \<noteq> []"
    "sv_issue_calls (fst (handleExchange w s1 r :: server \<times> 'p response)) =
       sv_issue_calls s1 @ [(roles_for w (sv_cfg s1) tc, sc_CertTTL (sv_cfg s1))]"
    by (rule handleExchange_calls)
  with h frame show ?thesis by auto
qed simp

lemma roles_for_bound:
  assumes "permutes_keys (w_role_order w)"
  shows "set (roles_for w (server_of rc ttl al) tc) \<subseteq>
      set (rc_Roles rc) \<union> (\<Union>rule \<in> set (rc_RBAC rc). set (rule_Roles rule))"
    and "rc_RBAC rc = [] \<Longrightarrow> roles_for w (server_of rc ttl al) tc = rc_Roles rc"
proof -
  let ?m = "NewMapper (rc_RBAC rc) (rc_Roles rc)" and ?cl = "decoded (tc_Claims tc)"
  have m: "m_rules ?m = rc_RBAC rc" "m_defaultRoles ?m = rc_Roles rc" by (simp_all add: NewMapper_def)
  have "set (MapRoles (w_role_order w) ?m ?cl) \<subseteq>
      set (rc_Roles rc) \<union> (\<Union>rule \<in> set (rc_RBAC rc). set (rule_Roles rule))"
  proof (cases "\<exists>rule \<in> set (m_rules ?m). rule_matches ?cl rule")
    case True
    then obtain rule where "rule \<in> set (m_rules ?m)" "rule_matches ?cl rule" by blast
    from MapRoles_matched(1) [OF assms this] show ?thesis by (auto simp: m)
  next
    case False
    with MapRoles_unmatched [of ?m ?cl "w_role_order w"] show ?thesis by (simp add: m)
  qed
  then show "set (roles_for w (server_of rc ttl al) tc) \<subseteq>
      set (rc_Roles rc) \<union> (\<Union>rule \<in> set (rc_RBAC rc). set (rule_Roles rule))"
    by (auto simp: roles_for_def server_of_def configured_mapper_def)
  show "rc_RBAC rc = [] \<Longrightarrow> roles_for w (server_of rc ttl al) tc = rc_Roles rc"
    by (simp add: roles_for_def server_of_def configured_mapper_def)
qed

text \<open>A request to the issuer that stays within the configuration.\<close>

definition as_configured :: "ResolvedConfig \<Rightarrow> duration \<Rightarrow> string list \<times> duration \<Rightarrow> bool" where
  "as_configured rc ttl x \<longleftrightarrow>
     (case x of (roles, d) \<Rightarrow> d = ttl \<and> roles \<noteq> [] \<and>
        set roles \<subseteq> set (rc_Roles rc) \<union> (\<Union>rule \<in> set (rc_RBAC rc). set (rule_Roles rule)) \<and>
        (rc_RBAC rc = [] \<longrightarrow> roles = rc_Roles rc))"

lemma roles_for_configured:
  "permutes_keys (w_role_order w) \<Longrightarrow> roles_for w (server_of rc ttl al) tc \<noteq> [] \<Longrightarrow>
   as_configured rc ttl (roles_for w (server_of rc ttl al) tc, ttl)"
  unfolding as_configured_def using roles_for_bound [of w rc ttl al tc] by simp

section \<open>Properties\<close>

text \<open>
  C15. A configured allowlist is enforced for as long as the server runs: when an entry is
  not blank, a request to the exchange endpoint from an address none of the entries
  matches is refused, and the issuer is never asked on its behalf, whatever happened
  before.
\<close>

theorem unlisted_address_refused:
  assumes "serve_setup sw configFile = Inr (issuer, s0)"
    and "resolve (se_env sw) (se_read sw) (se_yaml sw) configFile = Inr (rc, ttl)"
    and "e \<in> set (rc_IPAllowlist rc)" and "\<not> blank e"
    and "served moved s0 tr s" and "route_of True r = ToExchange"
    and "\<forall>ip. ParseIP (client_address (sv_cfg s0) r) = Some ip \<longrightarrow>
      (\<forall>e \<in> set (rc_IPAllowlist rc). \<not> entry_matches e ip)"
    and "serve moved s0 w s r = (s', resp)"
  shows "status resp \<in> {StatusForbidden, StatusTooManyRequests} \<and> sv_issue_calls s' = sv_issue_calls s"
proof -
  obtain al lg c where al: "configured_allowlist rc = Inr al"
    and s0: "s0 = New_server (server_of rc ttl al) (configured_limiter rc) lg (NewTracker (se_now sw)) c"
    using assms(1,2) by (elim serve_setup_Inr) auto
  have cfg: "sv_cfg s0 = server_of rc ttl al" "sv_tracker s0 \<noteq> None" by (simp_all add: s0 New_server_def)
  have closed: "\<not> allowlist_gate (sv_cfg s0) r"
    unfolding cfg(1) configured_gate [OF al] using assms(3,4,7) cfg(1) by auto
  have "route_of (sv_tracker s0 \<noteq> None) r = ToExchange" using assms(6) cfg(2) by simp
  with assms(5,8) have ch: "exchange_chain w s s r = (s', resp)" by (simp add: served_exchange)
  obtain s1 ok where gate: "limiter_gate w s r = (s1, ok)" by fastforce
  with ch closed served_same [OF assms(5)] limiter_gate_frame(7) [OF gate] show ?thesis
    by (auto simp: exchange_chain_gates split: if_splits)
qed

text \<open>A configuration file with rules and, as the argument, an allowlist.\<close>

definition demo_serve :: "string list \<Rightarrow> serve_world" where
  "demo_serve allowed =
     \<lparr>se_env = (\<lambda>k. []), se_read = (\<lambda>p. Some p),
      se_yaml = (\<lambda>d. Some (empty_FileConfig\<lparr>f_IssuerURL := ''https://idp'', f_ClientID := ''talos'',
        f_Endpoints := [''10.0.0.1''], f_IPAllowlist := allowed, f_RBAC := demo_rules\<rparr>)),
      se_opens = (\<lambda>p. True), se_now = 0, se_cert_marshal = (\<lambda>c. None)\<rparr>"

definition demo_resolved :: "string list \<Rightarrow> ResolvedConfig" where
  "demo_resolved allowed = \<lparr>rc_TalosConfig = [], rc_IssuerURL = ''https://idp'', rc_ClientID = ''talos'',
     rc_ClientSecret = [], rc_ClientSecretFile = [], rc_Listen = '':8443'', rc_Endpoints = [''10.0.0.1''],
     rc_CertTTL = [], rc_Roles = [], rc_TLSCert = [], rc_TLSKey = [], rc_Insecure = False,
     rc_DataDir = [], rc_AuditLog = [], rc_CertLog = [], rc_AdminToken = [],
     rc_RateLimitRequests = 0, rc_RateLimitWindow = 0, rc_IPAllowlist = allowed, rc_TrustedProxies = [],
     rc_RBAC = demo_rules\<rparr>"

lemma demo_serve_resolve:
  "resolve (se_env (demo_serve al)) (se_read (demo_serve al)) (se_yaml (demo_serve al)) ''c'' =
     Inr (demo_resolved al, 5 * minute)"
proof -
  have rules: "demo_rules \<noteq> []" by (simp add: demo_rules_def)
  have "Load (se_env (demo_serve al)) (se_read (demo_serve al)) (se_yaml (demo_serve al)) ''c'' =
      Inr ((demo_resolved al)\<lparr>rc_Listen := []\<rparr>)"
    by (simp add: Load_def LoadFile_def demo_serve_def demo_resolved_def empty_FileConfig_def envOrDefault_def
        envListOr_def Let_def)
  with rules show ?thesis
    by (simp add: resolve_def ApplyDefaults_def Validate_def missing_fields_def LoadClientSecret_def ParseCertTTL_def
        demo_resolved_def Let_def)
qed

lemma demo_serve_setup:
  assumes "configured_allowlist (demo_resolved al) = Inr a"
  shows "\<exists>lg. serve_setup (demo_serve al) ''c'' = Inr (NewIssuer [] [''10.0.0.1''],
    New_server (server_of (demo_resolved al) (5 * minute) a) None lg (NewTracker 0) None)"
  using assms demo_serve_resolve [of al]
  by (simp add: serve_setup_def NewLogger_def configured_limiter_def Let_def)
    (simp add: demo_resolved_def demo_serve_def, rule exI, rule refl)

definition demo_net :: ipnet where "demo_net = v4_net [10, 0, 0, 0] 8"

lemma demo_allowlist:
  "configured_allowlist (demo_resolved [''10.0.0.0/8'']) =
     Inr (Some \<lparr>al_nets = [demo_net], al_ips = [], al_trusted = []\<rparr>)"
  "entry_matches ''10.0.0.0/8'' ip = Contains demo_net ip" "\<not> blank ''10.0.0.0/8''"
proof -
  have t: "trim_space ''10.0.0.0/8'' = ''10.0.0.0/8''" by (simp add: trim_eval)
  have p: "parse_addr ''10.0.0.0'' = Some (V4 [10, 0, 0, 0])" "dtoi ''8'' 0 0 = Some (8, length ''8'')"
    by (simp_all add: go_unfold Let_def)
  have c: "ParseCIDR ''10.0.0.0/8'' = Some demo_net"
    using ParseCIDR_v4 [of "''10.0.0.0''" "[10, 0, 0, 0]" "''8''", OF _ p] by (simp add: demo_net_def)
  show "configured_allowlist (demo_resolved [''10.0.0.0/8'']) =
     Inr (Some \<lparr>al_nets = [demo_net], al_ips = [], al_trusted = []\<rparr>)"
    by (simp add: configured_allowlist_def demo_resolved_def al_New_def t c Let_def)
  show "entry_matches ''10.0.0.0/8'' ip = Contains demo_net ip" "\<not> blank ''10.0.0.0/8''"
    by (simp_all add: entry_matches_def blank_def t c)
qed

lemma demo_outside: "ParseIP ''203.0.113.9'' = Some ip \<Longrightarrow> \<not> Contains demo_net ip"
proof -
  have "ParseIP ''203.0.113.9'' = Some (v4_in_v6_prefix @ [203, 0, 113, 9])"
    by (simp_all add: go_unfold Let_def)
  moreover have "\<not> Contains demo_net (v4_in_v6_prefix @ [203, 0, 113, 9])"
    unfolding demo_net_def by code_simp
  ultimately show "ParseIP ''203.0.113.9'' = Some ip \<Longrightarrow> \<not> Contains demo_net ip" by simp
qed

lemma demo_exchange_route: "route_of True demo_post = ToExchange"
proof -
  have "dispatch (server_mux True) ''POST'' ''/exchange'' = To ToExchange" by code_simp
  then show ?thesis by (simp add: route_of_def demo_post_def demo_request_def)
qed

theorem unlisted_address_refused_witness:
  "\<exists>issuer s0 s' resp. serve_setup (demo_serve [''10.0.0.0/8'']) ''c'' = Inr (issuer, s0) \<and>
     serve demo_moved s0 demo_world s0 demo_post = (s', resp) \<and> status resp \<in> {403, 429} \<and> sv_issue_calls s' = []"
proof -
  let ?al = "[''10.0.0.0/8'']"
  let ?a = "\<lparr>al_nets = [demo_net], al_ips = [], al_trusted = []\<rparr>"
  obtain lg where s0: "serve_setup (demo_serve ?al) ''c'' = Inr (NewIssuer [] [''10.0.0.1''],
      New_server (server_of (demo_resolved ?al) (5 * minute) (Some ?a)) None lg (NewTracker 0) None)"
    using demo_serve_setup [OF demo_allowlist(1)] by blast
  define s0 where "s0 = New_server (server_of (demo_resolved ?al) (5 * minute) (Some ?a)) None lg (NewTracker 0) None"
  have entries: "rc_IPAllowlist (demo_resolved ?al) = ?al" by (simp add: demo_resolved_def)
  have "client_address (sv_cfg s0) demo_post = ''203.0.113.9''"
    by (simp add: s0_def New_server_def server_of_def client_address_def al_extractIP_def al_isTrustedProxy_def
        demo_post_def demo_request_def go_unfold split: option.split)
  then have out: "\<forall>ip. ParseIP (client_address (sv_cfg s0) demo_post) = Some ip \<longrightarrow>
      (\<forall>e \<in> set (rc_IPAllowlist (demo_resolved ?al)). \<not> entry_matches e ip)"
    using demo_outside demo_allowlist(2) by (simp add: entries)
  obtain s' resp where answer: "serve demo_moved s0 demo_world s0 demo_post = (s', resp)" by fastforce
  have "status resp \<in> {StatusForbidden, StatusTooManyRequests} \<and> sv_issue_calls s' = sv_issue_calls s0"
    by (rule unlisted_address_refused [OF s0 [folded s0_def] demo_serve_resolve _ demo_allowlist(3) served.started
        demo_exchange_route out answer]) (simp add: entries)
  moreover have "sv_issue_calls s0 = []" by (simp add: s0_def New_server_def)
  ultimately show ?thesis using s0 answer unfolding s0_def by auto
qed

end
