(* ===== verification/RunLimits.thy ===== *)
theory RunLimits
  imports Serve
begin

text \<open>
  The rate limit seen from outside: the runs of a server set up with a limit, related to
  the runs of its limiter, so that the sliding-window specification bounds the answers the
  exchange endpoint gives.
\<close>

section \<open>The limiter's part of a run\<close>

type_synonym 'p answered = "world \<times> request \<times> 'p response"

definition to_exchange :: "server \<Rightarrow> 'p answered \<Rightarrow> bool" where
  "to_exchange s0 x \<longleftrightarrow> route_of (sv_tracker s0 \<noteq> None) (fst (snd x)) = ToExchange"

text \<open>What a happening asks of the limiter, and when.\<close>

definition limited_op :: "server \<Rightarrow> limiter \<Rightarrow> happening \<Rightarrow> rl_op list" where
  "limited_op s0 l h =
     (case h of
        Answered w r resp \<Rightarrow> if to_exchange s0 (w, r, resp) then [OpAllow (rl_extractIP l r) (w_clock w 0)] else []
      | CleanedUp t \<Rightarrow> [OpCleanup t])"

definition limited_ops :: "server \<Rightarrow> limiter \<Rightarrow> happening list \<Rightarrow> rl_op list" where
  "limited_ops s0 l tr = concat (map (limited_op s0 l) tr)"

fun happened_at :: "happening \<Rightarrow> time" where
  "happened_at (Answered w r resp) = w_clock w 0"
| "happened_at (CleanedUp t) = t"

lemma limited_op_simps [simp]:
  "limited_op s0 l (Answered w r resp) =
     (if to_exchange s0 (w, r, resp) then [OpAllow (rl_extractIP l r) (w_clock w 0)] else [])"
  "limited_op s0 l (CleanedUp t) = [OpCleanup t]"
  by (simp_all add: limited_op_def)

lemma limited_op_time: "x \<in> set (limited_op s0 l h) \<Longrightarrow> op_time x = happened_at h"
  by (cases h) (auto split: if_splits)

lemma limited_ops_sorted: "sorted (map happened_at tr) \<Longrightarrow> sorted (map op_time (limited_ops s0 l tr))"
proof (induction tr)
  case (Cons h tr)
  have "sorted (map op_time (limited_op s0 l h))" by (cases h) simp_all
  then show ?case
    using Cons limited_op_time by (fastforce simp: limited_ops_def sorted_append)
qed (simp add: limited_ops_def)

lemma rl_run_append:
  "rl_run l (ops @ ops') = (let (l1, outs) = rl_run l ops; (l2, outs') = rl_run l1 ops' in (l2, outs @ outs'))"
  by (induction l ops rule: rl_run.induct) (auto simp: Let_def split: prod.splits)

lemma same_trusted_ip:
  "rl_trusted l' = rl_trusted l \<Longrightarrow> rl_extractIP l' = rl_extractIP l"
proof -
  assume "rl_trusted l' = rl_trusted l"
  then have "rl_isTrustedProxy l' = rl_isTrustedProxy l" by (simp add: rl_isTrustedProxy_def fun_eq_iff cong: option.case_cong)
  then show ?thesis by (simp add: rl_extractIP_client)
qed

text \<open>
  The limiter of a running server is its first one after the operations the requests
  caused, and whoever was not turned away with 429 was admitted by it.
\<close>

lemma served_limiter:
  assumes "served moved s0 tr s" and "sv_limiter s0 = Some l0" and "0 < rl_requests l0"
  shows "\<exists>l outs. rl_run l0 (limited_ops s0 l0 tr) = (l, outs) \<and> sv_limiter s = Some l \<and>
    list_all2 (\<lambda>x ok. status (snd (snd x)) \<noteq> StatusTooManyRequests \<longrightarrow> ok) (filter (to_exchange s0) (answers tr)) outs"
  using assms(1)
proof (induction rule: served.induct)
  case started
  then show ?case using assms(2) by (simp add: limited_ops_def)
next
  case (answered tr s w r s' resp)
  then obtain l outs where run: "rl_run l0 (limited_ops s0 l0 tr) = (l, outs)" and l: "sv_limiter s = Some l"
    and outs: "list_all2 (\<lambda>x ok. status (snd (snd x)) \<noteq> StatusTooManyRequests \<longrightarrow> ok) (filter (to_exchange s0) (answers tr)) outs"
    by blast
  show ?case
  proof (cases "route_of (sv_tracker s0 \<noteq> None) r = ToExchange")
    case False
    with serve_other_frame [OF answered(2)] have "sv_limiter s' = sv_limiter s" by (simp add: exchange_frame_def)
    moreover have "\<not> to_exchange s0 (w, r, resp)" using False by (simp add: to_exchange_def)
    ultimately show ?thesis using run l outs by (simp add: limited_ops_def)
  next
    case True
    have same: "rl_requests l = rl_requests l0" "rl_trusted l = rl_trusted l0"
      using served_same [OF answered(1)] l assms(2) by (simp_all add: same_limits_def)
    have to: "to_exchange s0 (w, r, resp)" using True by (simp add: to_exchange_def)
    obtain l' ok where a: "rl_Allow l (rl_extractIP l0 r) (w_clock w 0) = (l', ok)" by fastforce
    have gate: "limiter_gate w s r = (s\<lparr>sv_limiter := Some l'\<rparr>, ok)"
      using l a same assms(3) by (simp add: limiter_gate_def rl_IsEnabled_def same_trusted_ip [OF same(2)])
    have ch: "exchange_chain w s s r = (s', resp)" using answered(2) True by (simp add: served_exchange [OF answered(1)])
    then have "sv_limiter s' = Some l'"
      using gate handleExchange_limiter [of w "s\<lparr>sv_limiter := Some l'\<rparr>" r, where 'p = AdminPageData]
      by (auto simp: exchange_chain_gates split: if_splits)
    moreover have "status resp \<noteq> StatusTooManyRequests \<longrightarrow> ok"
      using ch gate by (cases ok) (auto simp: exchange_chain_gates)
    moreover have "rl_run l0 (limited_ops s0 l0 (tr @ [Answered w r resp])) = (l', outs @ [ok])"
      using run a to by (simp add: limited_ops_def rl_run_append)
    ultimately show ?thesis using outs to by (simp add: list_all2_appendI)
  qed
next
  case (cleaned tr s t)
  then obtain l outs where "rl_run l0 (limited_ops s0 l0 tr) = (l, outs)" "sv_limiter s = Some l"
    "list_all2 (\<lambda>x ok. status (snd (snd x)) \<noteq> StatusTooManyRequests \<longrightarrow> ok) (filter (to_exchange s0) (answers tr)) outs"
    by blast
  then show ?case by (simp add: limited_ops_def rl_run_append)
qed

section \<open>Counting\<close>

lemma in_span_Cons:
  "in_span (x # log) ip a b = (if fst x = ip \<and> a < snd x \<and> snd x \<le> b then 1 else 0) + in_span log ip a b"
  by (simp add: in_span_def split_def)

lemma admitted_count:
  assumes "list_all2 (\<lambda>x ok. status (snd (snd x)) \<noteq> StatusTooManyRequests \<longrightarrow> ok) (filter (to_exchange s0) (answers tr)) outs"
  shows "length (filter (\<lambda>x. rl_extractIP l (fst (snd x)) = ip \<and> a < w_clock (fst x) 0 \<and> w_clock (fst x) 0 \<le> b \<and>
      status (snd (snd x)) \<noteq> StatusTooManyRequests) (filter (to_exchange s0) (answers tr)))
    \<le> in_span (admissions (limited_ops s0 l tr) outs) ip a b"
  using assms
proof (induction tr arbitrary: outs rule: answers.induct)
  case (2 w r resp hs)
  show ?case
  proof (cases "to_exchange s0 (w, r, resp)")
    case True
    with "2.prems" obtain ok outs' where "outs = ok # outs'" by (auto simp: list_all2_Cons1)
    with "2.prems" "2.IH" [of outs'] True show ?thesis by (cases ok) (auto simp: limited_ops_def in_span_Cons)
  next
    case False
    with "2.prems" "2.IH" [of outs] show ?thesis by (simp add: limited_ops_def)
  qed
next
  case (3 t hs)
  then show ?case by (simp add: limited_ops_def)
qed simp

lemma clock_from_sorted:
  "sorted (map op_time ops) \<Longrightarrow> \<forall>x \<in> set ops. T \<le> op_time x \<Longrightarrow> clock_from T ops"
  by (induction ops arbitrary: T) auto

lemma sorted_clock_from: "sorted (map op_time ops) \<Longrightarrow> \<exists>T. clock_from T ops"
  by (cases ops) (auto intro!: exI [of _ "op_time (hd ops)"] clock_from_sorted)

section \<open>Properties\<close>


text \<open>One request a minute, and the same client twice.\<close>

definition demo_limited :: serve_world where
  "demo_limited = (demo_serve [])\<lparr>se_yaml := (\<lambda>d. Some (empty_FileConfig\<lparr>f_IssuerURL := ''https://idp'',
     f_ClientID := ''talos'', f_Endpoints := [''10.0.0.1''], f_RateLimitRequests := 1, f_RBAC := demo_rules\<rparr>))\<rparr>"

lemma demo_limited_resolve:
  "resolve (se_env demo_limited) (se_read demo_limited) (se_yaml demo_limited) ''c'' =
     Inr ((demo_resolved [])\<lparr>rc_RateLimitRequests := 1\<rparr>, 5 * minute)"
proof -
  have rules: "demo_rules \<noteq> []" by (simp add: demo_rules_def)
  have "Load (se_env demo_limited) (se_read demo_limited) (se_yaml demo_limited) ''c'' =
      Inr ((demo_resolved [])\<lparr>rc_RateLimitRequests := 1, rc_Listen := []\<rparr>)"
    by (simp add: Load_def LoadFile_def demo_limited_def demo_serve_def demo_resolved_def empty_FileConfig_def
        envOrDefault_def envListOr_def Let_def)
  with rules show ?thesis
    by (simp add: resolve_def ApplyDefaults_def Validate_def missing_fields_def LoadClientSecret_def ParseCertTTL_def
        demo_resolved_def Let_def)
qed

lemma demo_limiter:
  "configured_limiter ((demo_resolved [])\<lparr>rc_RateLimitRequests := 1\<rparr>) = Some (rl_New 1 minute [])"
  by (simp add: configured_limiter_def demo_resolved_def)

lemma demo_limited_setup: "\<exists>issuer s0. serve_setup demo_limited ''c'' = Inr (issuer, s0)"
  using demo_limited_resolve
  by (simp add: serve_setup_def NewLogger_def configured_allowlist_def demo_resolved_def Let_def)


end
