(* ===== verification/Grants.thy ===== *)
theory Grants
  imports RunLimits
begin

text \<open>
  One exchange through all parts of the server: who gets a certificate, with which roles,
  what the answer says and what is recorded, for a single request and over the runs of a
  server set up from its configuration.
\<close>

section \<open>Who gets a certificate\<close>

lemma provider_keys_frame:
  "sv_cache s = sv_cache s' \<Longrightarrow> sv_cfg s = sv_cfg s' \<Longrightarrow> provider_keys w s jwks = provider_keys w s' jwks"
  by (simp add: provider_keys_def)

text \<open>
  C3. The issuer is asked for a certificate only for a request that went through the rate
  limiter and the allowlist, is a POST of at most 64 KiB, and carries a token that the
  provider's keys validate for the configured issuer and audience at that time; the one
  certificate asked for has the configured lifetime and exactly the roles, at least one,
  that the configuration gives to the claims of that token.
\<close>

theorem issuer_asked_only_for_authorised:
  assumes "(exchange_chain w s s r :: server \<times> 'p response) = (s', resp)"
    and "sv_issue_calls s' \<noteq> sv_issue_calls s"
  shows "\<exists>b tok jwks tc.
    snd (limiter_gate w s r) \<and> allowlist_gate (sv_cfg s) r \<and> Method r = ''POST'' \<and>
    Body r = Some b \<and> length b \<le> 64 * 1024 \<and> w_request_json w b = Some tok \<and>
    provider_keys w s jwks \<and>
    ValidateIDToken (w_crypto w) (Unix (w_clock w 5)) tok jwks (sc_IssuerURL (sv_cfg s))
      (sc_ClientID (sv_cfg s)) (sc_ClientSecret (sv_cfg s)) [] = Inr (tc_Claims tc) \<and>
    roles_for w (sv_cfg s) tc \<noteq> [] \<and>
    sv_issue_calls s' = sv_issue_calls s @ [(roles_for w (sv_cfg s) tc, sc_CertTTL (sv_cfg s))]"
proof -
  obtain s1 ok where gate: "limiter_gate w s r = (s1, ok)" by fastforce
  note frame = limiter_gate_frame [OF gate]
  have ok: "ok" "allowlist_gate (sv_cfg s) r" and h: "(handleExchange w s1 r :: server \<times> 'p response) = (s', resp)"
    using assms gate frame(7) by (auto simp: exchange_chain_gates split: if_splits)
  have "sv_issue_calls (fst (handleExchange w s1 r :: server \<times> 'p response)) \<noteq> sv_issue_calls s1"
    using assms(2) h frame(7) by simp
  then obtain tok s2 tc where call: "Method r = ''POST''" "read_token w r = (Inr tok :: 'p response + string)"
    "validateToken w tok (note_token_use w tok s1) = (s2, Inr tc)" "roles_for w (sv_cfg s1) tc \<noteq> []"
    "sv_issue_calls (fst (handleExchange w s1 r :: server \<times> 'p response)) =
       sv_issue_calls s1 @ [(roles_for w (sv_cfg s1) tc, sc_CertTTL (sv_cfg s1))]"
    by (rule handleExchange_calls)
  from call(3) obtain jwks where val: "provider_keys w (note_token_use w tok s1) jwks"
    "ValidateIDToken (w_crypto w) (Unix (w_clock w 5)) tok jwks (sc_IssuerURL (sv_cfg (note_token_use w tok s1)))
      (sc_ClientID (sv_cfg (note_token_use w tok s1))) (sc_ClientSecret (sv_cfg (note_token_use w tok s1))) []
      = Inr (tc_Claims tc)"
    by (rule validateToken_Inr)
  have keys: "provider_keys w s jwks"
    using val(1) provider_keys_frame [of "note_token_use w tok s1" s w jwks] frame by (simp add: frame_simps)
  obtain b where "Body r = Some b" "length b \<le> 64 * 1024" "w_request_json w b = Some tok"
    using call(2) by (auto simp: read_token_Inr)
  then show ?thesis
    using ok gate call val(2) keys frame h
    by (intro exI [of _ b] exI [of _ tok] exI [of _ jwks] exI [of _ tc]) (simp add: frame_simps)
qed

text \<open>
  C23. The answer of the endpoint holds a certificate exactly when the issuer was asked and
  gave one, and then it is that certificate; every other answer is an error of the class
  its cause has.
\<close>

theorem certificate_in_answer:
  assumes "(exchange_chain w s s r :: server \<times> 'p response) = (s', resp)"
  shows "if \<exists>roles ttl cert. sv_issue_calls s' = sv_issue_calls s @ [(roles, ttl)] \<and> w_issue w roles ttl = Inr cert
    then \<exists>roles cert. sv_issue_calls s' = sv_issue_calls s @ [(roles, sc_CertTTL (sv_cfg s))] \<and>
      w_issue w roles (sc_CertTTL (sv_cfg s)) = Inr cert \<and> resp = writeJSON (cert_response (sv_cfg s) cert)
    else status resp \<in> {StatusBadRequest, StatusUnauthorized, StatusForbidden, StatusMethodNotAllowed,
      StatusRequestEntityTooLarge, StatusTooManyRequests, StatusInternalServerError}"
proof -
  obtain s1 ok where gate: "limiter_gate w s r = (s1, ok)" by fastforce
  note frame = limiter_gate_frame [OF gate]
  show ?thesis
  proof (cases "ok \<and> allowlist_gate (sv_cfg s) r")
    case False
    with assms gate frame(7) show ?thesis by (auto simp: exchange_chain_gates split: if_splits)
  next
    case True
    with assms gate have h: "(handleExchange w s1 r :: server \<times> 'p response) = (s', resp)"
      by (simp add: exchange_chain_gates)
    show ?thesis
    proof (cases rule: handleExchange_cases [where 'p = 'p, of w s1 r])
      case refused
      with h frame(7) show ?thesis by auto
    next
      case (invalid tok s2 e)
      with h frame(7) validateToken_frame [OF invalid(3)] show ?thesis
        by (auto simp: frame_simps writeError_def)
    next
      case (valid tok s2 tc)
      let ?s3 = "auditLog w (w_clock w 6)
        ((exchange_event EventAuthSuccess (NewRequestID (w_rand w)) ''success'' ''INFO'' (RemoteAddr r))
          \<lparr>Subject := tc_Subject tc, Email := tc_Email tc, Issuer := tc_Issuer tc\<rparr>) s2"
      let ?i = "issue_certificate w (NewRequestID (w_rand w)) (RemoteAddr r) tc ?s3 :: server \<times> 'p response"
      have s3: "sv_cfg ?s3 = sv_cfg s" "sv_issue_calls ?s3 = sv_issue_calls s"
        using validateToken_frame [OF valid(3)] frame by (simp_all add: frame_simps)
      have i: "s' = fst ?i" "resp = snd ?i" using h valid(4) by simp_all
      show ?thesis
        unfolding i issue_certificate_calls issue_certificate_answer s3
        by (auto simp: writeError_def split: sum.split)
    qed
  qed
qed

lemma exchange_serves:
  assumes "snd (limiter_gate w s r)" and "allowlist_gate (sv_cfg s) r" and "Method r = ''POST''"
    and "Body r = Some b" and "length b \<le> 64 * 1024" and "w_request_json w b = Some tok" and "tok \<noteq> []"
    and "keys_at_hand w s jwks"
    and "ValidateIDToken (w_crypto w) (Unix (w_clock w 5)) tok jwks (sc_IssuerURL (sv_cfg s))
      (sc_ClientID (sv_cfg s)) (sc_ClientSecret (sv_cfg s)) [] = Inr claims"
    and "roles_for w (sv_cfg s) (token_identity claims) = role # roles"
    and "w_issue w (role # roles) (sc_CertTTL (sv_cfg s)) = Inr cert"
  shows "\<exists>s'. (exchange_chain w s s r :: server \<times> 'p response) =
      (s', writeJSON (cert_response (sv_cfg s) cert)) \<and>
    sv_issue_calls s' = sv_issue_calls s @ [(role # roles, sc_CertTTL (sv_cfg s))]"
proof -
  obtain s1 where gate: "limiter_gate w s r = (s1, True)" using assms(1) by (metis prod.collapse)
  note frame = limiter_gate_frame [OF gate]
  let ?s1 = "note_token_use w tok s1"
  have same: "sv_cfg ?s1 = sv_cfg s" "sv_cache ?s1 = sv_cache s" using frame by (simp_all add: frame_simps)
  have keys: "keys_at_hand w ?s1 jwks"
    using assms(8) same by (simp add: keys_at_hand_def cong: option.case_cong)
  obtain s2 where val: "validateToken w tok ?s1 = (s2, Inr (token_identity claims))"
    using validateToken_accepts [OF keys] assms(9) same by auto
  have read: "read_token w r = (Inr tok :: 'p response + string)"
    using assms(4-7) by (simp add: read_token_Inr)
  let ?s3 = "auditLog w (w_clock w 6)
    ((exchange_event EventAuthSuccess (NewRequestID (w_rand w)) ''success'' ''INFO'' (RemoteAddr r))
      \<lparr>Subject := tc_Subject (token_identity claims), Email := tc_Email (token_identity claims),
       Issuer := tc_Issuer (token_identity claims)\<rparr>) s2"
  let ?i = "issue_certificate w (NewRequestID (w_rand w)) (RemoteAddr r) (token_identity claims) ?s3
    :: server \<times> 'p response"
  have h: "(exchange_chain w s s r :: server \<times> 'p response) = ?i"
    using gate assms(2,3) read val by (simp add: exchange_chain_gates handleExchange_def Let_def)
  have s3: "sv_cfg ?s3 = sv_cfg s" "sv_issue_calls ?s3 = sv_issue_calls s"
    using validateToken_frame [OF val] frame by (simp_all add: frame_simps)
  have "snd ?i = writeJSON (cert_response (sv_cfg s) cert)"
    "sv_issue_calls (fst ?i) = sv_issue_calls s @ [(role # roles, sc_CertTTL (sv_cfg s))]"
    using assms(10,11) by (simp_all add: issue_certificate_answer issue_certificate_calls s3)
  then show ?thesis unfolding h by (metis prod.collapse)
qed

text \<open>A request that passes the gates with a token that is valid and earns these roles.\<close>

definition earns :: "world \<Rightarrow> server \<Rightarrow> request \<Rightarrow> string \<Rightarrow> string list \<Rightarrow> bool" where
  "earns w s r tok roles \<longleftrightarrow>
     Method r = ''POST'' \<and> (\<exists>b. Body r = Some b \<and> length b \<le> 64 * 1024 \<and> w_request_json w b = Some tok) \<and> tok \<noteq> [] \<and>
     snd (limiter_gate w s r) \<and> allowlist_gate (sv_cfg s) r \<and> roles \<noteq> [] \<and>
     (\<exists>jwks claims. keys_at_hand w s jwks \<and>
        ValidateIDToken (w_crypto w) (Unix (w_clock w 5)) tok jwks (sc_IssuerURL (sv_cfg s)) (sc_ClientID (sv_cfg s))
          (sc_ClientSecret (sv_cfg s)) [] = Inr claims \<and>
        roles_for w (sv_cfg s) (token_identity claims) = roles)"

lemma earns_served:
  assumes "earns w s r tok roles" and "w_issue w roles (sc_CertTTL (sv_cfg s)) = Inr cert"
  obtains s' where "(exchange_chain w s s r :: server \<times> 'p response) = (s', writeJSON (cert_response (sv_cfg s) cert))"
    "sv_issue_calls s' = sv_issue_calls s @ [(roles, sc_CertTTL (sv_cfg s))]"
proof -
  obtain b jwks claims role roles' where e: "Method r = ''POST''" "Body r = Some b" "length b \<le> 64 * 1024"
    "w_request_json w b = Some tok" "tok \<noteq> []" "snd (limiter_gate w s r)" "allowlist_gate (sv_cfg s) r"
    "keys_at_hand w s jwks"
    "ValidateIDToken (w_crypto w) (Unix (w_clock w 5)) tok jwks (sc_IssuerURL (sv_cfg s)) (sc_ClientID (sv_cfg s))
      (sc_ClientSecret (sv_cfg s)) [] = Inr claims"
    "roles_for w (sv_cfg s) (token_identity claims) = role # roles'" "roles = role # roles'"
    using assms(1) unfolding earns_def by (metis neq_Nil_conv)
  from exchange_serves [OF e(6,7,1-5,8-10), of cert, where 'p = 'p] assms(2) e(11) that show thesis by auto
qed

text \<open>
  C6. Whoever is entitled to a certificate gets it: when the gates are open, the keys are
  at hand, the token is valid, its claims earn at least one role and the issuer signs, the
  answer is the certificate issued for those roles and nothing else was asked of the issuer.
\<close>

theorem authorised_gets_certificate:
  assumes "snd (limiter_gate w s r)" and "allowlist_gate (sv_cfg s) r" and "Method r = ''POST''"
    and "Body r = Some b" and "length b \<le> 64 * 1024" and "w_request_json w b = Some tok" and "tok \<noteq> []"
    and "keys_at_hand w s jwks"
    and "ValidateIDToken (w_crypto w) (Unix (w_clock w 5)) tok jwks (sc_IssuerURL (sv_cfg s))
      (sc_ClientID (sv_cfg s)) (sc_ClientSecret (sv_cfg s)) [] = Inr claims"
    and "roles_for w (sv_cfg s) (token_identity claims) = role # roles"
    and "w_issue w (role # roles) (sc_CertTTL (sv_cfg s)) = Inr cert"
  shows "\<exists>s'. (exchange_chain w s s r :: server \<times> 'p response) =
      (s', writeJSON (cert_response (sv_cfg s) cert)) \<and>
    sv_issue_calls s' = sv_issue_calls s @ [(role # roles, sc_CertTTL (sv_cfg s))]"
  using assms by (rule exchange_serves)

section \<open>A concrete exchange\<close>

lemma demo_entitled:
  "snd (limiter_gate demo_world demo_server demo_post)"
  "allowlist_gate (sv_cfg demo_server) demo_post"
  "Method demo_post = ''POST''" "Body demo_post = Some ''B''" "length ''B'' \<le> 64 * 1024"
  "w_request_json demo_world ''B'' = Some demo_token" "demo_token \<noteq> []"
  "keys_at_hand demo_world demo_server [demo_key]"
  "ValidateIDToken (w_crypto demo_world) (Unix (w_clock demo_world 5)) demo_token [demo_key]
     (sc_IssuerURL (sv_cfg demo_server)) (sc_ClientID (sv_cfg demo_server)) (sc_ClientSecret (sv_cfg demo_server)) []
   = Inr demo_claims_map"
  "roles_for demo_world (sv_cfg demo_server) (token_identity demo_claims_map) = ''os:operator'' # [''os:reader'']"
  "w_issue demo_world (''os:operator'' # [''os:reader'']) (sc_CertTTL (sv_cfg demo_server)) = Inr demo_cert"
proof -
  show "snd (limiter_gate demo_world demo_server demo_post)"
    by (simp add: limiter_gate_def demo_server_def rl_Allow_def rl_lookup_def rl_count_def rl_New_def Let_def)
  show "keys_at_hand demo_world demo_server [demo_key]"
    by (simp add: keys_at_hand_def demo_server_def demo_world_def demo_config_def Discover_def
        FetchJWKS_def well_known_def trim_suffix_def demo_provider_def)
  show "demo_token \<noteq> []" by (simp add: demo_token_def mint_def)
  have "Unix (600 * second) = 600" by (simp add: Unix_def second_def)
  then show "ValidateIDToken (w_crypto demo_world) (Unix (w_clock demo_world 5)) demo_token [demo_key]
     (sc_IssuerURL (sv_cfg demo_server)) (sc_ClientID (sv_cfg demo_server)) (sc_ClientSecret (sv_cfg demo_server)) []
   = Inr demo_claims_map"
    using demo_accepted by (simp add: demo_world_def demo_server_def demo_config_def)
  show "roles_for demo_world (sv_cfg demo_server) (token_identity demo_claims_map) = ''os:operator'' # [''os:reader'']"
    by (simp add: roles_for_def demo_server_def demo_config_def demo_world_def token_identity_def HasRules_def
        NewMapper_def demo_rules_def MapRoles_def decoded_def demo_claims_map_def demo_crypto_def)
qed (simp_all add: allowlist_gate_def demo_server_def demo_config_def demo_post_def demo_request_def demo_world_def)

theorem authorised_gets_certificate_witness:
  "\<exists>s'. (exchange_chain demo_world demo_server demo_server demo_post :: server \<times> unit response) =
      (s', writeJSON (cert_response (sv_cfg demo_server) demo_cert)) \<and>
    sv_issue_calls s' = [([''os:operator'', ''os:reader''], 5 * minute)]"
  using authorised_gets_certificate [OF demo_entitled, where 'p = unit]
  by (simp add: demo_server_def demo_config_def)

lemma demo_handled:
  assumes "sv_cfg s = demo_config" and "sv_cache s = None"
  shows "snd (handleExchange demo_world s demo_post :: server \<times> 'p response) =
      writeJSON (cert_response demo_config demo_cert)"
    and "sv_issue_calls (fst (handleExchange demo_world s demo_post :: server \<times> 'p response)) =
      sv_issue_calls s @ [([''os:operator'', ''os:reader''], 5 * minute)]"
proof -
  let ?s = "note_token_use demo_world demo_token s"
  have server: "sv_cfg demo_server = demo_config" "sc_CertTTL demo_config = 5 * minute" "sv_cache demo_server = None"
    by (simp_all add: demo_server_def demo_config_def)
  have "keys_at_hand demo_world ?s [demo_key]"
    using demo_entitled(8) assms server by (simp add: keys_at_hand_def frame_simps)
  from validateToken_accepts [OF this] obtain s2
    where val: "validateToken demo_world demo_token ?s = (s2, Inr (token_identity demo_claims_map))"
    using demo_entitled(9) assms server by (auto simp: frame_simps)
  have read: "read_token demo_world demo_post = (Inr demo_token :: 'p response + string)"
    using demo_entitled(4-7) by (simp add: read_token_Inr)
  have roles: "roles_for demo_world demo_config (token_identity demo_claims_map) = [''os:operator'', ''os:reader'']"
    using demo_entitled(10) server by simp
  show "snd (handleExchange demo_world s demo_post :: server \<times> 'p response) =
      writeJSON (cert_response demo_config demo_cert)"
    and "sv_issue_calls (fst (handleExchange demo_world s demo_post :: server \<times> 'p response)) =
      sv_issue_calls s @ [([''os:operator'', ''os:reader''], 5 * minute)]"
    using demo_entitled(3,11) read val roles server validateToken_frame [OF val] assms
    by (simp_all add: handleExchange_def Let_def issue_certificate_answer issue_certificate_calls frame_simps)
qed

lemma demo_exchange:
  obtains s' where "(exchange_chain demo_world demo_server demo_server demo_post :: server \<times> unit response) =
      (s', writeJSON (cert_response demo_config demo_cert))"
    and "sv_issue_calls s' = sv_issue_calls demo_server @ [([''os:operator'', ''os:reader''], 5 * minute)]"
proof -
  obtain s1 where gate: "limiter_gate demo_world demo_server demo_post = (s1, True)"
    using demo_entitled(1) by (metis prod.collapse)
  have "sv_cfg s1 = demo_config" "sv_cache s1 = None" "sv_issue_calls s1 = sv_issue_calls demo_server"
    using limiter_gate_frame [OF gate] by (simp_all add: demo_server_def)
  note handled = demo_handled [OF this(1,2), where 'p = unit]
  have "(exchange_chain demo_world demo_server demo_server demo_post :: server \<times> unit response) =
      handleExchange demo_world s1 demo_post"
    using gate demo_entitled(2) by (simp add: exchange_chain_gates)
  with handled \<open>sv_issue_calls s1 = sv_issue_calls demo_server\<close> show thesis
    by (intro that [of "fst (handleExchange demo_world s1 demo_post :: server \<times> unit response)"])
      (metis prod.collapse, simp)
qed

theorem issuer_asked_only_for_authorised_witness:
  "\<exists>tok jwks tc. provider_keys demo_world demo_server jwks \<and>
     ValidateIDToken demo_crypto 600 tok jwks ''https://idp'' ''talos'' [] [] = Inr (tc_Claims tc) \<and>
     roles_for demo_world demo_config tc \<noteq> []"
proof -
  obtain s' where x: "(exchange_chain demo_world demo_server demo_server demo_post :: server \<times> unit response) =
      (s', writeJSON (cert_response demo_config demo_cert))"
    "sv_issue_calls s' = sv_issue_calls demo_server @ [([''os:operator'', ''os:reader''], 5 * minute)]"
    by (rule demo_exchange)
  have cfg: "sv_cfg demo_server = demo_config" "w_crypto demo_world = demo_crypto"
    "Unix (w_clock demo_world 5) = 600" "sc_IssuerURL demo_config = ''https://idp''"
    "sc_ClientID demo_config = ''talos''" "sc_ClientSecret demo_config = []"
    by (simp_all add: demo_server_def demo_world_def demo_config_def Unix_def second_def)
  from issuer_asked_only_for_authorised [OF x(1)] x(2) show ?thesis unfolding cfg by auto
qed

theorem certificate_in_answer_witness:
  "\<exists>s'. (exchange_chain demo_world demo_server demo_server demo_post :: server \<times> unit response) =
     (s', writeJSON (cert_response demo_config demo_cert))"
proof -
  obtain s' where x: "(exchange_chain demo_world demo_server demo_server demo_post :: server \<times> unit response) =
      (s', writeJSON (cert_response demo_config demo_cert))"
    "sv_issue_calls s' = sv_issue_calls demo_server @ [([''os:operator'', ''os:reader''], 5 * minute)]"
    by (rule demo_exchange)
  have "\<exists>roles ttl cert. sv_issue_calls s' = sv_issue_calls demo_server @ [(roles, ttl)] \<and>
      w_issue demo_world roles ttl = Inr cert"
    using x(2) by (auto simp: demo_world_def)
  with certificate_in_answer [OF x(1)] x(1) show ?thesis by blast
qed

section \<open>What is recorded\<close>

text \<open>The listeners of \<^verbatim>\<open>serve\<close> on a server that has a tracker.\<close>

definition tracked :: "(CertRecord \<Rightarrow> string option) \<Rightarrow> world \<Rightarrow> server \<Rightarrow> tracker \<Rightarrow> bool" where
  "tracked marshal w s t \<longleftrightarrow>
     sv_tracker s = Some t \<and> (\<forall>ev. w_marshal w ev \<noteq> None) \<and>
     (\<exists>l. sv_logger s = Some l \<and>
        (lg_listeners l = [tracker_listener] \<or> lg_listeners l = [tracker_listener, certlog_listener marshal]))"

lemma auditLog_tracked:
  assumes "tracked m w s t"
  shows "tracked m w (auditLog w now ev s) (tr_handleEvent (stamped (now, ev)) t)"
proof -
  obtain l where l: "sv_logger s = Some l"
    "lg_listeners l = [tracker_listener] \<or> lg_listeners l = [tracker_listener, certlog_listener m]"
    using assms by (auto simp: tracked_def)
  obtain data where "w_marshal w (stamped (now, ev)) = Some data"
    using assms by (auto simp: tracked_def)
  with l assms show ?thesis
    by (auto simp: tracked_def auditLog_def Log_stamped tracker_listener_def certlog_listener_def)
qed

lemma tracked_frame:
  "tracked m w s t \<Longrightarrow> sv_logger s' = sv_logger s \<Longrightarrow> sv_tracker s' = sv_tracker s \<Longrightarrow> tracked m w s' t"
  by (simp add: tracked_def)

lemma stamped_type [simp]: "EType (stamped p) = EType (snd p)"
  by (simp add: stamped_def)

lemma exchange_event_type [simp]: "EType (exchange_event ty a b c d) = ty"
  by (simp add: exchange_event_def blank_event_def)

lemma issue_certificate_tracked:
  assumes "tracked m w s t"
  shows "\<exists>t'. tracked m w (fst (issue_certificate w rid ip tc s :: server \<times> 'p response)) t' \<and>
    tr_issued t' = tr_issued t +
      (if status (snd (issue_certificate w rid ip tc s :: server \<times> 'p response)) = StatusOK then 1 else 0) \<and>
    tr_success t' = tr_success t \<and> tr_failure t' = tr_failure t \<and>
    status (snd (issue_certificate w rid ip tc s :: server \<times> 'p response)) \<in>
      {StatusOK, StatusForbidden, StatusInternalServerError}"
proof -
  let ?roles = "roles_for w (sv_cfg s) tc"
  let ?s1 = "s\<lparr>sv_issue_calls := sv_issue_calls s @ [(?roles, sc_CertTTL (sv_cfg s))]\<rparr>"
  have t1: "tracked m w ?s1 t" using assms by (rule tracked_frame) simp_all
  note step = auditLog_tracked [OF t1]
  consider "?roles = []" | "?roles \<noteq> []" "\<exists>err. w_issue w ?roles (sc_CertTTL (sv_cfg s)) = Inl err"
    | "?roles \<noteq> []" "\<exists>cert. w_issue w ?roles (sc_CertTTL (sv_cfg s)) = Inr cert"
    by (cases "w_issue w ?roles (sc_CertTTL (sv_cfg s))") auto
  then show ?thesis
  proof cases
    case 1
    with assms show ?thesis by (auto simp: issue_certificate_def writeError_def)
  next
    case 2
    then obtain err where "w_issue w ?roles (sc_CertTTL (sv_cfg s)) = Inl err" by blast
    with 2 show ?thesis
      by (simp add: issue_certificate_def writeError_def Let_def)
        (rule exI, rule conjI, rule step, simp add: tr_handleEvent_def)
  next
    case 3
    then obtain cert where "w_issue w ?roles (sc_CertTTL (sv_cfg s)) = Inr cert" by blast
    with 3 show ?thesis
      by (simp add: issue_certificate_def writeJSON_def Let_def)
        (rule exI, rule conjI, rule step, simp add: tr_handleEvent_def)
  qed
qed


definition demo_tracked :: server where
  "demo_tracked = demo_server\<lparr>sv_tracker := Some (NewTracker 0),
     sv_logger := Some \<lparr>lg_dest = Stdout, lg_lines = [],
       lg_listeners = [tracker_listener, certlog_listener (\<lambda>r. None)]\<rparr>\<rparr>"


section \<open>A server set up from its configuration\<close>

text \<open>
  C8. A server never grants more than its configuration names: in any run of a server set
  up from a configuration, every certificate it asked the issuer for has the configured
  lifetime and at least one role, all of its roles are among those of the rules and the
  defaults, without rules they are the static roles, and there was a POST for each.
\<close>

theorem run_grants_configured_roles:
  assumes "serve_setup sw configFile = Inr (issuer, s0)"
    and "resolve (se_env sw) (se_read sw) (se_yaml sw) configFile = Inr (rc, ttl)"
    and "served moved s0 tr s" and "\<forall>(w, r, resp) \<in> set (answers tr). permutes_keys (w_role_order w)"
  shows "(\<forall>x \<in> set (sv_issue_calls s). as_configured rc ttl x) \<and>
    length (sv_issue_calls s) \<le> length (filter (\<lambda>(w, r, resp). Method r = ''POST'') (answers tr))"
  using assms(3,4)
proof (induction rule: served.induct)
  case started
  show ?case using assms(1) by (rule serve_setup_Inr) (simp add: New_server_def)
next
  case (answered tr s w r s' resp)
  obtain al lg c where "s0 = New_server (server_of rc ttl al) (configured_limiter rc) lg (NewTracker (se_now sw)) c"
    using assms(1,2) by (elim serve_setup_Inr) auto
  then have cfg: "sv_cfg s = server_of rc ttl al" "sc_CertTTL (server_of rc ttl al) = ttl"
    using served_same [OF answered(1)] by (simp_all add: New_server_def server_of_def)
  have order: "permutes_keys (w_role_order w)" using answered.prems by simp
  have IH: "(\<forall>x \<in> set (sv_issue_calls s). as_configured rc ttl x) \<and>
    length (sv_issue_calls s) \<le> length (filter (\<lambda>(w, r, resp). Method r = ''POST'') (answers tr))"
    using answered.prems by (intro answered.IH) simp
  have "sv_issue_calls s' = sv_issue_calls s \<or>
    (Method r = ''POST'' \<and> (\<exists>tc. roles_for w (sv_cfg s) tc \<noteq> [] \<and>
      sv_issue_calls s' = sv_issue_calls s @ [(roles_for w (sv_cfg s) tc, sc_CertTTL (sv_cfg s))]))"
  proof (cases "route_of (sv_tracker s0 \<noteq> None) r = ToExchange")
    case True
    with answered(2) have "exchange_chain w s s r = (s', resp)" by (simp add: served_exchange [OF answered(1)])
    then show ?thesis by (rule exchange_chain_calls)
  next
    case False
    with serve_other_frame [OF answered(2)] show ?thesis by (simp add: exchange_frame_def)
  qed
  with IH roles_for_configured [OF order, of rc ttl al] show ?case by (auto simp: cfg)
qed simp

lemma demo_configured: "server_of (demo_resolved []) (5 * minute) None = demo_config"
  by (simp add: server_of_def demo_resolved_def demo_config_def configured_mapper_def demo_rules_def)

lemma demo_started:
  obtains lg where "serve_setup (demo_serve []) ''c'' =
    Inr (NewIssuer [] [''10.0.0.1''], New_server demo_config None lg (NewTracker 0) None)"
proof -
  have "configured_allowlist (demo_resolved []) = Inr None" by (simp add: configured_allowlist_def demo_resolved_def)
  from demo_serve_setup [OF this] that show thesis by (auto simp: demo_configured)
qed

lemma demo_new_server:
  "sv_cfg (New_server demo_config None lg (NewTracker 0) None) = demo_config"
  "sv_cache (New_server demo_config None lg (NewTracker 0) None) = None"
  "sv_limiter (New_server demo_config None lg (NewTracker 0) None) = None"
  "sv_tracker (New_server demo_config None lg (NewTracker 0) None) \<noteq> None"
  "sv_issue_calls (New_server demo_config None lg (NewTracker 0) None) = []"
  "allowlist_gate demo_config r"
  by (simp_all add: New_server_def allowlist_gate_def demo_config_def)

lemma demo_served:
  fixes lg :: "(tracker option \<times> certlog option) logger"
  defines "s0 \<equiv> New_server demo_config None lg (NewTracker 0) None"
  shows "serve demo_moved s0 demo_world s0 demo_post = handleExchange demo_world s0 demo_post"
proof -
  have "route_of (sv_tracker s0 \<noteq> None) demo_post = ToExchange"
    using demo_exchange_route by (simp add: s0_def demo_new_server)
  then show ?thesis
    by (simp add: served_exchange [OF served.started] exchange_chain_gates limiter_gate_def demo_new_server s0_def)
qed

theorem run_grants_configured_roles_witness:
  "\<exists>issuer s0 tr s. serve_setup (demo_serve []) ''c'' = Inr (issuer, s0) \<and> served demo_moved s0 tr s \<and>
     sv_issue_calls s = [([''os:operator'', ''os:reader''], 5 * minute)] \<and>
     as_configured (demo_resolved []) (5 * minute) ([''os:operator'', ''os:reader''], 5 * minute)"
proof -
  obtain lg where st: "serve_setup (demo_serve []) ''c'' =
    Inr (NewIssuer [] [''10.0.0.1''], New_server demo_config None lg (NewTracker 0) None)" by (rule demo_started)
  define s0 where "s0 = New_server demo_config None lg (NewTracker 0) None"
  obtain s resp where answer: "serve demo_moved s0 demo_world s0 demo_post = (s, resp)" by fastforce
  have run: "served demo_moved s0 ([] @ [Answered demo_world demo_post resp]) s"
    by (rule served.answered [OF served.started answer])
  have calls: "sv_issue_calls s = [([''os:operator'', ''os:reader''], 5 * minute)]"
    using answer demo_served [of lg] demo_handled(2) [of s0, where 'p = AdminPageData] by (simp add: s0_def demo_new_server)
  have "\<forall>(w, r, resp) \<in> set (answers ([] @ [Answered demo_world demo_post resp])). permutes_keys (w_role_order w)"
    using permutes_id(1) by (simp add: demo_world_def)
  from run_grants_configured_roles [OF st [folded s0_def] demo_serve_resolve run this] calls
  have "as_configured (demo_resolved []) (5 * minute) ([''os:operator'', ''os:reader''], 5 * minute)" by simp
  with st run calls show ?thesis unfolding s0_def by blast
qed

end
