(* ===== verification/MockTalos.thy ===== *)
theory MockTalos
  imports Serve "HOL-Library.Multiset"
begin

text \<open>
  \<^verbatim>\<open>internal/mocktalos\<close> and \<^verbatim>\<open>hack/mock-talos-api\<close>: the Talos node the integration test runs
  against, with its own authority. It is the one implementation of the issuer's parameter
  \<^verbatim>\<open>GenerateClientConfiguration\<close> whose source is in the repository. Keys, X.509 and PEM are the
  parameters of \<open>SelfSigned\<close>; a key pair is one string, used as either half.
\<close>

section \<open>The authority and what it signs\<close>

record mock_server =
  mk_caCert :: template
  mk_caKey :: string
  mk_caPEM :: string
  mk_tlsCert :: tls_cert
  mk_clientCrt :: string
  mk_clientKey :: string

datatype mock_error = MockKey | MockSerial | MockCreate | MockParse | MockMarshal | MockPair

definition one_day :: duration where "one_day = 24 * hour"

definition mock_ca_template :: "pki \<Rightarrow> template" where
  "mock_ca_template k =
     \<lparr>tp_Serial = 1, tp_CommonName = [], tp_Organization = [''talos''],
      tp_NotBefore = pk_clock k 0 - hour, tp_NotAfter = pk_clock k 1 + one_day,
      tp_KeyUsage = [CertSign, CRLSign], tp_ExtKeyUsage = [], tp_IsCA = True, tp_DNSNames = [], tp_IPAddresses = []\<rparr>"

definition genCA :: "pki \<Rightarrow> mock_error + template \<times> string \<times> string" where
  "genCA k =
     try_or MockKey (pk_key k 0) (\<lambda>priv.
     try_or MockCreate (pk_create k (mock_ca_template k) (mock_ca_template k) priv priv) (\<lambda>der.
     try_or MockParse (pk_parse k der) (\<lambda>caCert.
     Inr (caCert, priv, pk_pem k ''CERTIFICATE'' der))))"

text \<open>
  \<^verbatim>\<open>issue\<close> with the \<open>n\<close>-th key and serial drawn, under an authority's certificate and key; it
  fills in the serial of the template.
\<close>

definition mock_issue :: "pki \<Rightarrow> nat \<Rightarrow> template \<Rightarrow> string \<Rightarrow> template \<Rightarrow> mock_error + string \<times> string" where
  "mock_issue k n caCert authKey tmpl =
     try_or MockKey (pk_key k n) (\<lambda>priv.
     try_or MockSerial (pk_serial k n) (\<lambda>serial.
     try_or MockCreate (pk_create k (tmpl\<lparr>tp_Serial := serial\<rparr>) caCert priv authKey) (\<lambda>der.
     try_or MockMarshal (pk_marshal k priv) (\<lambda>keyDER.
     Inr (pk_pem k ''CERTIFICATE'' der, pk_pem k ''PRIVATE KEY'' keyDER)))))"

definition mock_server_template :: "pki \<Rightarrow> template" where
  "mock_server_template k =
     \<lparr>tp_Serial = 0, tp_CommonName = ''mock-talos-api'', tp_Organization = [],
      tp_NotBefore = pk_clock k 2 - hour, tp_NotAfter = pk_clock k 3 + one_day,
      tp_KeyUsage = [DigitalSignature], tp_ExtKeyUsage = [ServerAuth], tp_IsCA = False,
      tp_DNSNames = [''localhost''], tp_IPAddresses = map the [ParseIP ''127.0.0.1'']\<rparr>"

definition mock_client_template :: "string list \<Rightarrow> time \<Rightarrow> time \<Rightarrow> template" where
  "mock_client_template roles notBefore notAfter =
     \<lparr>tp_Serial = 0, tp_CommonName = [], tp_Organization = roles, tp_NotBefore = notBefore, tp_NotAfter = notAfter,
      tp_KeyUsage = [DigitalSignature], tp_ExtKeyUsage = [ClientAuth], tp_IsCA = False, tp_DNSNames = [],
      tp_IPAddresses = []\<rparr>"

definition mock_New :: "pki \<Rightarrow> mock_error + mock_server" where
  "mock_New k =
     (case genCA k of
        Inl e \<Rightarrow> Inl e
      | Inr (caCert, authKey, caPEM) \<Rightarrow>
          (case mock_issue k 1 caCert authKey (mock_server_template k) of
             Inl e \<Rightarrow> Inl e
           | Inr (serverCrt, serverKey) \<Rightarrow>
               try_or MockPair (pk_pair k serverCrt serverKey) (\<lambda>pair.
               case mock_issue k 2 caCert authKey
                   (mock_client_template [''os:admin''] (pk_clock k 4 - hour) (pk_clock k 5 + one_day)) of
                 Inl e \<Rightarrow> Inl e
               | Inr (clientCrt, clientKey) \<Rightarrow>
                   Inr \<lparr>mk_caCert = caCert, mk_caKey = authKey, mk_caPEM = caPEM, mk_tlsCert = pair,
                        mk_clientCrt = clientCrt, mk_clientKey = clientKey\<rparr>)))"

text \<open>A request, on what is drawn and read from the clock for it.\<close>

definition GenerateClientConfiguration ::
  "pki \<Rightarrow> mock_server \<Rightarrow> string list \<Rightarrow> duration \<Rightarrow> mock_error + client_cert list" where
  "GenerateClientConfiguration k m roles crtTtl =
     (let ttl = (if crtTtl \<le> 0 then minute else crtTtl); now = pk_clock k 0 in
      case mock_issue k 0 (mk_caCert m) (mk_caKey m) (mock_client_template roles now (now + ttl)) of
        Inl e \<Rightarrow> Inl e
      | Inr (crt, key) \<Rightarrow> Inr [\<lparr>CaPEM = mk_caPEM m, CertPEM = crt, KeyPEM = key\<rparr>])"

section \<open>Its listener and its talosconfig\<close>

datatype tls_version = TLS12 | TLS13

record grpc_tls =
  gt_Certificates :: "tls_cert list"
  gt_RequireAndVerifyClientCert :: bool
  gt_ClientCAs :: string
  gt_MinVersion :: tls_version

definition GRPCServer :: "mock_server \<Rightarrow> grpc_tls" where
  "GRPCServer m =
     \<lparr>gt_Certificates = [mk_tlsCert m], gt_RequireAndVerifyClientCert = True, gt_ClientCAs = mk_caPEM m,
      gt_MinVersion = TLS13\<rparr>"

abbreviation newline :: string where "newline \<equiv> [CHR 0x0A]"

definition TalosconfigYAML :: "mock_server \<Rightarrow> string \<Rightarrow> string" where
  "TalosconfigYAML m endpoint =
     ''context: mock'' @ newline @
     ''contexts:'' @ newline @
     ''    mock:'' @ newline @
     ''        endpoints:'' @ newline @
     ''            - '' @ endpoint @ newline @
     ''        ca: '' @ StdEncoding_Encode (mk_caPEM m) @ newline @
     ''        crt: '' @ StdEncoding_Encode (mk_clientCrt m) @ newline @
     ''        key: '' @ StdEncoding_Encode (mk_clientKey m) @ newline"

definition WriteTalosconfig ::
  "(string \<Rightarrow> write_outcome) \<Rightarrow> mock_server \<Rightarrow> string \<Rightarrow> string \<Rightarrow> file_system \<Rightarrow> file_system \<times> bool" where
  "WriteTalosconfig sys m path endpoint fs = write_file sys path (TalosconfigYAML m endpoint) fs"

text \<open>
  The command: what it does until it serves. \<^verbatim>\<open>log.Fatalf\<close> ends the process with status 1.
\<close>

datatype mock_run = MockFatal | MockServes grpc_tls

definition mock_main ::
  "pki \<Rightarrow> (string \<Rightarrow> write_outcome) \<Rightarrow> (string \<Rightarrow> bool) \<Rightarrow> string \<Rightarrow> string \<Rightarrow> file_system
     \<Rightarrow> file_system \<times> mock_run" where
  "mock_main k sys listens talosconfigPath listen fs =
     (case mock_New k of
        Inl e \<Rightarrow> (fs, MockFatal)
      | Inr m \<Rightarrow>
          (case WriteTalosconfig sys m talosconfigPath ''127.0.0.1'' fs of
             (fs1, False) \<Rightarrow> (fs1, MockFatal)
           | (fs1, True) \<Rightarrow> (fs1, if listens listen then MockServes (GRPCServer m) else MockFatal)))"

section \<open>The mock as the issuer's Talos API\<close>

text \<open>What a connection to it answers; \<open>err\<close> is the text of the status a failure becomes.\<close>

definition mock_connection :: "(mock_error \<Rightarrow> string) \<Rightarrow> pki \<Rightarrow> mock_server \<Rightarrow> connection" where
  "mock_connection err k m roles ttl = map_sum err id (GenerateClientConfiguration k m roles ttl)"

text \<open>
  What is relied on of X.509: a certificate that was created is parsed back. Times keep
  their seconds only, and the values of an attribute are a set, so they may change places.
\<close>

definition to_seconds :: "time \<Rightarrow> time" where
  "to_seconds t = t div second * second"

definition read_back :: "template \<Rightarrow> template \<Rightarrow> bool" where
  "read_back t u \<longleftrightarrow>
     mset (tp_Organization u) = mset (tp_Organization t) \<and> tp_CommonName u = tp_CommonName t \<and>
     tp_NotBefore u = to_seconds (tp_NotBefore t) \<and> tp_NotAfter u = to_seconds (tp_NotAfter t) \<and>
     tp_KeyUsage u = tp_KeyUsage t \<and> tp_ExtKeyUsage u = tp_ExtKeyUsage t \<and> tp_IsCA u = tp_IsCA t \<and>
     tp_DNSNames u = tp_DNSNames t"

definition x509_reads_back :: "pki \<Rightarrow> bool" where
  "x509_reads_back k \<longleftrightarrow>
     (\<forall>t parent pub key der. pk_create k t parent pub key = Some der \<longrightarrow> (\<exists>u. pk_parse k der = Some u \<and> read_back t u))"

text \<open>A PEM text that holds a certificate the authority signed, with what is read from it.\<close>

definition signed_by :: "pki \<Rightarrow> mock_server \<Rightarrow> string \<Rightarrow> template \<Rightarrow> bool" where
  "signed_by k m crt leaf \<longleftrightarrow>
     (\<exists>t pub der. crt = pk_pem k ''CERTIFICATE'' der \<and> pk_create k t (mk_caCert m) pub (mk_caKey m) = Some der \<and>
        pk_parse k der = Some leaf)"

lemma to_seconds_bounds: "to_seconds t \<le> t" "t < to_seconds t + second"
proof -
  have "t = to_seconds t + t mod second" by (simp add: to_seconds_def)
  moreover have "0 \<le> t mod second" "t mod second < second" by (simp_all add: second_def)
  ultimately show "to_seconds t \<le> t" "t < to_seconds t + second" by linarith+
qed

lemma to_seconds_span: "\<bar>to_seconds (t + d) - to_seconds t - d\<bar> < second"
  using to_seconds_bounds [of "t + d"] to_seconds_bounds [of t] by linarith

lemma try_or_Inr: "try_or e x f = Inr y \<longleftrightarrow> (\<exists>v. x = Some v \<and> f v = Inr y)"
  by (auto simp: try_or_def split: option.split)

lemma mock_issue_Inr:
  assumes "mock_issue k n caCert authKey tmpl = Inr (crt, key)" and "x509_reads_back k"
  obtains priv serial der u where "crt = pk_pem k ''CERTIFICATE'' der"
    "pk_create k (tmpl\<lparr>tp_Serial := serial\<rparr>) caCert priv authKey = Some der" "pk_parse k der = Some u" "read_back tmpl u"
proof -
  obtain priv serial der where d: "crt = pk_pem k ''CERTIFICATE'' der"
    "pk_create k (tmpl\<lparr>tp_Serial := serial\<rparr>) caCert priv authKey = Some der"
    using assms(1) by (auto simp: mock_issue_def try_or_Inr)
  with assms(2) obtain u where "pk_parse k der = Some u" "read_back (tmpl\<lparr>tp_Serial := serial\<rparr>) u"
    unfolding x509_reads_back_def by blast
  with d show thesis by (intro that [of der serial priv u]) (simp_all add: read_back_def)
qed

text \<open>What the issuer hands on when the Talos API is the mock.\<close>

lemma mock_issues:
  assumes "connect (client_options i) = Inr (mock_connection err k m)" and "x509_reads_back k"
    and "Issue connect i roles ttl = Inr cert"
  obtains leaf where "CaPEM cert = mk_caPEM m" "signed_by k m (CertPEM cert) leaf"
    "read_back (mock_client_template roles (pk_clock k 0) (pk_clock k 0 + (if ttl \<le> 0 then minute else ttl))) leaf"
proof -
  let ?t = "mock_client_template roles (pk_clock k 0) (pk_clock k 0 + (if ttl \<le> 0 then minute else ttl))"
  obtain crt key where iss: "mock_issue k 0 (mk_caCert m) (mk_caKey m) ?t = Inr (crt, key)"
    and cert: "cert = \<lparr>CaPEM = mk_caPEM m, CertPEM = crt, KeyPEM = key\<rparr>"
    using assms(1,3)
    by (auto simp: Issue_def mock_connection_def GenerateClientConfiguration_def Let_def split: sum.splits prod.splits)
  obtain priv serial der u where "crt = pk_pem k ''CERTIFICATE'' der"
    "pk_create k (?t\<lparr>tp_Serial := serial\<rparr>) (mk_caCert m) priv (mk_caKey m) = Some der" "pk_parse k der = Some u"
    "read_back ?t u"
    using iss assms(2) by (rule mock_issue_Inr)
  then show thesis by (intro that [of u]) (auto simp: cert signed_by_def)
qed

text \<open>The credential in its talosconfig is one its listener admits, for a day.\<close>

lemma mock_admits_its_credential:
  assumes "mock_New k = Inr m" and "x509_reads_back k"
  obtains leaf der where "signed_by k m (mk_clientCrt m) leaf" "tp_Organization leaf = [''os:admin'']"
    "tp_ExtKeyUsage leaf = [ClientAuth]"
    "\<And>t. pk_clock k 4 - hour \<le> t \<Longrightarrow> t \<le> pk_clock k 5 + one_day - second \<Longrightarrow> tp_NotBefore leaf \<le> t \<and> t \<le> tp_NotAfter leaf"
    "gt_ClientCAs (GRPCServer m) = pk_pem k ''CERTIFICATE'' der" "pk_parse k der = Some (mk_caCert m)"
    "tp_IsCA (mk_caCert m)" "CertSign \<in> set (tp_KeyUsage (mk_caCert m))"
proof -
  let ?c = "mock_client_template [''os:admin''] (pk_clock k 4 - hour) (pk_clock k 5 + one_day)"
  obtain caCert priv caPEM where ca: "genCA k = Inr (caCert, priv, caPEM)"
    using assms(1) by (auto simp: mock_New_def split: sum.splits)
  obtain crt key where iss: "mock_issue k 2 caCert priv ?c = Inr (crt, key)"
    and m: "mk_caCert m = caCert" "mk_caKey m = priv" "mk_caPEM m = caPEM" "mk_clientCrt m = crt"
    using assms(1) ca
    by (cases "mock_issue k 1 caCert priv (mock_server_template k)"; cases "mock_issue k 2 caCert priv ?c")
      (auto simp: mock_New_def try_or_Inr)
  obtain der where der: "pk_create k (mock_ca_template k) (mock_ca_template k) priv priv = Some der"
    "pk_parse k der = Some caCert" "caPEM = pk_pem k ''CERTIFICATE'' der"
    using ca by (auto simp: genCA_def try_or_Inr)
  with assms(2) have "read_back (mock_ca_template k) caCert" unfolding x509_reads_back_def by fastforce
  then have auth: "tp_IsCA caCert" "CertSign \<in> set (tp_KeyUsage caCert)" by (simp_all add: read_back_def mock_ca_template_def)
  obtain pub serial d u where u: "crt = pk_pem k ''CERTIFICATE'' d"
    "pk_create k (?c\<lparr>tp_Serial := serial\<rparr>) caCert pub priv = Some d" "pk_parse k d = Some u" "read_back ?c u"
    using iss assms(2) by (rule mock_issue_Inr)
  have valid: "tp_NotBefore u \<le> t \<and> t \<le> tp_NotAfter u"
    if "pk_clock k 4 - hour \<le> t" "t \<le> pk_clock k 5 + one_day - second" for t
    using u(4) that to_seconds_bounds(1) [of "pk_clock k 4 - hour"] to_seconds_bounds(2) [of "pk_clock k 5 + one_day"]
    by (simp add: read_back_def mock_client_template_def)
  show thesis
    by (rule that [of u der]) (use u m der auth valid in \<open>auto simp: signed_by_def GRPCServer_def read_back_def mock_client_template_def\<close>)
qed

section \<open>Properties\<close>

text \<open>
  C18. The issuing path against the mock node, for any roles and lifetime: when the issuer
  gets a certificate, its authority is the node's, the node signed it, it names exactly the
  roles that were asked for, is for clients only, and lasts as long as was asked, up to the
  second a certificate cannot express, or a minute when no lifetime was asked for.
\<close>

theorem mock_mints_what_was_asked:
  assumes "connect (client_options i) = Inr (mock_connection err k m)" and "x509_reads_back k"
    and "Issue connect i roles ttl = Inr cert"
  shows "CaPEM cert = mk_caPEM m \<and>
    (\<exists>leaf. signed_by k m (CertPEM cert) leaf \<and> mset (tp_Organization leaf) = mset roles \<and>
      tp_ExtKeyUsage leaf = [ClientAuth] \<and> \<not> tp_IsCA leaf \<and>
      \<bar>tp_NotAfter leaf - tp_NotBefore leaf - (if 0 < ttl then ttl else minute)\<bar> < second)"
proof -
  obtain leaf where l: "CaPEM cert = mk_caPEM m" "signed_by k m (CertPEM cert) leaf"
    "read_back (mock_client_template roles (pk_clock k 0) (pk_clock k 0 + (if ttl \<le> 0 then minute else ttl))) leaf"
    using assms by (rule mock_issues)
  have "(if ttl \<le> 0 then minute else ttl) = (if 0 < ttl then ttl else minute)" by simp
  with l to_seconds_span [of "pk_clock k 0" "if 0 < ttl then ttl else minute"] show ?thesis
    by (auto simp: read_back_def mock_client_template_def)
qed

text \<open>The request of the repository's own test: a reader for seven minutes.\<close>

definition demo_minted :: template where
  "demo_minted = mock_client_template [''os:reader''] 0 (7 * minute)"

definition demo_node :: pki where
  "demo_node =
     \<lparr>pk_key = (\<lambda>n. Some ''K''), pk_serial = (\<lambda>n. Some 0),
      pk_create = (\<lambda>t parent pub key. if t = demo_minted then Some ''D'' else None), pk_parse = (\<lambda>d. Some demo_minted),
      pk_marshal = Some, pk_pem = (\<lambda>ty b. b), pk_pair = (\<lambda>c p. None), pk_clock = (\<lambda>n. 0)\<rparr>"

definition demo_mock :: mock_server where
  "demo_mock = \<lparr>mk_caCert = demo_leaf, mk_caKey = ''C'', mk_caPEM = ''ca'', mk_tlsCert = \<lparr>ct_der = [], ct_leaf = None\<rparr>,
     mk_clientCrt = [], mk_clientKey = []\<rparr>"

lemma demo_node_reads_back: "x509_reads_back demo_node"
  by (simp add: x509_reads_back_def demo_node_def)
    (simp add: demo_minted_def read_back_def mock_client_template_def to_seconds_def time_units)

theorem mock_mints_what_was_asked_witness:
  "\<exists>cert leaf. Issue (\<lambda>opts. Inr (mock_connection (\<lambda>e. []) demo_node demo_mock)) (NewIssuer [] []) [''os:reader''] (7 * minute) =
      Inr cert \<and> signed_by demo_node demo_mock (CertPEM cert) leaf \<and> mset (tp_Organization leaf) = {#''os:reader''#} \<and>
      \<bar>tp_NotAfter leaf - tp_NotBefore leaf - 7 * minute\<bar> < second"
proof -
  have "mock_client_template [''os:reader''] 0 (7 * minute)\<lparr>tp_Serial := 0\<rparr> = demo_minted"
    by (simp add: demo_minted_def mock_client_template_def)
  then have iss: "Issue (\<lambda>opts. Inr (mock_connection (\<lambda>e. []) demo_node demo_mock)) (NewIssuer [] []) [''os:reader''] (7 * minute) =
      Inr \<lparr>CaPEM = ''ca'', CertPEM = ''D'', KeyPEM = ''K''\<rparr>"
    by (simp add: Issue_def mock_connection_def GenerateClientConfiguration_def mock_issue_def try_or_def Let_def
        demo_node_def demo_mock_def time_units)
  from mock_mints_what_was_asked [OF refl demo_node_reads_back iss] iss show ?thesis by (auto simp: time_units)
qed

end
