(* ===== verification/Auth.thy ===== *)
theory Auth
  imports Provider ServeMux
begin

text \<open>
  \<^verbatim>\<open>pkg/oidc/auth.go\<close>: the local callback server with its two channels, the authorization
  code flow with state and PKCE, and the device flow. What reaches the callback server is a
  sequence of arrivals; network, TLS files, URL parsing and randomness are the record
  \<open>auth_world\<close>.
\<close>

section \<open>Configuration\<close>

record AuthConfig =
  ac_IssuerURL :: string
  ac_ClientID :: string
  ac_ClientSecret :: string
  ac_Scopes :: "string list"
  ac_ListenAddresses :: "string list"
  ac_RedirectURL :: string
  ac_TLSCertFile :: string
  ac_TLSKeyFile :: string

datatype callback_error = ProviderSays string string | NoCode | ServeError | Cancelled_wait

datatype auth_error =
    NoListenAddress
  | NeedsCertAndKey
  | BadKeyPair
  | BadRedirectURL
  | RelativeRedirectURL
  | RoutePanic \<comment> \<open>\<^verbatim>\<open>ServeMux\<close> panics on a path it cannot register\<close>
  | ListenFailed string
  | NoRandomness
  | DiscoveryFailed provider_error
  | CallbackFailed callback_error
  | StateMismatch
  | ExchangeFailed provider_error
  | DeviceFailed provider_error

record auth_world =
  aw_get :: http_get
  aw_provider_json :: "string \<Rightarrow> ProviderConfig option"
  aw_sha :: "string \<Rightarrow> string"
  aw_pkce_rand :: "string option"
  aw_state_rand :: "string option"
  aw_key_pair :: "string \<Rightarrow> string \<Rightarrow> bool"
  aw_url_parse :: "string \<Rightarrow> (string \<times> string \<times> string) option" \<comment> \<open>scheme, host and path\<close>
  aw_listen :: "string \<Rightarrow> bool"
  aw_post :: http_post
  aw_token_json :: "string \<Rightarrow> TokenResponse option"
  aw_clock :: time

definition callbackTLSConfig :: "(string \<Rightarrow> string \<Rightarrow> bool) \<Rightarrow> AuthConfig \<Rightarrow> auth_error + bool" where
  "callbackTLSConfig key_pair cfg =
     (if ac_TLSCertFile cfg = [] \<and> ac_TLSKeyFile cfg = [] then Inr False
      else if ac_TLSCertFile cfg = [] \<or> ac_TLSKeyFile cfg = [] then Inl NeedsCertAndKey
      else if key_pair (ac_TLSCertFile cfg) (ac_TLSKeyFile cfg) then Inr True
      else Inl BadKeyPair)"

definition scopesOrDefault :: "AuthConfig \<Rightarrow> string list" where
  "scopesOrDefault cfg =
     (if ac_Scopes cfg = [] then [''openid'', ''profile'', ''email'', ''offline_access''] else ac_Scopes cfg)"

section \<open>The callback server\<close>

datatype callback_route = CallbackRoute | LogoRoute

record AuthResult =
  Code :: string
  State :: string

text \<open>
  The channels: one result at most, and one error more than there are listeners; a send on
  a full channel blocks its handler for good.
\<close>

record CallbackServer =
  cb_redirectURI :: string
  cb_useTLS :: bool
  cb_mux :: "callback_route mux"
  cb_listeners :: "string list"
  cb_results :: "AuthResult list"
  cb_errors :: "callback_error list"
  cb_errCap :: nat

text \<open>The listeners opened in order, up to the first that fails.\<close>

fun listen_all :: "(string \<Rightarrow> bool) \<Rightarrow> string list \<Rightarrow> string list \<times> string option" where
  "listen_all ok [] = ([], None)"
| "listen_all ok (a # as) =
     (if ok a then (let (ls, e) = listen_all ok as in (a # ls, e)) else ([], Some a))"

definition callback_mux :: "auth_world \<Rightarrow> AuthConfig \<Rightarrow> auth_error + callback_route mux" where
  "callback_mux w cfg =
     (let own = [(''/callback'', CallbackRoute), (''/logo'', LogoRoute)];
          mux = (\<lambda>rs. case register [] rs of None \<Rightarrow> Inl RoutePanic | Some m \<Rightarrow> Inr m) in
      if ac_RedirectURL cfg = [] then mux own
      else case aw_url_parse w (ac_RedirectURL cfg) of
        None \<Rightarrow> Inl BadRedirectURL
      | Some (scheme, host, path) \<Rightarrow>
          if scheme = [] \<or> host = [] then Inl RelativeRedirectURL
          else if path \<noteq> [] \<and> path \<noteq> ''/'' \<and> path \<noteq> ''/callback'' then mux (own @ [(path, CallbackRoute)])
          else mux own)"

text \<open>On failure the listeners opened so far are closed: no server is left.\<close>

definition NewCallbackServer :: "auth_world \<Rightarrow> AuthConfig \<Rightarrow> auth_error + CallbackServer" where
  "NewCallbackServer w cfg =
     (case ac_ListenAddresses cfg of
        [] \<Rightarrow> Inl NoListenAddress
      | first # others \<Rightarrow>
          (case callbackTLSConfig (aw_key_pair w) cfg of
             Inl e \<Rightarrow> Inl e
           | Inr useTLS \<Rightarrow>
               (case callback_mux w cfg of
                  Inl e \<Rightarrow> Inl e
                | Inr mux \<Rightarrow>
                    (case listen_all (aw_listen w) (first # others) of
                       (ls, Some addr) \<Rightarrow> Inl (ListenFailed addr)
                     | (ls, None) \<Rightarrow>
                         Inr \<lparr>cb_redirectURI =
                                (if ac_RedirectURL cfg \<noteq> [] then ac_RedirectURL cfg
                                 else (if useTLS then ''https'' else ''http'') @ ''://'' @ first @ ''/callback''),
                              cb_useTLS = useTLS, cb_mux = mux, cb_listeners = ls, cb_results = [],
                              cb_errors = [], cb_errCap = length (first # others) + 1\<rparr>))))"

text \<open>Whether a browser's GET, or any request that is not a \<^verbatim>\<open>CONNECT\<close>, reaches \<open>handleCallback\<close>.\<close>

definition serves :: "callback_route mux \<Rightarrow> string \<Rightarrow> bool" where
  "serves mux path \<longleftrightarrow> dispatch mux ''GET'' path = To CallbackRoute"

definition values_Get :: "url_values \<Rightarrow> string \<Rightarrow> string" where
  "values_Get vs k = (case map_of vs k of None \<Rightarrow> [] | Some v \<Rightarrow> v)"

datatype callback_page = SuccessPage

definition http_error :: "string \<Rightarrow> nat \<Rightarrow> 'p response" where
  "http_error msg st =
     \<lparr>status = st,
      headers = [(''Content-Type'', ''text/plain; charset=utf-8''), (''X-Content-Type-Options'', ''nosniff'')],
      body = Text (msg @ [CHR 0x0A])\<rparr>"

definition send_error :: "callback_error \<Rightarrow> CallbackServer \<Rightarrow> CallbackServer option" where
  "send_error e cs =
     (if length (cb_errors cs) < cb_errCap cs then Some (cs\<lparr>cb_errors := cb_errors cs @ [e]\<rparr>) else None)"

text \<open>\<open>None\<close>: the handler blocks on a full channel and never answers.\<close>

definition handleCallback :: "string \<Rightarrow> CallbackServer \<Rightarrow> (CallbackServer \<times> callback_page response) option" where
  "handleCallback rawQuery cs =
     (let query = ParseQuery rawQuery; errMsg = values_Get query ''error'' in
      if errMsg \<noteq> [] then
        map_option (\<lambda>cs1. (cs1, http_error (''Authentication failed: '' @ errMsg) StatusBadRequest))
          (send_error (ProviderSays errMsg (values_Get query ''error_description'')) cs)
      else let code = values_Get query ''code''; state = values_Get query ''state'' in
        if code = [] then
          map_option (\<lambda>cs1. (cs1, http_error ''Missing authorization code'' StatusBadRequest)) (send_error NoCode cs)
        else if cb_results cs \<noteq> [] then None
        else Some (cs\<lparr>cb_results := [\<lparr>Code = code, State = state\<rparr>]\<rparr>,
               \<lparr>status = StatusOK, headers = [(''Content-Type'', ''text/html'')], body = Page SuccessPage\<rparr>))"

datatype arrival = Visit string string \<comment> \<open>escaped path and raw query\<close> | ListenerFails

definition arrive :: "arrival \<Rightarrow> CallbackServer \<Rightarrow> CallbackServer" where
  "arrive a cs =
     (case a of
        Visit path q \<Rightarrow>
          if serves (cb_mux cs) path then (case handleCallback q cs of Some (cs1, resp) \<Rightarrow> cs1 | None \<Rightarrow> cs) else cs
      | ListenerFails \<Rightarrow> (case send_error ServeError cs of Some cs1 \<Rightarrow> cs1 | None \<Rightarrow> cs))"

text \<open>
  The select: a choice when both channels are ready, else the one that is. \<open>None\<close> is
  waiting on.
\<close>

definition ready :: "bool \<Rightarrow> CallbackServer \<Rightarrow> (callback_error + AuthResult) option" where
  "ready prefer_result cs =
     (case (cb_results cs, cb_errors cs) of
        ([], []) \<Rightarrow> None
      | (r # rs, []) \<Rightarrow> Some (Inr r)
      | ([], e # es) \<Rightarrow> Some (Inl e)
      | (r # rs, e # es) \<Rightarrow> Some (if prefer_result then Inr r else Inl e))"

fun WaitForCallback :: "bool \<Rightarrow> arrival list \<Rightarrow> CallbackServer \<Rightarrow> callback_error + AuthResult" where
  "WaitForCallback pick [] cs = (case ready pick cs of Some r \<Rightarrow> r | None \<Rightarrow> Inl Cancelled_wait)"
| "WaitForCallback pick (a # as) cs =
     (case ready pick cs of Some r \<Rightarrow> r | None \<Rightarrow> WaitForCallback pick as (arrive a cs))"

section \<open>The flows\<close>

definition GenerateState :: "string option \<Rightarrow> string option" where
  "GenerateState rand = map_option hex_encode rand"

definition newStoredToken :: "TokenResponse \<Rightarrow> AuthConfig \<Rightarrow> time \<Rightarrow> StoredToken" where
  "newStoredToken t cfg now =
     (let expiresIn = (if ExpiresIn t = 0 then 3600 else ExpiresIn t) in
      \<lparr>s_AccessToken = AccessToken t, s_RefreshToken = RefreshToken t, s_IDToken = IDToken t,
       s_ExpiresAt = now + wrap64 (expiresIn * second), s_Issuer = ac_IssuerURL cfg, s_ClientID = ac_ClientID cfg\<rparr>)"

text \<open>What a login showed the user and sent to the token endpoint, with its result.\<close>

record login_outcome =
  lo_url :: "string option"
  lo_posted :: "url_values option"
  lo_result :: "auth_error + StoredToken"

definition stopped :: "auth_error \<Rightarrow> login_outcome" where
  "stopped e = \<lparr>lo_url = None, lo_posted = None, lo_result = Inl e\<rparr>"

text \<open>
  The code flow. \<open>early\<close> are the arrivals handled before the wait begins, \<open>late\<close> those
  after it.
\<close>

definition Authenticate :: "auth_world \<Rightarrow> bool \<Rightarrow> arrival list \<Rightarrow> arrival list \<Rightarrow> AuthConfig \<Rightarrow> login_outcome" where
  "Authenticate w pick early late cfg =
     (case Discover (aw_get w) (aw_provider_json w) (ac_IssuerURL cfg) of
        Inl e \<Rightarrow> stopped (DiscoveryFailed e)
      | Inr provider \<Rightarrow>
          (case (GeneratePKCE (aw_sha w) (aw_pkce_rand w), GenerateState (aw_state_rand w)) of
             (Some pkce, Some state) \<Rightarrow>
               (case NewCallbackServer w cfg of
                  Inl e \<Rightarrow> stopped e
                | Inr cs \<Rightarrow>
                    (let redirectURI = cb_redirectURI cs;
                         authURL = BuildAuthorizationURL provider (ac_ClientID cfg) redirectURI (scopesOrDefault cfg) state pkce;
                         out = (\<lambda>posted res. \<lparr>lo_url = Some authURL, lo_posted = posted, lo_result = res\<rparr>)
                     in case WaitForCallback pick late (fold arrive early cs) of
                          Inl e \<Rightarrow> out None (Inl (CallbackFailed e))
                        | Inr result \<Rightarrow>
                            if constant_time_compare (State result) state \<noteq> 1 then out None (Inl StateMismatch)
                            else out (Some (exchange_form (ac_ClientID cfg) (ac_ClientSecret cfg) (Code result) redirectURI pkce))
                              (case ExchangeCode (aw_post w) (aw_token_json w) provider (ac_ClientID cfg) (ac_ClientSecret cfg)
                                      (Code result) redirectURI pkce of
                                 Inl e \<Rightarrow> Inl (ExchangeFailed e)
                               | Inr t \<Rightarrow> Inr (newStoredToken t cfg (aw_clock w)))))
           | _ \<Rightarrow> stopped NoRandomness))"

definition AuthenticateDevice ::
  "nat \<Rightarrow> auth_world \<Rightarrow> poll_world \<Rightarrow> (string \<Rightarrow> DeviceAuth option) \<Rightarrow> (string \<Rightarrow> (string \<times> string) option)
     \<Rightarrow> time \<Rightarrow> AuthConfig \<Rightarrow> (auth_error + StoredToken) option" where
  "AuthenticateDevice fuel w pw device_json error_json now cfg =
     (case Discover (aw_get w) (aw_provider_json w) (ac_IssuerURL cfg) of
        Inl e \<Rightarrow> Some (Inl (DiscoveryFailed e))
      | Inr provider \<Rightarrow>
          (case RequestDeviceCode (aw_post w) device_json provider (ac_ClientID cfg) (ac_ClientSecret cfg) (scopesOrDefault cfg) of
             Inl e \<Rightarrow> Some (Inl (DeviceFailed e))
           | Inr auth \<Rightarrow>
               (case PollDeviceToken fuel pw (aw_token_json w) error_json provider (ac_ClientID cfg) (ac_ClientSecret cfg) auth now of
                  None \<Rightarrow> None
                | Some (Inl e, ts) \<Rightarrow> Some (Inl (DeviceFailed e))
                | Some (Inr t, ts) \<Rightarrow> Some (Inr (newStoredToken t cfg (aw_clock w))))))"

text \<open>With the fuel of \<open>PollDeviceToken_ends\<close> for the code the provider hands out, the device flow returns.\<close>

definition enough_fuel :: "nat \<Rightarrow> auth_world \<Rightarrow> (string \<Rightarrow> DeviceAuth option) \<Rightarrow> AuthConfig \<Rightarrow> bool" where
  "enough_fuel fuel w device_json cfg \<longleftrightarrow>
     (\<forall>provider auth.
        RequestDeviceCode (aw_post w) device_json provider (ac_ClientID cfg) (ac_ClientSecret cfg) (scopesOrDefault cfg)
          = Inr auth \<longrightarrow>
        Interval auth \<le> 10 ^ 9 \<and> d_ExpiresIn auth \<le> 10 ^ 9 \<and> nat (d_ExpiresIn auth div Interval auth) + 2 \<le> fuel)"

lemma AuthenticateDevice_returns:
  assumes "clock_ok pw" and "enough_fuel fuel w device_json cfg"
  shows "AuthenticateDevice fuel w pw device_json error_json now cfg \<noteq> None"
proof (cases "Discover (aw_get w) (aw_provider_json w) (ac_IssuerURL cfg)")
  case (Inl e)
  then show ?thesis by (simp add: AuthenticateDevice_def)
next
  case provider: (Inr provider)
  show ?thesis
  proof (cases "RequestDeviceCode (aw_post w) device_json provider (ac_ClientID cfg) (ac_ClientSecret cfg)
      (scopesOrDefault cfg)")
    case (Inl e)
    with provider show ?thesis by (simp add: AuthenticateDevice_def)
  next
    case (Inr auth)
    with assms(2) have b: "Interval auth \<le> 10 ^ 9" "d_ExpiresIn auth \<le> 10 ^ 9"
      "nat (d_ExpiresIn auth div Interval auth) + 2 \<le> fuel"
      by (simp_all add: enough_fuel_def)
    obtain r ts where "PollDeviceToken fuel pw (aw_token_json w) error_json provider (ac_ClientID cfg) (ac_ClientSecret cfg)
        auth now = Some (r, ts)"
      using PollDeviceToken_ends [OF assms(1) Inr b] by blast
    with provider Inr show ?thesis by (simp add: AuthenticateDevice_def split: sum.split)
  qed
qed

section \<open>The path of the redirect URL\<close>

text \<open>
  The browser comes back to the path of \<^verbatim>\<open>--oidc-redirect-url\<close>. The callback server answers
  there, as the README says, when the path is clean and has no wildcard; on the path
  \<^verbatim>\<open>/\<close>, or none, it never does.
\<close>

lemma own_routes:
  "register [] [(''/callback'', CallbackRoute), (''/logo'', LogoRoute)] =
   Some [([Lit ''callback''], CallbackRoute), ([Lit ''logo''], LogoRoute)]"
  by code_simp

lemma NewCallbackServer_mux:
  "NewCallbackServer w cfg = Inr cs \<Longrightarrow> callback_mux w cfg = Inr (cb_mux cs)"
  by (auto simp: NewCallbackServer_def split: list.splits sum.splits prod.splits option.splits)

lemma own_route_conflict: "conflictsWith [Lit ''logo''] [Lit s] \<longleftrightarrow> s = ''logo''"
  by (simp add: conflictsWith_def comparePaths_def Let_def)

lemma extra_route:
  assumes "register [] [(''/callback'', CallbackRoute), (''/logo'', LogoRoute), (path, CallbackRoute)] = Some m"
  obtains p where "parsePattern path = Some p" and "\<not> conflictsWith p [Lit ''logo'']"
    and "m = [([Lit ''callback''], CallbackRoute), ([Lit ''logo''], LogoRoute), (p, CallbackRoute)]"
proof -
  have "parsePattern ''/callback'' = Some [Lit ''callback'']" "parsePattern ''/logo'' = Some [Lit ''logo'']"
    "\<not> conflictsWith [Lit ''logo''] [Lit ''callback'']"
    by code_simp+
  with assms show thesis by (auto simp: HandleFunc_def split: option.splits if_splits intro: that)
qed

lemma extra_route_found:
  assumes "parsePattern path = Some p" and "\<not> conflictsWith p [Lit ''logo'']" and "CHR ''{'' \<notin> set path"
  shows "\<exists>q. find_match [([Lit ''callback''], CallbackRoute), ([Lit ''logo''], LogoRoute), (p, CallbackRoute)]
      (segments path) = Some (q, CallbackRoute) \<and> q \<in> {[Lit ''callback''], [Lit ''logo''], p}"
    (is "\<exists>q. find_match ?m ?segs = _ \<and> _")
proof -
  note p = parsePattern_literal [OF assms(1,3)]
  let ?xs = "split_on (CHR ''/'') (tl path)"
  have segs: "?segs = segments_of ?xs" using p(3) by (simp add: segments_def)
  then have "pattern_matches p ?segs" using literal_segments_match p(1) by simp
  then have "find_match ?m ?segs \<noteq> None" by (subst find_match_None) auto
  then obtain q h where q: "find_match ?m ?segs = Some (q, h)" by auto
  from find_match_Some [OF q] have m: "(q, h) \<in> set ?m" "pattern_matches q ?segs" by auto
  have "h \<noteq> LogoRoute"
  proof
    assume "h = LogoRoute"
    with m have "?segs = [''logo'']"
      by (auto simp: neq_Nil_conv elim!: pattern_matches.elims)
    with segs have "segments_of ?xs = [''logo'']" by simp
    then have "p = [Lit ''logo'']"
      using p(1) by (cases ?xs rule: literal_segments.cases) (auto simp: segments_of_Nil split: if_splits)
    with assms(2) own_route_conflict show False by simp
  qed
  with q m(1) show ?thesis by (cases h) auto
qed

lemma redirect_path_answered:
  assumes "NewCallbackServer w cfg = Inr cs" and "ac_RedirectURL cfg \<noteq> []"
    and "aw_url_parse w (ac_RedirectURL cfg) = Some (scheme, host, path)"
    and "path \<notin> {[], ''/''}" and "CHR ''{'' \<notin> set path" and "cleanPath path = path"
  shows "serves (cb_mux cs) path"
proof (cases "path = ''/callback''")
  case True
  then have "cb_mux cs = [([Lit ''callback''], CallbackRoute), ([Lit ''logo''], LogoRoute)]"
    using NewCallbackServer_mux [OF assms(1)] assms(2,3) own_routes
    by (simp add: callback_mux_def Let_def split: if_splits)
  moreover have "serves [([Lit ''callback''], CallbackRoute), ([Lit ''logo''], LogoRoute)] ''/callback''"
    unfolding serves_def by code_simp
  ultimately show ?thesis using True by simp
next
  case False
  then have "register [] [(''/callback'', CallbackRoute), (''/logo'', LogoRoute), (path, CallbackRoute)] = Some (cb_mux cs)"
    using NewCallbackServer_mux [OF assms(1)] assms(2-4)
    by (simp add: callback_mux_def Let_def del: register.simps split: if_splits option.splits)
  then obtain p where p: "parsePattern path = Some p" "\<not> conflictsWith p [Lit ''logo'']"
    and mux: "cb_mux cs = [([Lit ''callback''], CallbackRoute), ([Lit ''logo''], LogoRoute), (p, CallbackRoute)]"
    by (rule extra_route)
  from extra_route_found [OF p assms(5)] obtain q where
    q: "find_match (cb_mux cs) (segments path) = Some (q, CallbackRoute)" "q \<in> {[Lit ''callback''], [Lit ''logo''], p}"
    unfolding mux by blast
  have "last path = CHR ''/'' \<or> \<not> ends_multi q"
  proof (rule disjCI)
    assume "\<not> \<not> ends_multi q"
    with q(2) have "ends_multi p" by auto
    then have "last (split_on (CHR ''/'') (tl path)) = []"
      using parsePattern_literal [OF p(1) assms(5)] by (simp add: literal_segments_multi)
    then have "tl path = [] \<or> last (tl path) = CHR ''/''" by (simp add: last_split_on)
    then show "last path = CHR ''/''"
      using parsePattern_literal(2,3) [OF p(1) assms(5)] by (cases path) (auto split: if_splits)
  qed
  then have "matchOrRedirect (cb_mux cs) path path = To CallbackRoute"
    using q(1) parsePattern_literal(3) [OF p(1) assms(5)] by (auto simp: matchOrRedirect_def exactMatch_def)
  then show ?thesis by (simp add: serves_def dispatch_def assms(6))
qed

lemma root_redirect_unanswered:
  assumes "NewCallbackServer w cfg = Inr cs" and "ac_RedirectURL cfg \<noteq> []"
    and "aw_url_parse w (ac_RedirectURL cfg) = Some (scheme, host, path)" and "path \<in> {[], ''/''}"
  shows "\<not> serves (cb_mux cs) ''/'' \<and> \<not> serves (cb_mux cs) []"
proof -
  have "cb_mux cs = [([Lit ''callback''], CallbackRoute), ([Lit ''logo''], LogoRoute)]"
    using NewCallbackServer_mux [OF assms(1)] assms(2-4) own_routes
    by (auto simp: callback_mux_def Let_def split: if_splits)
  moreover have "\<not> serves [([Lit ''callback''], CallbackRoute), ([Lit ''logo''], LogoRoute)] ''/''"
    "\<not> serves [([Lit ''callback''], CallbackRoute), ([Lit ''logo''], LogoRoute)] []"
    unfolding serves_def by code_simp+
  ultimately show ?thesis by simp
qed

section \<open>Where a result comes from\<close>

text \<open>A visit that carries a code and a state, and no error.\<close>

definition brings :: "CallbackServer \<Rightarrow> arrival \<Rightarrow> AuthResult \<Rightarrow> bool" where
  "brings cs a r \<longleftrightarrow>
     (\<exists>path q. a = Visit path q \<and> serves (cb_mux cs) path \<and> values_Get (ParseQuery q) ''error'' = [] \<and>
        Code r = values_Get (ParseQuery q) ''code'' \<and> Code r \<noteq> [] \<and> State r = values_Get (ParseQuery q) ''state'')"

lemma send_error_frame:
  "send_error e cs = Some cs' \<Longrightarrow> cb_results cs' = cb_results cs \<and> cb_mux cs' = cb_mux cs"
  by (auto simp: send_error_def split: if_splits)

lemma arrive_cases:
  obtains (unchanged) "cb_results (arrive a cs) = cb_results cs" "cb_mux (arrive a cs) = cb_mux cs"
  | (got) r where "cb_results (arrive a cs) = [r]" "cb_results cs = []" "cb_mux (arrive a cs) = cb_mux cs"
      "cb_errors (arrive a cs) = cb_errors cs" "brings cs a r"
proof (cases a)
  case ListenerFails
  have n: "cb_results (arrive a cs) = cb_results cs \<and> cb_mux (arrive a cs) = cb_mux cs"
    using ListenerFails send_error_frame [of ServeError cs]
    by (cases "send_error ServeError cs") (simp_all add: arrive_def)
  show thesis by (rule unchanged [OF conjunct1 [OF n] conjunct2 [OF n]])
next
  case (Visit path q)
  show thesis
  proof (cases "serves (cb_mux cs) path")
    case False
    with Visit show thesis using unchanged by (simp add: arrive_def)
  next
    case True
    let ?q = "ParseQuery q"
    consider "values_Get ?q ''error'' \<noteq> []" | "values_Get ?q ''error'' = []" "values_Get ?q ''code'' = []"
      | "values_Get ?q ''error'' = []" "values_Get ?q ''code'' \<noteq> []" by blast
    then show thesis
    proof cases
      case 1
      with Visit True have n: "cb_results (arrive a cs) = cb_results cs \<and> cb_mux (arrive a cs) = cb_mux cs"
        using send_error_frame [of "ProviderSays (values_Get ?q ''error'') (values_Get ?q ''error_description'')" cs]
        by (cases "send_error (ProviderSays (values_Get ?q ''error'') (values_Get ?q ''error_description'')) cs")
          (simp_all add: arrive_def handleCallback_def Let_def)
      show thesis by (rule unchanged [OF conjunct1 [OF n] conjunct2 [OF n]])
    next
      case 2
      with Visit True have n: "cb_results (arrive a cs) = cb_results cs \<and> cb_mux (arrive a cs) = cb_mux cs"
        using send_error_frame [of NoCode cs]
        by (cases "send_error NoCode cs") (simp_all add: arrive_def handleCallback_def Let_def)
      show thesis by (rule unchanged [OF conjunct1 [OF n] conjunct2 [OF n]])
    next
      case 3
      then show thesis
      proof (cases "cb_results cs = []")
        case True': True
        let ?r = "\<lparr>Code = values_Get ?q ''code'', State = values_Get ?q ''state''\<rparr>"
        have "arrive a cs = cs\<lparr>cb_results := [?r]\<rparr>"
          using Visit True True' 3 by (simp add: arrive_def handleCallback_def Let_def)
        then show thesis using got [of ?r] Visit True True' 3 by (auto simp: brings_def)
      next
        case False
        with Visit True 3 unchanged show thesis by (simp add: arrive_def handleCallback_def Let_def)
      qed
    qed
  qed
qed

lemma arrive_routes [simp]: "cb_mux (arrive a cs) = cb_mux cs"
  by (cases rule: arrive_cases [of a cs])

lemma brings_routes: "cb_mux cs' = cb_mux cs \<Longrightarrow> brings cs' a r = brings cs a r"
  by (simp add: brings_def)

lemma arrived_results:
  "r \<in> set (cb_results (fold arrive vs cs)) \<Longrightarrow>
   r \<in> set (cb_results cs) \<or> (\<exists>a \<in> set vs. brings cs a r)"
proof (induction vs arbitrary: cs)
  case (Cons a vs)
  then have "r \<in> set (cb_results (arrive a cs)) \<or> (\<exists>b \<in> set vs. brings (arrive a cs) b r)" by simp
  moreover have "brings (arrive a cs) b r = brings cs b r" for b by (rule brings_routes) simp
  ultimately show ?case by (cases rule: arrive_cases [of a cs]) auto
qed simp

lemma fold_arrive_routes [simp]: "cb_mux (fold arrive vs cs) = cb_mux cs"
  by (induction vs arbitrary: cs) simp_all

lemma waited_result:
  "WaitForCallback pick vs cs = Inr r \<Longrightarrow> r \<in> set (cb_results cs) \<or> (\<exists>a \<in> set vs. brings cs a r)"
proof (induction pick vs cs rule: WaitForCallback.induct)
  case (1 pick cs)
  then show ?case by (auto simp: ready_def split: list.splits if_splits)
next
  case (2 pick a vs cs)
  show ?case
  proof (cases "ready pick cs")
    case None
    with 2 have "r \<in> set (cb_results (arrive a cs)) \<or> (\<exists>b \<in> set vs. brings (arrive a cs) b r)" by simp
    moreover have "brings (arrive a cs) b r = brings cs b r" for b by (rule brings_routes) simp
    ultimately show ?thesis by (cases rule: arrive_cases [of a cs]) auto
  next
    case (Some x)
    with 2(2) show ?thesis by (auto simp: ready_def split: list.splits if_splits)
  qed
qed

section \<open>Properties\<close>

text \<open>
  C12. An authorization code is redeemed only when it came back with the state of this very
  login: whatever else visits the callback address, the one code that is posted to the
  token endpoint came on a visit without an error whose state is the one in the URL the
  user was sent to, together with the redirect address and the verifier behind the
  challenge of that URL.
\<close>

theorem code_redeemed_only_with_state:
  assumes "lo_posted (Authenticate w pick early late cfg) = Some form"
  shows "\<exists>provider pkce state cs r.
    GeneratePKCE (aw_sha w) (aw_pkce_rand w) = Some pkce \<and> GenerateState (aw_state_rand w) = Some state \<and>
    NewCallbackServer w cfg = Inr cs \<and>
    lo_url (Authenticate w pick early late cfg) =
      Some (BuildAuthorizationURL provider (ac_ClientID cfg) (cb_redirectURI cs) (scopesOrDefault cfg) state pkce) \<and>
    (\<exists>a \<in> set (early @ late). brings cs a r) \<and> State r = state \<and>
    form = exchange_form (ac_ClientID cfg) (ac_ClientSecret cfg) (Code r) (cb_redirectURI cs) pkce"
proof -
  obtain provider where provider: "Discover (aw_get w) (aw_provider_json w) (ac_IssuerURL cfg) = Inr provider"
    using assms by (auto simp: Authenticate_def stopped_def split: sum.splits)
  obtain pkce state where random: "GeneratePKCE (aw_sha w) (aw_pkce_rand w) = Some pkce"
    "GenerateState (aw_state_rand w) = Some state"
    using assms provider by (auto simp: Authenticate_def stopped_def split: option.splits)
  obtain cs where cs: "NewCallbackServer w cfg = Inr cs"
    using assms provider random by (auto simp: Authenticate_def stopped_def split: sum.splits)
  obtain r where wait: "WaitForCallback pick late (fold arrive early cs) = Inr r"
    using assms provider random cs by (auto simp: Authenticate_def Let_def split: sum.splits)
  have state: "State r = state"
    and out: "lo_url (Authenticate w pick early late cfg) =
      Some (BuildAuthorizationURL provider (ac_ClientID cfg) (cb_redirectURI cs) (scopesOrDefault cfg) state pkce)"
      "form = exchange_form (ac_ClientID cfg) (ac_ClientSecret cfg) (Code r) (cb_redirectURI cs) pkce"
    using assms provider random cs wait by (auto simp: Authenticate_def Let_def split: if_splits)
  have "cb_results cs = []" using cs by (auto simp: NewCallbackServer_def split: list.splits sum.splits prod.splits option.splits)
  moreover have "brings (fold arrive early cs) a r = brings cs a r" for a by (rule brings_routes) simp
  ultimately have "\<exists>a \<in> set (early @ late). brings cs a r"
    using waited_result [OF wait] arrived_results [of r early cs] by auto
  with random cs state out show ?thesis by blast
qed

text \<open>
  C28. Whoever reaches the callback address first can stop a login without knowing
  anything: when the first visit to reach it carries an error, or no code, or a state that
  is not the generated one, the login fails, although the genuine answer of the provider
  follows.
\<close>

theorem forged_visit_stops_login:
  assumes "NewCallbackServer w cfg = Inr cs" and "GenerateState (aw_state_rand w) = Some state"
    and "serves (cb_mux cs) path"
    and "values_Get (ParseQuery q) ''error'' \<noteq> [] \<or> values_Get (ParseQuery q) ''code'' = [] \<or>
      values_Get (ParseQuery q) ''state'' \<noteq> state"
  shows "\<exists>e. lo_result (Authenticate w pick [] (Visit path q # late) cfg) = Inl e"
proof -
  have new: "cb_results cs = []" "cb_errors cs = []" "0 < cb_errCap cs"
    using assms(1) by (auto simp: NewCallbackServer_def split: list.splits sum.splits prod.splits option.splits)
  have wait: "\<exists>x. WaitForCallback pick (Visit path q # late) cs = x \<and> (\<forall>r. x = Inr r \<longrightarrow> State r \<noteq> state)"
  proof (cases "values_Get (ParseQuery q) ''error'' = [] \<and> values_Get (ParseQuery q) ''code'' \<noteq> []")
    case True
    then have "arrive (Visit path q) cs = cs\<lparr>cb_results := [\<lparr>Code = values_Get (ParseQuery q) ''code'',
        State = values_Get (ParseQuery q) ''state''\<rparr>]\<rparr>"
      using assms(3) new by (simp add: arrive_def handleCallback_def Let_def)
    with True assms(4) new show ?thesis by (cases late) (simp_all add: ready_def)
  next
    case False
    then obtain e where "arrive (Visit path q) cs = cs\<lparr>cb_errors := [e]\<rparr>"
      using assms(3) new by (cases "values_Get (ParseQuery q) ''error'' = []")
        (auto simp: arrive_def handleCallback_def Let_def send_error_def)
    with new show ?thesis by (cases late) (simp_all add: ready_def)
  qed
  then obtain x where x: "WaitForCallback pick (Visit path q # late) cs = x" "\<forall>r. x = Inr r \<longrightarrow> State r \<noteq> state"
    by blast
  show ?thesis
    using x assms(1,2)
    by (cases x) (auto simp: Authenticate_def stopped_def Let_def split: sum.split option.split)
qed

definition demo_auth_world :: auth_world where
  "demo_auth_world =
     \<lparr>aw_get = (\<lambda>u. Some (200, ''D'')), aw_provider_json = (\<lambda>b. Some demo_provider), aw_sha = (\<lambda>s. s),
      aw_pkce_rand = Some ''v'', aw_state_rand = Some ''s'', aw_key_pair = (\<lambda>c k. False), aw_url_parse = (\<lambda>u. None),
      aw_listen = (\<lambda>a. True), aw_post = (\<lambda>u f. None), aw_token_json = (\<lambda>b. None), aw_clock = 0\<rparr>"

definition demo_login_cfg :: AuthConfig where
  "demo_login_cfg =
     \<lparr>ac_IssuerURL = ''https://idp'', ac_ClientID = ''cli'', ac_ClientSecret = [], ac_Scopes = [],
      ac_ListenAddresses = [''127.0.0.1:8900''], ac_RedirectURL = [], ac_TLSCertFile = [], ac_TLSKeyFile = []\<rparr>"

definition demo_callback :: CallbackServer where
  "demo_callback =
     \<lparr>cb_redirectURI = ''http://127.0.0.1:8900/callback'', cb_useTLS = False, cb_mux = [([Lit ''callback''], CallbackRoute), ([Lit ''logo''], LogoRoute)],
      cb_listeners = [''127.0.0.1:8900''], cb_results = [], cb_errors = [], cb_errCap = 2\<rparr>"

lemma demo_queries:
  "ParseQuery ''code=C&state=73'' = [(''code'', ''C''), (''state'', ''73'')]"
  "ParseQuery ''code=X&state=guess'' = [(''code'', ''X''), (''state'', ''guess'')]"
  by (simp_all add: ParseQuery_def parse_setting_def)

lemma demo_login_setup:
  "NewCallbackServer demo_auth_world demo_login_cfg = Inr demo_callback"
  "GenerateState (aw_state_rand demo_auth_world) = Some ''73''"
proof -
  show "NewCallbackServer demo_auth_world demo_login_cfg = Inr demo_callback"
    by (simp add: NewCallbackServer_def callbackTLSConfig_def callback_mux_def Let_def own_routes demo_auth_world_def
        demo_login_cfg_def demo_callback_def del: register.simps)
  have "hex_encode ''s'' = ''73''" by code_simp
  then show "GenerateState (aw_state_rand demo_auth_world) = Some ''73''"
    by (simp add: GenerateState_def demo_auth_world_def)
qed

lemma demo_serves: "serves (cb_mux demo_callback) ''/callback''"
  unfolding serves_def by code_simp

lemma demo_posted:
  "\<exists>form. lo_posted (Authenticate demo_auth_world True [] [Visit ''/callback'' ''code=C&state=73''] demo_login_cfg) = Some form"
  using demo_login_setup demo_serves
  by (simp add: Authenticate_def Let_def Discover_def demo_provider_def GeneratePKCE_def demo_auth_world_def
      ready_def arrive_def handleCallback_def values_Get_def demo_queries demo_callback_def)

theorem code_redeemed_only_with_state_witness:
  "\<exists>r cs. brings cs (Visit ''/callback'' ''code=C&state=73'') r \<and> State r = ''73'' \<and>
     NewCallbackServer demo_auth_world demo_login_cfg = Inr cs"
proof -
  obtain form where "lo_posted (Authenticate demo_auth_world True [] [Visit ''/callback'' ''code=C&state=73''] demo_login_cfg) =
      Some form"
    using demo_posted by blast
  from code_redeemed_only_with_state [OF this] demo_login_setup(2) show ?thesis by auto
qed

theorem forged_visit_stops_login_witness:
  "\<exists>e. lo_result (Authenticate demo_auth_world True []
     [Visit ''/callback'' ''code=X&state=guess'', Visit ''/callback'' ''code=C&state=73''] demo_login_cfg) = Inl e"
  by (rule forged_visit_stops_login [OF demo_login_setup demo_serves]) (simp add: values_Get_def demo_queries)

end
