(* ===== verification/Keychain.thy ===== *)
theory Keychain
  imports Provider GoFiles
begin

text \<open>
  \<^verbatim>\<open>pkg/keychain\<close>: caching the tokens of a login in the system keyring, or in a file when the
  keyring refuses, and choosing between the two on the way back. Keyring, file access and
  the JSON encoders are the record \<open>key_world\<close>.
\<close>

section \<open>State and surroundings\<close>

text \<open>
  The file holds one token per context; a null entry is a nil pointer. A Go map is an
  association list with distinct keys.
\<close>

type_synonym tokenMap = "(string \<times> StoredToken option) list"

record key_store =
  ks_ring :: "string \<Rightarrow> string option"
  ks_files :: file_system

record key_world =
  kw_ring_set :: "string \<Rightarrow> string \<Rightarrow> bool"
  kw_ring_get :: "string \<Rightarrow> bool"
  kw_ring_delete :: "string \<Rightarrow> bool"
  kw_config_dir :: "string option"
  kw_home :: "string option"
  kw_mkdir :: "string \<Rightarrow> bool"
  kw_write :: "string \<Rightarrow> write_outcome"
  kw_remove :: "string \<Rightarrow> bool"
  kw_token_json :: "StoredToken \<Rightarrow> string option"
  kw_json_token :: "string \<Rightarrow> StoredToken option"
  kw_map_json :: "tokenMap \<Rightarrow> string option"
  kw_json_map :: "string \<Rightarrow> tokenMap option" \<comment> \<open>an empty map for \<^verbatim>\<open>null\<close>\<close>

datatype key_error = NoDirectory | ReadingCache | ParsingCache | CreatingDirectory | Marshaling | WritingCache | Removing

section \<open>The file\<close>

definition serviceName :: string where "serviceName = ''talosctl-oidc''"

definition cacheDir :: "key_world \<Rightarrow> key_error + string" where
  "cacheDir w =
     (case kw_config_dir w of
        Some d \<Rightarrow> Inr (Join d serviceName)
      | None \<Rightarrow>
          (case kw_home w of
             None \<Rightarrow> Inl NoDirectory
           | Some home \<Rightarrow> Inr (Join (Join home ''.config'') serviceName)))"

definition cacheFilePath :: "key_world \<Rightarrow> key_error + string" where
  "cacheFilePath w = (case cacheDir w of Inl e \<Rightarrow> Inl e | Inr dir \<Rightarrow> Inr (Join dir ''tokens.json''))"

definition readTokenFile :: "key_world \<Rightarrow> file_system \<Rightarrow> key_error + tokenMap \<times> string" where
  "readTokenFile w fs =
     (case cacheFilePath w of
        Inl e \<Rightarrow> Inl e
      | Inr path \<Rightarrow>
          (case read_file fs path of
             Inl NotExist \<Rightarrow> Inr ([], path)
           | Inl OtherError \<Rightarrow> Inl ReadingCache
           | Inr data \<Rightarrow> (case kw_json_map w data of None \<Rightarrow> Inl ParsingCache | Some m \<Rightarrow> Inr (m, path))))"

definition writeTokenFile :: "key_world \<Rightarrow> string \<Rightarrow> tokenMap \<Rightarrow> file_system \<Rightarrow> file_system \<times> key_error option" where
  "writeTokenFile w path m fs =
     (if \<not> kw_mkdir w (Dir path) then (fs, Some CreatingDirectory)
      else case kw_map_json w m of
        None \<Rightarrow> (fs, Some Marshaling)
      | Some data \<Rightarrow>
          (case write_file (kw_write w) path data fs of
             (fs1, ok) \<Rightarrow> (fs1, if ok then None else Some WritingCache)))"

definition fileStore :: "key_world \<Rightarrow> string \<Rightarrow> StoredToken \<Rightarrow> file_system \<Rightarrow> file_system \<times> key_error option" where
  "fileStore w ctx token fs =
     (case readTokenFile w fs of
        Inl e \<Rightarrow> (fs, Some e)
      | Inr (m, path) \<Rightarrow> writeTokenFile w path (AList.update ctx (Some token) m) fs)"

definition fileRetrieve :: "key_world \<Rightarrow> string \<Rightarrow> file_system \<Rightarrow> key_error + StoredToken option" where
  "fileRetrieve w ctx fs =
     (case readTokenFile w fs of
        Inl e \<Rightarrow> Inl e
      | Inr (m, path) \<Rightarrow> (case map_of m ctx of None \<Rightarrow> Inr None | Some token \<Rightarrow> Inr token))"

definition fileDelete :: "key_world \<Rightarrow> string \<Rightarrow> file_system \<Rightarrow> file_system \<times> key_error option" where
  "fileDelete w ctx fs =
     (case readTokenFile w fs of
        Inl e \<Rightarrow> (fs, Some e)
      | Inr (m, path) \<Rightarrow>
          (case map_of m ctx of
             None \<Rightarrow> (fs, None)
           | Some _ \<Rightarrow>
               (let m1 = AList.delete ctx m in
                if m1 = [] then (if kw_remove w path then (fs(path := Absent), None) else (fs, Some Removing))
                else writeTokenFile w path m1 fs)))"

section \<open>Storing, retrieving, deleting\<close>

definition Store :: "key_world \<Rightarrow> string \<Rightarrow> StoredToken \<Rightarrow> key_store \<Rightarrow> key_store \<times> key_error option" where
  "Store w ctx token s =
     (case kw_token_json w token of
        None \<Rightarrow> (s, Some Marshaling)
      | Some data \<Rightarrow>
          if kw_ring_set w ctx data then (s\<lparr>ks_ring := (ks_ring s)(ctx \<mapsto> data)\<rparr>, None)
          else (case fileStore w ctx token (ks_files s) of (fs, e) \<Rightarrow> (s\<lparr>ks_files := fs\<rparr>, e)))"

definition bestToken :: "StoredToken option \<Rightarrow> StoredToken option \<Rightarrow> StoredToken option" where
  "bestToken a b =
     (case a of
        None \<Rightarrow> b
      | Some ta \<Rightarrow>
          (case b of
             None \<Rightarrow> a
           | Some tb \<Rightarrow>
               (let aHas = (s_RefreshToken ta \<noteq> []); bHas = (s_RefreshToken tb \<noteq> []) in
                if aHas \<and> \<not> bHas then a
                else if bHas \<and> \<not> aHas then b
                else if after (s_ExpiresAt tb) (s_ExpiresAt ta) then b else a)))"

definition ring_token :: "key_world \<Rightarrow> string \<Rightarrow> key_store \<Rightarrow> StoredToken option" where
  "ring_token w ctx s =
     (if kw_ring_get w ctx then (case ks_ring s ctx of None \<Rightarrow> None | Some data \<Rightarrow> kw_json_token w data) else None)"

definition file_token :: "key_world \<Rightarrow> string \<Rightarrow> key_store \<Rightarrow> StoredToken option" where
  "file_token w ctx s = (case fileRetrieve w ctx (ks_files s) of Inl e \<Rightarrow> None | Inr t \<Rightarrow> t)"

definition Retrieve :: "key_world \<Rightarrow> string \<Rightarrow> key_store \<Rightarrow> StoredToken option" where
  "Retrieve w ctx s = bestToken (ring_token w ctx s) (file_token w ctx s)"

text \<open>Both deletions are tried; their errors are logged and dropped.\<close>

definition Delete :: "key_world \<Rightarrow> string \<Rightarrow> key_store \<Rightarrow> key_store" where
  "Delete w ctx s =
     (let ring = (if kw_ring_delete w ctx then (ks_ring s)(ctx := None) else ks_ring s)
      in s\<lparr>ks_ring := ring, ks_files := fst (fileDelete w ctx (ks_files s))\<rparr>)"

section \<open>The order on tokens\<close>

text \<open>With a refresh token before without, then by expiry.\<close>

definition no_better :: "StoredToken \<Rightarrow> StoredToken \<Rightarrow> bool" where
  "no_better a b \<longleftrightarrow>
     (s_RefreshToken a = [] \<and> s_RefreshToken b \<noteq> []) \<or>
     ((s_RefreshToken a = []) = (s_RefreshToken b = []) \<and> s_ExpiresAt a \<le> s_ExpiresAt b)"

lemma no_better_refl [simp]: "no_better a a"
  by (simp add: no_better_def)

lemma no_better_trans: "no_better a b \<Longrightarrow> no_better b c \<Longrightarrow> no_better a c"
  by (auto simp: no_better_def)

lemma no_better_linear: "no_better a b \<or> no_better b a"
  by (auto simp: no_better_def)

lemma bestToken_upper:
  assumes "x = a \<or> x = b" and "x = Some t"
  shows "\<exists>u. bestToken a b = Some u \<and> no_better t u"
  using assms by (cases a; cases b) (auto simp: bestToken_def no_better_def Let_def)

lemma bestToken_choice: "bestToken a b = a \<or> bestToken a b = b"
  by (cases a; cases b) (auto simp: bestToken_def Let_def)

lemma bestToken_None: "bestToken a b = None \<longleftrightarrow> a = None \<and> b = None"
  by (cases a; cases b) (auto simp: bestToken_def Let_def)

section \<open>What a store leaves behind\<close>

text \<open>The laws of the encoders: what was encoded decodes to itself.\<close>

definition encoders_agree :: "key_world \<Rightarrow> bool" where
  "encoders_agree w \<longleftrightarrow>
     (\<forall>t data. kw_token_json w t = Some data \<longrightarrow> kw_json_token w data = Some t) \<and>
     (\<forall>m data. kw_map_json w m = Some data \<longrightarrow> kw_json_map w data = Some m)"

lemma readTokenFile_path: "readTokenFile w fs = Inr (m, path) \<Longrightarrow> cacheFilePath w = Inr path"
  by (auto simp: readTokenFile_def split: sum.splits option.splits read_error.splits)

lemma readTokenFile_written:
  assumes "cacheFilePath w = Inr path" and "encoders_agree w"
    and "writeTokenFile w path m fs = (fs', None)"
  shows "readTokenFile w fs' = Inr (m, path)"
proof -
  obtain data where "kw_map_json w m = Some data" "fs' = fs(path := Contents data)"
    using assms(3) by (auto simp: writeTokenFile_def write_file_def split: if_splits option.splits write_outcome.splits)
  with assms(1,2) show ?thesis by (auto simp: readTokenFile_def read_file_def encoders_agree_def)
qed

text \<open>The cache is one file of the disk: nothing else is read or written.\<close>

lemma writeTokenFile_frame:
  "p \<noteq> path \<Longrightarrow> fst (writeTokenFile w path m fs) p = fs p"
  by (auto simp: writeTokenFile_def write_file_def split: option.split write_outcome.split)

lemma readTokenFile_cong:
  "cacheFilePath w = Inr path \<Longrightarrow> fs' path = fs path \<Longrightarrow> readTokenFile w fs' = readTokenFile w fs"
  by (simp add: readTokenFile_def read_file_def)

definition cached_map :: "key_world \<Rightarrow> file_system \<Rightarrow> string \<Rightarrow> key_error + tokenMap" where
  "cached_map w fs path = map_sum id fst (readTokenFile w fs)"

interpretation cache_file: file_store "\<lambda>w p. encoders_agree w \<and> cacheFilePath w = Inr p" cached_map writeTokenFile "\<lambda>p. {}"
  by unfold_locales
    (auto simp: cached_map_def readTokenFile_written writeTokenFile_frame dest: readTokenFile_cong)

lemma fileRetrieve_cached:
  "fileRetrieve w ctx fs =
     map_sum id (\<lambda>m. case map_of m ctx of None \<Rightarrow> None | Some t \<Rightarrow> t) (cached_map w fs path)"
  by (auto simp: fileRetrieve_def cached_map_def split: sum.split option.split)

lemma fileStore_retrieve:
  assumes "fileStore w ctx token fs = (fs', None)" and "encoders_agree w"
  shows "fileRetrieve w ctx' fs' = (if ctx' = ctx then Inr (Some token) else fileRetrieve w ctx' fs)"
proof -
  obtain m path where r: "readTokenFile w fs = Inr (m, path)"
    and wr: "writeTokenFile w path (AList.update ctx (Some token) m) fs = (fs', None)"
    using assms(1) by (auto simp: fileStore_def split: sum.splits)
  have m: "cached_map w fs path = Inr m" using r by (simp add: cached_map_def)
  have "cached_map w fs' path = map_sum id (AList.update ctx (Some token)) (cached_map w fs path)"
    using readTokenFile_path [OF r] assms(2) by (intro cache_file.load_changed [where f = "AList.update ctx (Some token)", OF _ m wr]) simp
  then show ?thesis by (simp add: fileRetrieve_cached [of w _ _ path] m map_of_update_eq)
qed

lemma Store_tokens:
  assumes "Store w ctx token s = (s', None)" and "encoders_agree w" and "kw_ring_get w ctx"
  shows "(ring_token w ctx s' = Some token \<and> file_token w ctx s' = file_token w ctx s) \<or>
    (file_token w ctx s' = Some token \<and> ring_token w ctx s' = ring_token w ctx s)"
proof -
  obtain data where data: "kw_token_json w token = Some data"
    using assms(1) by (auto simp: Store_def split: option.splits)
  show ?thesis
  proof (cases "kw_ring_set w ctx data")
    case True
    with assms data have "s' = s\<lparr>ks_ring := (ks_ring s)(ctx \<mapsto> data)\<rparr>" by (simp add: Store_def)
    with assms(2,3) data show ?thesis by (auto simp: ring_token_def file_token_def encoders_agree_def)
  next
    case False
    obtain fs e where fs: "fileStore w ctx token (ks_files s) = (fs, e)" by fastforce
    with False assms(1) data have "s' = s\<lparr>ks_files := fs\<rparr>" "e = None" by (simp_all add: Store_def)
    with fs fileStore_retrieve [of w ctx token "ks_files s" fs ctx] assms(2) show ?thesis
      by (simp add: ring_token_def file_token_def)
  qed
qed

text \<open>A deletion that meets no error.\<close>

lemma fileDelete_retrieve:
  assumes "fileDelete w ctx fs = (fs', None)" and "encoders_agree w"
  shows "fileRetrieve w ctx' fs' = (if ctx' = ctx then Inr None else fileRetrieve w ctx' fs)"
proof -
  obtain m path where r: "readTokenFile w fs = Inr (m, path)"
    using assms(1) by (auto simp: fileDelete_def split: sum.splits)
  note path = readTokenFile_path [OF r]
  show ?thesis
  proof (cases "map_of m ctx")
    case None
    with r assms(1) show ?thesis by (auto simp: fileDelete_def fileRetrieve_def)
  next
    case (Some t)
    show ?thesis
    proof (cases "AList.delete ctx m = []")
      case True
      with r Some assms(1) have "fs' = fs(path := Absent)" by (auto simp: fileDelete_def split: if_splits)
      with path have "readTokenFile w fs' = Inr ([], path)" by (simp add: readTokenFile_def read_file_def)
      moreover have "map_of m k = None" if "k \<noteq> ctx" for k
        using True that map_of_delete_eq [of ctx m k] by simp
      ultimately show ?thesis using r by (simp add: fileRetrieve_def)
    next
      case False
      with r Some assms(1) have wr: "writeTokenFile w path (AList.delete ctx m) fs = (fs', None)"
        by (simp add: fileDelete_def)
      have m: "cached_map w fs path = Inr m" using r by (simp add: cached_map_def)
      have "cached_map w fs' path = map_sum id (AList.delete ctx) (cached_map w fs path)"
        using path assms(2) by (intro cache_file.load_changed [where f = "AList.delete ctx", OF _ m wr]) simp
      then show ?thesis by (simp add: fileRetrieve_cached [of w _ _ path] m map_of_delete_eq)
    qed
  qed
qed

lemma Delete_retrieve:
  assumes "kw_ring_delete w ctx" and "snd (fileDelete w ctx (ks_files s)) = None" and "encoders_agree w"
  shows "Retrieve w ctx' (Delete w ctx s) = (if ctx' = ctx then None else Retrieve w ctx' s)"
proof -
  have "fileDelete w ctx (ks_files s) = (fst (fileDelete w ctx (ks_files s)), None)"
    using assms(2) by (simp add: prod_eq_iff)
  note filed = fileDelete_retrieve [OF this assms(3)]
  show ?thesis
    using assms(1)
    by (simp add: Retrieve_def ring_token_def file_token_def Delete_def Let_def filed bestToken_None)
qed

lemma Delete_files:
  assumes "cacheFilePath w = Inr cache" and "p \<noteq> cache"
  shows "ks_files (Delete w ctx s) p = ks_files s p"
proof (cases "readTokenFile w (ks_files s)")
  case (Inl e)
  then show ?thesis by (simp add: Delete_def fileDelete_def Let_def)
next
  case (Inr r)
  moreover obtain m path where "r = (m, path)" by fastforce
  ultimately have r: "readTokenFile w (ks_files s) = Inr (m, path)" by simp
  with assms readTokenFile_path have "p \<noteq> path" by fastforce
  with r show ?thesis by (simp add: Delete_def fileDelete_def Let_def writeTokenFile_frame split: option.split)
qed

lemma Retrieve_cong:
  assumes "cacheFilePath w = Inr cache" and "ks_ring s' = ks_ring s" and "ks_files s' cache = ks_files s cache"
  shows "Retrieve w ctx s' = Retrieve w ctx s"
  using assms by (simp add: Retrieve_def ring_token_def file_token_def fileRetrieve_def readTokenFile_def read_file_def)

section \<open>Properties\<close>


text \<open>A keyring that refuses, an empty file, and tokens encoded by their identity token alone.\<close>

definition demo_stored :: StoredToken where
  "demo_stored = \<lparr>s_AccessToken = [], s_RefreshToken = ''r'', s_IDToken = ''id'', s_ExpiresAt = 100, s_Issuer = [],
     s_ClientID = []\<rparr>"

definition demo_keys :: key_world where
  "demo_keys =
     \<lparr>kw_ring_set = (\<lambda>c d. False), kw_ring_get = (\<lambda>c. True), kw_ring_delete = (\<lambda>c. True),
      kw_config_dir = Some ''/home/u/.config'', kw_home = None, kw_mkdir = (\<lambda>d. True), kw_write = (\<lambda>p. Written),
      kw_remove = (\<lambda>p. True),
      kw_token_json = (\<lambda>t. if t = demo_stored then Some ''T'' else None),
      kw_json_token = (\<lambda>d. if d = ''T'' then Some demo_stored else None),
      kw_map_json = (\<lambda>m. if m = [(''oidc'', Some demo_stored)] then Some ''M'' else None),
      kw_json_map = (\<lambda>d. if d = ''M'' then Some [(''oidc'', Some demo_stored)] else None)\<rparr>"

definition demo_empty :: key_store where
  "demo_empty = \<lparr>ks_ring = Map.empty, ks_files = (\<lambda>p. Absent)\<rparr>"

lemma demo_encoders: "encoders_agree demo_keys"
  by (simp add: encoders_agree_def demo_keys_def)

lemma demo_store_works: "\<exists>s'. Store demo_keys ''oidc'' demo_stored demo_empty = (s', None)"
  by (simp add: Store_def demo_keys_def demo_empty_def fileStore_def readTokenFile_def cacheFilePath_def cacheDir_def
      read_file_def writeTokenFile_def write_file_def)


end
