(* ===== verification/TalosConfig.thy ===== *)
theory TalosConfig
  imports Http Encoding GoFiles
begin

text \<open>
  \<^verbatim>\<open>pkg/talosconfig\<close>: reading, changing and replacing the talosconfig file, and the expiry of
  the certificate in a context. YAML, PEM and X.509 are parameters.
\<close>

section \<open>The file's structure\<close>

record Context =
  Endpoints :: "string list"
  Nodes :: "string list"
  CA :: string
  Crt :: string
  Key :: string

text \<open>A Go map of pointers: a \<^verbatim>\<open>null\<close> in the file is a nil pointer.\<close>

record TConfig =
  tc_Context :: string
  tc_Contexts :: "(string \<times> Context option) list"

record talos_world =
  tw_home :: "string option"
  tw_parse :: "string \<Rightarrow> TConfig option" \<comment> \<open>a missing or null map is the empty one\<close>
  tw_print :: "TConfig \<Rightarrow> string option"
  tw_pem :: "string \<Rightarrow> (string \<times> string \<times> string) option" \<comment> \<open>type, bytes and rest of the first block\<close>
  tw_x509 :: "string \<Rightarrow> time option"
  tw_mkdir :: "string \<Rightarrow> bool"
  tw_write :: "string \<Rightarrow> write_outcome"
  tw_rename :: "string \<Rightarrow> bool"
  tw_remove :: "string \<Rightarrow> bool"

datatype talos_error = NoHome | ReadingConfig | ParsingConfig | CreatingConfigDir | PrintingConfig | WritingTmp
  | Replacing | EmptyCA | EmptyCert | EmptyKey

definition DefaultPath :: "talos_world \<Rightarrow> talos_error + string" where
  "DefaultPath w =
     (case tw_home w of None \<Rightarrow> Inl NoHome | Some home \<Rightarrow> Inr (Join (Join home ''.talos'') ''config''))"

definition LoadConfig :: "talos_world \<Rightarrow> file_system \<Rightarrow> string \<Rightarrow> talos_error + TConfig" where
  "LoadConfig w fs path =
     (case read_file fs path of
        Inl NotExist \<Rightarrow> Inr \<lparr>tc_Context = [], tc_Contexts = []\<rparr>
      | Inl OtherError \<Rightarrow> Inl ReadingConfig
      | Inr data \<Rightarrow> (case tw_parse w data of None \<Rightarrow> Inl ParsingConfig | Some c \<Rightarrow> Inr c))"

text \<open>
  Saving by writing a temporary file and renaming it. The states the disk goes through
  are a list, oldest first; a crash leaves one of them.
\<close>

definition save_steps :: "talos_world \<Rightarrow> string \<Rightarrow> TConfig \<Rightarrow> file_system \<Rightarrow> file_system list \<times> talos_error option" where
  "save_steps w path c fs =
     (if \<not> tw_mkdir w (Dir path) then ([fs], Some CreatingConfigDir)
      else case tw_print w c of
        None \<Rightarrow> ([fs], Some PrintingConfig)
      | Some data \<Rightarrow>
          (let tmp = path @ ''.tmp'' in
           case write_file (tw_write w) tmp data fs of
             (fs1, False) \<Rightarrow> ([fs, fs1], Some WritingTmp)
           | (fs1, True) \<Rightarrow>
               if tw_rename w path then ([fs, fs1, fs1(path := fs1 tmp, tmp := Absent)], None)
               else ([fs, fs1, if tw_remove w tmp then fs1(tmp := Absent) else fs1], Some Replacing)))"

definition SaveConfig :: "talos_world \<Rightarrow> string \<Rightarrow> TConfig \<Rightarrow> file_system \<Rightarrow> file_system \<times> talos_error option" where
  "SaveConfig w path c fs = (case save_steps w path c fs of (fss, e) \<Rightarrow> (last fss, e))"

section \<open>The certificate of a context\<close>

datatype expiry_error = NoCertificate | BadBase64 | NoPEM | BadX509

text \<open>
  The first block of type \<^verbatim>\<open>CERTIFICATE\<close>; every block takes some of the data, so the number
  of rounds is bounded by its length.
\<close>

fun find_certificate :: "talos_world \<Rightarrow> nat \<Rightarrow> string \<Rightarrow> string option" where
  "find_certificate w 0 rest = None"
| "find_certificate w (Suc n) rest =
     (if rest = [] then None
      else case tw_pem w rest of
        None \<Rightarrow> None
      | Some (ty, bytes, rest') \<Rightarrow> if ty = ''CERTIFICATE'' then Some bytes else find_certificate w n rest')"

definition GetCertificateExpiry :: "talos_world \<Rightarrow> Context \<Rightarrow> expiry_error + time" where
  "GetCertificateExpiry w c =
     (if Crt c = [] then Inl NoCertificate
      else case StdEncoding_Decode (Crt c) of
        None \<Rightarrow> Inl BadBase64
      | Some decoded \<Rightarrow>
          (case find_certificate w (length decoded) decoded of
             None \<Rightarrow> Inl NoPEM
           | Some bytes \<Rightarrow> (case tw_x509 w bytes of None \<Rightarrow> Inl BadX509 | Some notAfter \<Rightarrow> Inr notAfter)))"

definition IsCertificateExpired :: "talos_world \<Rightarrow> Context \<Rightarrow> duration \<Rightarrow> time \<Rightarrow> bool" where
  "IsCertificateExpired w c threshold now =
     (case GetCertificateExpiry w c of Inl e \<Rightarrow> True | Inr expiry \<Rightarrow> after (now + threshold) expiry)"

section \<open>Changing contexts\<close>

definition pem_context :: "string list \<Rightarrow> string \<Rightarrow> string \<Rightarrow> string \<Rightarrow> Context" where
  "pem_context endpoints caPEM certPEM keyPEM =
     \<lparr>Endpoints = endpoints, Nodes = [], CA = StdEncoding_Encode (trim_space caPEM),
      Crt = StdEncoding_Encode (trim_space certPEM), Key = StdEncoding_Encode (trim_space keyPEM)\<rparr>"

definition SetContextFromPEM ::
  "TConfig \<Rightarrow> string \<Rightarrow> string list \<Rightarrow> string \<Rightarrow> string \<Rightarrow> string \<Rightarrow> talos_error + TConfig" where
  "SetContextFromPEM c name endpoints caPEM certPEM keyPEM =
     (if caPEM = [] then Inl EmptyCA
      else if certPEM = [] then Inl EmptyCert
      else if keyPEM = [] then Inl EmptyKey
      else Inr (c\<lparr>tc_Contexts := AList.update name (Some (pem_context endpoints caPEM certPEM keyPEM)) (tc_Contexts c),
                  tc_Context := name\<rparr>))"

definition RemoveContext :: "TConfig \<Rightarrow> string \<Rightarrow> TConfig" where
  "RemoveContext c name =
     (let c1 = c\<lparr>tc_Contexts := AList.delete name (tc_Contexts c)\<rparr>
      in if tc_Context c1 = name then c1\<lparr>tc_Context := []\<rparr> else c1)"

definition HasContext :: "TConfig \<Rightarrow> string \<Rightarrow> bool" where
  "HasContext c name \<longleftrightarrow> map_of (tc_Contexts c) name \<noteq> None"

section \<open>Loading what was saved\<close>

definition yaml_agrees :: "talos_world \<Rightarrow> bool" where
  "yaml_agrees w \<longleftrightarrow> (\<forall>c data. tw_print w c = Some data \<longrightarrow> tw_parse w data = Some c)"

lemma tmp_other: "path @ ''.tmp'' \<noteq> path"
  by simp

lemma SaveConfig_ok:
  assumes "SaveConfig w path c fs = (fs', None)"
  obtains data where "tw_print w c = Some data" "fs' = fs(path := Contents data, path @ ''.tmp'' := Absent)"
  using assms tmp_other [of path]
  by (auto simp: SaveConfig_def save_steps_def write_file_def Let_def fun_upd_twist
      split: if_splits option.splits write_outcome.splits)

lemma LoadConfig_saved:
  assumes "SaveConfig w path c fs = (fs', None)" and "yaml_agrees w"
  shows "LoadConfig w fs' path = Inr c"
proof -
  obtain data where "tw_print w c = Some data" "fs' = fs(path := Contents data, path @ ''.tmp'' := Absent)"
    using assms(1) by (rule SaveConfig_ok)
  with assms(2) show ?thesis by (simp add: LoadConfig_def read_file_def yaml_agrees_def)
qed

lemma SaveConfig_frame:
  "q \<noteq> path \<Longrightarrow> q \<noteq> path @ ''.tmp'' \<Longrightarrow> fst (SaveConfig w path c fs) q = fs q"
  by (cases "tw_write w (path @ ''.tmp'')")
    (auto simp: SaveConfig_def save_steps_def write_file_def Let_def split: option.split)

interpretation talos_file: file_store "\<lambda>w p. yaml_agrees w" LoadConfig SaveConfig "\<lambda>p. {p @ ''.tmp''}"
  by unfold_locales (simp_all add: LoadConfig_saved SaveConfig_frame, simp add: LoadConfig_def read_file_def)

lemma SetContext_lookup:
  assumes "SetContextFromPEM c name endpoints caPEM certPEM keyPEM = Inr c'"
  shows "tc_Context c' = name \<and> map_of (tc_Contexts c') name = Some (Some (pem_context endpoints caPEM certPEM keyPEM)) \<and>
    (\<forall>k. k \<noteq> name \<longrightarrow> map_of (tc_Contexts c') k = map_of (tc_Contexts c) k)"
  using assms by (auto simp: SetContextFromPEM_def map_of_update_eq split: if_splits)

lemma RemoveContext_lookup:
  "map_of (tc_Contexts (RemoveContext c name)) k = (if k = name then None else map_of (tc_Contexts c) k)"
  "tc_Context (RemoveContext c name) = (if tc_Context c = name then [] else tc_Context c)"
  by (simp_all add: RemoveContext_def Let_def map_of_delete_eq)

lemma pem_context_decodes:
  "StdEncoding_Decode (CA (pem_context eps ca crt key)) = Some (trim_space ca)"
  "StdEncoding_Decode (Crt (pem_context eps ca crt key)) = Some (trim_space crt)"
  "StdEncoding_Decode (Key (pem_context eps ca crt key)) = Some (trim_space key)"
  by (simp_all add: pem_context_def StdEncoding_Decode_def StdEncoding_Encode_def std64.decode_encode)

section \<open>Properties\<close>

text \<open>
  C29. Saving is atomic: at every moment of a save, and whatever fails or is cut off, the
  talosconfig is the one from before or, in the end, all of the new one; other files stay
  as they are but for the temporary one.
\<close>

theorem save_is_atomic:
  assumes "save_steps w path c fs = (fss, e)" and "fs' \<in> set fss"
  shows "(fs' path = fs path \<or> (\<exists>data. e = None \<and> tw_print w c = Some data \<and> fs' path = Contents data)) \<and>
    (\<forall>p. p \<noteq> path \<longrightarrow> p \<noteq> path @ ''.tmp'' \<longrightarrow> fs' p = fs p) \<and>
    (e = None \<longrightarrow> (\<exists>data. tw_print w c = Some data \<and> last fss path = Contents data))"
proof (cases "tw_mkdir w (Dir path)")
  case False
  with assms show ?thesis by (auto simp: save_steps_def)
next
  case True
  show ?thesis
  proof (cases "tw_print w c")
    case None
    with True assms show ?thesis by (auto simp: save_steps_def)
  next
    case (Some data)
    show ?thesis
      using True Some assms
      by (cases "tw_write w (path @ ''.tmp'')") (auto simp: save_steps_def write_file_def Let_def split: if_splits)
  qed
qed

text \<open>
  What a login writes is what is read back: after setting a context and a save that
  succeeded, loading the file gives the same contexts as before but for that one, which
  is current, has the endpoints, and decodes to the PEM texts the server sent, without
  the blanks around them.
\<close>

theorem context_roundtrip:
  assumes "LoadConfig w fs path = Inr c" and "SetContextFromPEM c name endpoints ca crt key = Inr c1"
    and "SaveConfig w path c1 fs = (fs', None)" and "yaml_agrees w"
  shows "\<exists>c2 ctx. LoadConfig w fs' path = Inr c2 \<and> tc_Context c2 = name \<and>
    map_of (tc_Contexts c2) name = Some (Some ctx) \<and> Endpoints ctx = endpoints \<and>
    StdEncoding_Decode (CA ctx) = Some (trim_space ca) \<and> StdEncoding_Decode (Crt ctx) = Some (trim_space crt) \<and>
    StdEncoding_Decode (Key ctx) = Some (trim_space key) \<and>
    (\<forall>k. k \<noteq> name \<longrightarrow> map_of (tc_Contexts c2) k = map_of (tc_Contexts c) k)"
proof -
  have "LoadConfig w fs' path = Inr c1" using assms(4,3) by (rule talos_file.load_saved)
  moreover have "Endpoints (pem_context endpoints ca crt key) = endpoints" by (simp add: pem_context_def)
  ultimately show ?thesis
    using SetContext_lookup [OF assms(2)] pem_context_decodes [of endpoints ca crt key] by blast
qed

text \<open>A talosconfig whose text names its current context.\<close>

definition demo_ctx :: TConfig where
  "demo_ctx = \<lparr>tc_Context = ''oidc'', tc_Contexts = [(''oidc'', Some (pem_context [''10.0.0.1''] ''ca'' ''crt'' ''key''))]\<rparr>"

definition demo_talos :: talos_world where
  "demo_talos =
     \<lparr>tw_home = Some ''/home/u'', tw_parse = (\<lambda>d. if d = ''Y'' then Some demo_ctx else None),
      tw_print = (\<lambda>c. if c = demo_ctx then Some ''Y'' else None), tw_pem = (\<lambda>d. Some (''CERTIFICATE'', d, [])),
      tw_x509 = (\<lambda>b. Some 1000), tw_mkdir = (\<lambda>d. True), tw_write = (\<lambda>p. Written), tw_rename = (\<lambda>p. True),
      tw_remove = (\<lambda>p. True)\<rparr>"

lemma demo_set: "SetContextFromPEM \<lparr>tc_Context = [], tc_Contexts = []\<rparr> ''oidc'' [''10.0.0.1''] ''ca'' ''crt'' ''key'' = Inr demo_ctx"
  by (simp add: SetContextFromPEM_def demo_ctx_def)

lemma demo_save:
  obtains fs' where "SaveConfig demo_talos ''/t'' demo_ctx (\<lambda>p. Absent) = (fs', None)"
    "save_steps demo_talos ''/t'' demo_ctx (\<lambda>p. Absent) = ([\<lambda>p. Absent, (\<lambda>p. Absent)(''/t.tmp'' := Contents ''Y''), fs'], None)"
  by (simp add: SaveConfig_def save_steps_def demo_talos_def write_file_def Let_def)

theorem save_is_atomic_witness:
  "\<exists>fs'. SaveConfig demo_talos ''/t'' demo_ctx (\<lambda>p. Absent) = (fs', None) \<and>
     (\<exists>data. tw_print demo_talos demo_ctx = Some data \<and> fs' ''/t'' = Contents data)"
proof -
  obtain fs' where s: "SaveConfig demo_talos ''/t'' demo_ctx (\<lambda>p. Absent) = (fs', None)"
    "save_steps demo_talos ''/t'' demo_ctx (\<lambda>p. Absent) = ([\<lambda>p. Absent, (\<lambda>p. Absent)(''/t.tmp'' := Contents ''Y''), fs'], None)"
    by (rule demo_save)
  from save_is_atomic [OF s(2), of fs'] s(1) show ?thesis by auto
qed

theorem context_roundtrip_witness:
  "\<exists>fs' c2 ctx. SaveConfig demo_talos ''/t'' demo_ctx (\<lambda>p. Absent) = (fs', None) \<and>
     LoadConfig demo_talos fs' ''/t'' = Inr c2 \<and> map_of (tc_Contexts c2) ''oidc'' = Some (Some ctx) \<and>
     StdEncoding_Decode (Crt ctx) = Some (trim_space ''crt'')"
proof -
  obtain fs' where s: "SaveConfig demo_talos ''/t'' demo_ctx (\<lambda>p. Absent) = (fs', None)"
    by (rule demo_save)
  have l: "LoadConfig demo_talos (\<lambda>p. Absent) ''/t'' = Inr \<lparr>tc_Context = [], tc_Contexts = []\<rparr>"
    by (simp add: LoadConfig_def read_file_def)
  have y: "yaml_agrees demo_talos" by (simp add: yaml_agrees_def demo_talos_def)
  from context_roundtrip [OF l demo_set s y] s show ?thesis by blast
qed

end
