(* ===== verification/Login.thy ===== *)
theory Login
  imports Auth Keychain TalosConfig
begin

text \<open>
  \<^verbatim>\<open>cmd/login.go\<close>, \<^verbatim>\<open>cmd/logout.go\<close> and \<^verbatim>\<open>cmd/status.go\<close>: the commands of the client, on the
  token cache and the talosconfig. A round of the login loop is one function; the loop is
  driven by the list of surroundings its rounds find, so a run of \<open>--watch\<close> is a list that
  has not ended yet. Token cache and talosconfig share one disk.
\<close>

section \<open>Flags and surroundings\<close>

record login_flags =
  lf_provider :: string
  lf_clientID :: string
  lf_clientSecret :: string
  lf_scopes :: "string list"
  lf_callbackPort :: int
  lf_listenAddrs :: "string list"
  lf_redirectURL :: string
  lf_localCert :: string
  lf_localKey :: string
  lf_serverURL :: string
  lf_contextName :: string
  lf_talosconfig :: string
  lf_serverCA :: string
  lf_insecure :: bool
  lf_watch :: bool
  lf_skipOpenBrowser :: bool
  lf_browserCommand :: string
  lf_deviceCode :: bool

record CertResponse =
  resp_CA :: string
  resp_Cert :: string
  resp_Key :: string
  resp_Endpoints :: "string list"
  resp_TTL :: int

text \<open>Which certificates the client accepts from the exchange server.\<close>

datatype tls_trust = AnyCertificate | OnlyCA string | SystemPool

datatype login_error =
    NotAuthenticated auth_error
  | NoIDToken
  | PlainHTTP
  | ReadingServerCA
  | ParsingServerCA
  | BadServerURL
  | Contacting
  | ReadingAnswer
  | ServerReturned nat string
  | DecodingAnswer
  | TalosFailed talos_error

text \<open>When a round reads the clock, apart from the reading in \<open>newStoredToken\<close>.\<close>

datatype moment = Checking | Waiting | Using | Polling | Refreshed

text \<open>
  \<open>lw_client\<close> is \<^verbatim>\<open>Client.Do\<close> on a POST of JSON with the body read to its end: no answer, or
  a status and a body whose reading may fail.
\<close>

record login_world =
  lw_clock :: "moment \<Rightarrow> time"
  lw_auth :: auth_world
  lw_pick :: bool
  lw_early :: "arrival list"
  lw_late :: "arrival list"
  lw_fuel :: nat
  lw_poll :: poll_world
  lw_device_json :: "string \<Rightarrow> DeviceAuth option"
  lw_error_json :: "string \<Rightarrow> (string \<times> string) option"
  lw_keys :: key_world
  lw_talos :: talos_world
  lw_pool :: "string \<Rightarrow> bool" \<comment> \<open>a CA certificate is found in the PEM text\<close>
  lw_url_ok :: "string \<Rightarrow> bool"
  lw_marshal :: "string \<Rightarrow> string" \<comment> \<open>the request's JSON for a token\<close>
  lw_client :: "tls_trust \<Rightarrow> string \<Rightarrow> string \<Rightarrow> (nat \<times> string option) option"
  lw_error_text :: "string \<Rightarrow> string option"
  lw_cert_json :: "string \<Rightarrow> CertResponse option"

section \<open>Paths, addresses, browsers\<close>

definition expandHome :: "string option \<Rightarrow> string \<Rightarrow> string" where
  "expandHome home path =
     (if path \<noteq> ''~'' \<and> \<not> has_prefix path ''~/'' then path
      else case home of
        None \<Rightarrow> path
      | Some h \<Rightarrow> (let rest = trim_prefix path ''~'' in if rest = [] then Clean h else Join h rest))"

definition callbackListenAddresses :: "login_flags \<Rightarrow> string list" where
  "callbackListenAddresses f =
     (if lf_listenAddrs f \<noteq> [] then lf_listenAddrs f else [''127.0.0.1:'' @ dec_int (lf_callbackPort f)])"

text \<open>The command and its arguments; \<open>None\<close> on a platform without a known opener.\<close>

definition browserCommand :: "string \<Rightarrow> login_flags \<Rightarrow> string \<Rightarrow> string list option" where
  "browserCommand goos f url =
     (if lf_browserCommand f \<noteq> [] then Some [lf_browserCommand f, url]
      else if goos = ''darwin'' then Some [''open'', url]
      else if goos = ''linux'' then Some [''xdg-open'', url]
      else if goos = ''windows'' then Some [''rundll32'', ''url.dll,FileProtocolHandler'', url]
      else None)"

text \<open>What is started, if anything; the flag is whether the caller is told of a failure.\<close>

definition openBrowser :: "string \<Rightarrow> (string list \<Rightarrow> bool) \<Rightarrow> login_flags \<Rightarrow> string \<Rightarrow> string list option \<times> bool" where
  "openBrowser goos starts f url =
     (if lf_skipOpenBrowser f then (None, True)
      else case browserCommand goos f url of
        None \<Rightarrow> (None, False)
      | Some argv \<Rightarrow> if starts argv then (Some argv, True) else (None, False))"

section \<open>The identity token\<close>

definition refreshed_token :: "TokenResponse \<Rightarrow> StoredToken \<Rightarrow> time \<Rightarrow> StoredToken" where
  "refreshed_token r t now =
     \<lparr>s_AccessToken = AccessToken r,
      s_RefreshToken = (if RefreshToken r = [] then s_RefreshToken t else RefreshToken r),
      s_IDToken = IDToken r,
      s_ExpiresAt = (if ExpiresIn r = 0 then now + hour else now + wrap64 (ExpiresIn r * second)),
      s_Issuer = s_Issuer t, s_ClientID = s_ClientID t\<rparr>"

text \<open>The refresh: the cache after it, and the identity token when it brought one.\<close>

definition try_refresh :: "login_flags \<Rightarrow> login_world \<Rightarrow> StoredToken \<Rightarrow> key_store \<Rightarrow> key_store \<times> string option" where
  "try_refresh f w t s =
     (let a = lw_auth w in
      if \<not> HasRefreshToken t then (s, None)
      else case Discover (aw_get a) (aw_provider_json a) (s_Issuer t) of
        Inl e \<Rightarrow> (s, None)
      | Inr provider \<Rightarrow>
          (case RefreshAccessToken (aw_post a) (aw_token_json a) provider (s_ClientID t) (lf_clientSecret f)
                  (s_RefreshToken t) (lf_scopes f) of
             Inl e \<Rightarrow> (s, None)
           | Inr r \<Rightarrow>
               (let t1 = refreshed_token r t (lw_clock w Refreshed);
                    s1 = fst (Store (lw_keys w) (lf_contextName f) t1 s)
                in (s1, if s_IDToken t1 \<noteq> [] then Some (s_IDToken t1) else None))))"

definition auth_config :: "login_flags \<Rightarrow> AuthConfig" where
  "auth_config f =
     \<lparr>ac_IssuerURL = lf_provider f, ac_ClientID = lf_clientID f, ac_ClientSecret = lf_clientSecret f,
      ac_Scopes = lf_scopes f, ac_ListenAddresses = callbackListenAddresses f, ac_RedirectURL = lf_redirectURL f,
      ac_TLSCertFile = lf_localCert f, ac_TLSKeyFile = lf_localKey f\<rparr>"

definition authenticate :: "login_flags \<Rightarrow> login_world \<Rightarrow> (auth_error + StoredToken) option" where
  "authenticate f w =
     (if lf_deviceCode f
      then AuthenticateDevice (lw_fuel w) (lw_auth w) (lw_poll w) (lw_device_json w) (lw_error_json w)
             (lw_clock w Polling) (auth_config f)
      else Some (lo_result (Authenticate (lw_auth w) (lw_pick w) (lw_early w) (lw_late w) (auth_config f))))"

text \<open>\<open>None\<close>: the fuel for polling a device code has run out.\<close>

definition full_login :: "login_flags \<Rightarrow> login_world \<Rightarrow> key_store \<Rightarrow> (key_store \<times> (login_error + string)) option" where
  "full_login f w s =
     map_option (\<lambda>res. case res of
         Inl e \<Rightarrow> (s, Inl (NotAuthenticated e))
       | Inr t \<Rightarrow>
           (fst (Store (lw_keys w) (lf_contextName f) t s),
            if s_IDToken t = [] then Inl NoIDToken else Inr (s_IDToken t)))
       (authenticate f w)"

definition obtainIDToken :: "login_flags \<Rightarrow> login_world \<Rightarrow> key_store \<Rightarrow> (key_store \<times> (login_error + string)) option" where
  "obtainIDToken f w s =
     (case Retrieve (lw_keys w) (lf_contextName f) s of
        None \<Rightarrow> full_login f w s
      | Some t \<Rightarrow>
          if \<not> IsExpired t (lw_clock w Using) \<and> s_IDToken t \<noteq> [] then Some (s, Inr (s_IDToken t))
          else (case try_refresh f w t s of
                  (s1, Some idToken) \<Rightarrow> Some (s1, Inr idToken)
                | (s1, None) \<Rightarrow> full_login f w s1))"

section \<open>The exchange\<close>

definition buildHTTPClient :: "login_flags \<Rightarrow> login_world \<Rightarrow> file_system \<Rightarrow> login_error + tls_trust" where
  "buildHTTPClient f w fs =
     (if lf_insecure f then Inr AnyCertificate
      else if lf_serverCA f \<noteq> [] then
        (case read_file fs (lf_serverCA f) of
           Inl e \<Rightarrow> Inl ReadingServerCA
         | Inr caPEM \<Rightarrow> if lw_pool w caPEM then Inr (OnlyCA caPEM) else Inl ParsingServerCA)
      else Inr SystemPool)"

definition exchange_url :: "string \<Rightarrow> string" where
  "exchange_url serverURL = trim_right serverURL (CHR ''/'') @ ''/exchange''"

definition exchangeTokenForCert :: "login_world \<Rightarrow> tls_trust \<Rightarrow> string \<Rightarrow> string \<Rightarrow> login_error + CertResponse" where
  "exchangeTokenForCert w trust serverURL idToken =
     (let url = exchange_url serverURL in
      if \<not> lw_url_ok w url then Inl BadServerURL
      else case lw_client w trust url (lw_marshal w idToken) of
        None \<Rightarrow> Inl Contacting
      | Some (st, None) \<Rightarrow> Inl ReadingAnswer
      | Some (st, Some bdy) \<Rightarrow>
          if st \<noteq> StatusOK then
            (case lw_error_text w bdy of
               Some msg \<Rightarrow> if msg \<noteq> [] then Inl (ServerReturned st msg) else Inl (ServerReturned st bdy)
             | None \<Rightarrow> Inl (ServerReturned st bdy))
          else (case lw_cert_json w bdy of None \<Rightarrow> Inl DecodingAnswer | Some c \<Rightarrow> Inr c))"

section \<open>One round\<close>

datatype check = StillValid | WaitFor duration | Renew | NilContext

definition check_certificate :: "login_flags \<Rightarrow> login_world \<Rightarrow> string \<Rightarrow> file_system \<Rightarrow> check" where
  "check_certificate f w path fs =
     (case LoadConfig (lw_talos w) fs path of
        Inl e \<Rightarrow> Renew
      | Inr cfg \<Rightarrow>
          (case map_of (tc_Contexts cfg) (lf_contextName f) of
             None \<Rightarrow> Renew
           | Some None \<Rightarrow> NilContext
           | Some (Some c) \<Rightarrow>
               (case GetCertificateExpiry (lw_talos w) c of
                  Inl e \<Rightarrow> Renew
                | Inr expiry \<Rightarrow>
                    if \<not> IsCertificateExpired (lw_talos w) c (5 * minute) (lw_clock w Checking) then
                      if \<not> lf_watch f then StillValid
                      else (let renewAt = expiry - 5 * minute; wait = renewAt - lw_clock w Waiting;
                                wait1 = (if minute < wait then minute else wait)
                            in WaitFor (if wait1 < 0 then 0 else wait1))
                    else Renew)))"

text \<open>\<open>Sleep\<close> is another round after that time; a nil context and a route registered twice panic.\<close>

datatype login_step = Done | Sleep duration | Failed login_error | Panics

definition write_context ::
  "login_flags \<Rightarrow> login_world \<Rightarrow> string \<Rightarrow> CertResponse \<Rightarrow> file_system \<Rightarrow> file_system \<times> talos_error option" where
  "write_context f w path c fs =
     (case LoadConfig (lw_talos w) fs path of
        Inl e \<Rightarrow> (fs, Some e)
      | Inr cfg \<Rightarrow>
          (case SetContextFromPEM cfg (lf_contextName f) (resp_Endpoints c) (resp_CA c) (resp_Cert c) (resp_Key c) of
             Inl e \<Rightarrow> (fs, Some e)
           | Inr cfg1 \<Rightarrow> SaveConfig (lw_talos w) path cfg1 fs))"

text \<open>Steps 2 and 3, with an identity token at hand.\<close>

definition install :: "login_flags \<Rightarrow> login_world \<Rightarrow> string \<Rightarrow> string \<Rightarrow> key_store \<Rightarrow> key_store \<times> login_step" where
  "install f w path idToken s =
     (case buildHTTPClient f w (ks_files s) of
        Inl e \<Rightarrow> (s, Failed e)
      | Inr trust \<Rightarrow>
          (case exchangeTokenForCert w trust (lf_serverURL f) idToken of
             Inl e \<Rightarrow> (s, if lf_watch f then Sleep minute else Failed e)
           | Inr cert \<Rightarrow>
               (case write_context f w path cert (ks_files s) of
                  (fs, Some e) \<Rightarrow> (s\<lparr>ks_files := fs\<rparr>, Failed (TalosFailed e))
                | (fs, None) \<Rightarrow> (s\<lparr>ks_files := fs\<rparr>, if lf_watch f then Sleep (10 * second) else Done))))"

text \<open>The guard on the scheme looks at the flag's text, which \<^verbatim>\<open>HTTP://\<close> passes.\<close>

definition plain_http_refused :: "login_flags \<Rightarrow> bool" where
  "plain_http_refused f \<longleftrightarrow> has_prefix (lf_serverURL f) ''http://'' \<and> \<not> lf_insecure f"

definition renew :: "login_flags \<Rightarrow> login_world \<Rightarrow> string \<Rightarrow> key_store \<Rightarrow> (key_store \<times> login_step) option" where
  "renew f w path s =
     (if plain_http_refused f then Some (s, Failed PlainHTTP)
      else case obtainIDToken f w s of
        None \<Rightarrow> None
      | Some (s1, Inl e) \<Rightarrow>
          Some (s1, if e = NotAuthenticated RoutePanic then Panics else if lf_watch f then Sleep minute else Failed e)
      | Some (s1, Inr idToken) \<Rightarrow> Some (install f w path idToken s1))"

definition login_round :: "login_flags \<Rightarrow> string \<Rightarrow> login_world \<Rightarrow> key_store \<Rightarrow> (key_store \<times> login_step) option" where
  "login_round f path w s =
     (case check_certificate f w path (ks_files s) of
        StillValid \<Rightarrow> Some (s, Done)
      | WaitFor d \<Rightarrow> Some (s, Sleep d)
      | NilContext \<Rightarrow> Some (s, Panics)
      | Renew \<Rightarrow> renew f w path s)"

section \<open>The commands\<close>

text \<open>The rounds as long as they ask for another one; the last step, if any was taken.\<close>

fun login_loop :: "login_flags \<Rightarrow> string \<Rightarrow> login_world list \<Rightarrow> key_store \<Rightarrow> (key_store \<times> login_step option) option" where
  "login_loop f path [] s = Some (s, None)"
| "login_loop f path (w # ws) s =
     (case login_round f path w s of
        None \<Rightarrow> None
      | Some (s1, Sleep d) \<Rightarrow> login_loop f path ws s1
      | Some (s1, x) \<Rightarrow> Some (s1, Some x))"

definition expand_flags :: "string option \<Rightarrow> login_flags \<Rightarrow> login_flags" where
  "expand_flags home f =
     f\<lparr>lf_talosconfig := expandHome home (lf_talosconfig f), lf_serverCA := expandHome home (lf_serverCA f),
       lf_localCert := expandHome home (lf_localCert f), lf_localKey := expandHome home (lf_localKey f)\<rparr>"

definition config_path :: "talos_world \<Rightarrow> string \<Rightarrow> talos_error + string" where
  "config_path w flag = (if flag = [] then DefaultPath w else Inr flag)"

definition runLogin :: "talos_world \<Rightarrow> login_flags \<Rightarrow> login_world list \<Rightarrow> key_store \<Rightarrow> (key_store \<times> login_step option) option" where
  "runLogin t0 f0 ws s =
     (let f = expand_flags (tw_home t0) f0 in
      case config_path t0 (lf_talosconfig f) of
        Inl e \<Rightarrow> Some (s, Some (Failed (TalosFailed e)))
      | Inr path \<Rightarrow> login_loop f path ws s)"

text \<open>Logging out: the error is that of the command, \<open>None\<close> for success.\<close>

definition runLogout :: "key_world \<Rightarrow> talos_world \<Rightarrow> string \<Rightarrow> string \<Rightarrow> key_store \<Rightarrow> key_store \<times> talos_error option" where
  "runLogout kw tw ctx flag s =
     (case config_path tw flag of
        Inl e \<Rightarrow> (s, Some e)
      | Inr path \<Rightarrow>
          (let s1 = Delete kw ctx s in
           case LoadConfig tw (ks_files s1) path of
             Inl e \<Rightarrow> (s1, Some e)
           | Inr cfg \<Rightarrow>
               if \<not> HasContext cfg ctx then (s1, None)
               else (case SaveConfig tw path (RemoveContext cfg ctx) (ks_files s1) of
                       (fs, e) \<Rightarrow> (s1\<lparr>ks_files := fs\<rparr>, e))))"

text \<open>
  The status command: the lines it prints. RFC 3339, quoting and the text of an error are
  the record \<open>status_texts\<close>; showing a nil context panics.
\<close>

record status_texts =
  st_time :: "time \<Rightarrow> string"
  st_quote :: "string \<Rightarrow> string"
  st_error :: "talos_error \<Rightarrow> string"

datatype status_result = NoPath talos_error | Report "string list" | ReportPanics "string list"

definition token_lines :: "status_texts \<Rightarrow> time \<Rightarrow> time \<Rightarrow> StoredToken option \<Rightarrow> string list" where
  "token_lines x now1 now2 t =
     (case t of
        None \<Rightarrow> [''Keychain:  no cached token'']
      | Some tok \<Rightarrow>
          [''Issuer:    '' @ s_Issuer tok, ''Client ID: '' @ s_ClientID tok,
           if IsExpired tok now1 then ''Status:    expired (at '' @ st_time x (s_ExpiresAt tok) @ '')''
           else ''Status:    valid (expires in '' @ Duration_String (Duration_Round (s_ExpiresAt tok - now2) second) @ '')'',
           if HasRefreshToken tok then ''Refresh:   available'' else ''Refresh:   not available''])"

definition context_lines :: "status_texts \<Rightarrow> TConfig \<Rightarrow> string \<Rightarrow> Context \<Rightarrow> string list" where
  "context_lines x cfg ctx c =
     [''Endpoints: ['' @ join '' '' (Endpoints c) @ '']'',
      if tc_Context cfg = ctx then ''Active:    yes (current context)''
      else ''Active:    no (current context is '' @ st_quote x (tc_Context cfg) @ '')'',
      if Crt c \<noteq> [] then ''Client cert: present'' else ''Client cert: missing'']"

definition runStatus ::
  "key_world \<Rightarrow> talos_world \<Rightarrow> status_texts \<Rightarrow> time \<Rightarrow> time \<Rightarrow> string \<Rightarrow> string \<Rightarrow> key_store \<Rightarrow> status_result" where
  "runStatus kw tw x now1 now2 ctx flag s =
     (case config_path tw flag of
        Inl e \<Rightarrow> NoPath e
      | Inr path \<Rightarrow>
          (let out = [''Context: '' @ ctx, [], ''--- OIDC Token ---''] @ token_lines x now1 now2 (Retrieve kw ctx s) @
                 [[], ''--- Talosconfig ---'', ''Path:      '' @ path]
           in case LoadConfig tw (ks_files s) path of
                Inl e \<Rightarrow> Report (out @ [''Status:    error loading ('' @ st_error x e @ '')''])
              | Inr cfg \<Rightarrow>
                  if \<not> HasContext cfg ctx
                  then Report (out @ [''Status:    context '' @ st_quote x ctx @ '' not found''])
                  else let shown = out @ [''Status:    context '' @ st_quote x ctx @ '' exists''] in
                    case map_of (tc_Contexts cfg) ctx of
                      Some (Some c) \<Rightarrow> Report (shown @ context_lines x cfg ctx c)
                    | _ \<Rightarrow> ReportPanics shown))"

section \<open>Rounds that install a certificate\<close>

definition installs :: "login_step \<Rightarrow> bool" where
  "installs x \<longleftrightarrow> x = Done \<or> x = Sleep (10 * second)"

lemma installs_simps [simp]:
  "installs Done" "installs (Sleep (10 * second))" "\<not> installs (Sleep minute)" "\<not> installs (Failed e)" "\<not> installs Panics"
  by (simp_all add: installs_def minute_def second_def)

lemma install_installs:
  assumes "install f w path idToken s = (s', x)" and "installs x"
  obtains trust cert fs where "buildHTTPClient f w (ks_files s) = Inr trust"
    "exchangeTokenForCert w trust (lf_serverURL f) idToken = Inr cert"
    "write_context f w path cert (ks_files s) = (fs, None)" "s' = s\<lparr>ks_files := fs\<rparr>"
proof (cases "buildHTTPClient f w (ks_files s)")
  case (Inl e)
  with assms have False by (auto simp: install_def)
  then show thesis ..
next
  case trust: (Inr trust)
  show thesis
  proof (cases "exchangeTokenForCert w trust (lf_serverURL f) idToken")
    case (Inl e)
    with trust assms have False by (auto simp: install_def split: if_splits)
    then show thesis ..
  next
    case cert: (Inr cert)
    obtain fs e where wr: "write_context f w path cert (ks_files s) = (fs, e)" by fastforce
    with trust cert assms have "e = None" "s' = s\<lparr>ks_files := fs\<rparr>"
      by (cases e; auto simp: install_def)+
    with that trust cert wr show thesis by simp
  qed
qed

lemma renew_installs:
  assumes "renew f w path s = Some (s', x)" and "installs x"
  obtains s1 idToken where "obtainIDToken f w s = Some (s1, Inr idToken)" "install f w path idToken s1 = (s', x)"
    "\<not> plain_http_refused f"
proof -
  have plain: "\<not> plain_http_refused f"
    using assms by (cases "plain_http_refused f") (auto simp: renew_def)
  then obtain s1 res where res: "obtainIDToken f w s = Some (s1, res)"
    using assms(1) by (cases "obtainIDToken f w s") (auto simp: renew_def)
  show thesis
  proof (cases res)
    case (Inl e)
    with res plain assms have False by (auto simp: renew_def split: if_splits)
    then show thesis ..
  next
    case (Inr idToken)
    with res plain assms(1) have "install f w path idToken s1 = (s', x)" by (simp add: renew_def)
    with that res Inr plain show thesis by blast
  qed
qed

lemma exchangeTokenForCert_Inr:
  "exchangeTokenForCert w trust server tok = Inr cert \<longleftrightarrow>
     lw_url_ok w (exchange_url server) \<and>
     (\<exists>bdy. lw_client w trust (exchange_url server) (lw_marshal w tok) = Some (StatusOK, Some bdy) \<and>
       lw_cert_json w bdy = Some cert)"
  by (auto simp: exchangeTokenForCert_def Let_def split: if_splits option.splits prod.splits)

lemma buildHTTPClient_Inr:
  "buildHTTPClient f w fs = Inr trust \<Longrightarrow>
   trust = (if lf_insecure f then AnyCertificate
     else if lf_serverCA f = [] then SystemPool
     else OnlyCA (case fs (lf_serverCA f) of Contents caPEM \<Rightarrow> caPEM | _ \<Rightarrow> []))"
  by (auto simp: buildHTTPClient_def read_file_def split: if_splits sum.splits entry.splits)

text \<open>What is in the talosconfig after a certificate was written.\<close>

definition holds_certificate :: "login_world \<Rightarrow> string \<Rightarrow> string \<Rightarrow> CertResponse \<Rightarrow> file_system \<Rightarrow> bool" where
  "holds_certificate w path name cert fs \<longleftrightarrow>
     (\<exists>cfg c. LoadConfig (lw_talos w) fs path = Inr cfg \<and> tc_Context cfg = name \<and>
        map_of (tc_Contexts cfg) name = Some (Some c) \<and> Endpoints c = resp_Endpoints cert \<and>
        StdEncoding_Decode (CA c) = Some (trim_space (resp_CA cert)) \<and>
        StdEncoding_Decode (Crt c) = Some (trim_space (resp_Cert cert)) \<and>
        StdEncoding_Decode (Key c) = Some (trim_space (resp_Key cert)))"

lemma write_context_holds:
  assumes "write_context f w path cert fs = (fs', None)" and "yaml_agrees (lw_talos w)"
  shows "holds_certificate w path (lf_contextName f) cert fs'"
proof -
  obtain cfg cfg1 where set: "SetContextFromPEM cfg (lf_contextName f) (resp_Endpoints cert) (resp_CA cert) (resp_Cert cert)
      (resp_Key cert) = Inr cfg1"
    and save: "SaveConfig (lw_talos w) path cfg1 fs = (fs', None)"
    using assms(1) by (auto simp: write_context_def split: sum.splits)
  have "Endpoints (pem_context eps ca crt key) = eps" for eps ca crt key by (simp add: pem_context_def)
  with SetContext_lookup [OF set] talos_file.load_saved [OF assms(2) save]
    pem_context_decodes [of "resp_Endpoints cert" "resp_CA cert" "resp_Cert cert" "resp_Key cert"]
  show ?thesis by (auto simp: holds_certificate_def)
qed

section \<open>The cached token\<close>

lemma obtain_cached:
  assumes "Retrieve (lw_keys w) (lf_contextName f) s = Some t" and "\<not> IsExpired t (lw_clock w Using)"
    and "s_IDToken t \<noteq> []"
  shows "obtainIDToken f w s = Some (s, Inr (s_IDToken t))"
  using assms by (simp add: obtainIDToken_def)

lemma obtain_returns:
  assumes "authenticate f w \<noteq> None"
  shows "obtainIDToken f w s \<noteq> None"
  using assms by (auto simp: obtainIDToken_def full_login_def split: option.splits prod.splits)

lemma renew_refused:
  assumes "obtainIDToken f w s = Some (s1, Inr tok)" and "\<not> plain_http_refused f"
    and "buildHTTPClient f w (ks_files s1) = Inr trust" and "exchangeTokenForCert w trust (lf_serverURL f) tok = Inl e"
  shows "renew f w path s = Some (s1, if lf_watch f then Sleep minute else Failed e)"
  using assms(1,3,4) by (simp add: renew_def install_def assms(2))

lemma watching_goes_on:
  assumes "login_round f path w s = Some (s', x)" and "lf_watch f"
  shows "x \<noteq> Done"
proof
  assume "x = Done"
  with assms(1) have x: "login_round f path w s = Some (s', Done)" by simp
  show False
  proof (cases "check_certificate f w path (ks_files s)")
    case StillValid
    with assms(2) show ?thesis
      by (auto simp: check_certificate_def Let_def split: sum.splits option.splits if_splits)
  next
    case Renew
    with x have "renew f w path s = Some (s', Done)" by (simp add: login_round_def)
    then obtain s1 idToken where "install f w path idToken s1 = (s', Done)" by (rule renew_installs) simp_all
    with assms(2) show ?thesis
      by (cases "buildHTTPClient f w (ks_files s1)"; auto simp: install_def split: sum.splits prod.splits option.splits)
  qed (use x in \<open>simp_all add: login_round_def\<close>)
qed

section \<open>Waiting\<close>

lemma check_WaitFor:
  assumes "check_certificate f w path fs = WaitFor d"
  obtains cfg c expiry where "LoadConfig (lw_talos w) fs path = Inr cfg"
    "map_of (tc_Contexts cfg) (lf_contextName f) = Some (Some c)"
    "GetCertificateExpiry (lw_talos w) c = Inr expiry" "lw_clock w Checking + 5 * minute \<le> expiry"
    "d = max 0 (min minute (expiry - 5 * minute - lw_clock w Waiting))"
  using assms
  by (auto simp: check_certificate_def IsCertificateExpired_def Let_def split: sum.splits option.splits if_splits)

text \<open>The certificate of the context has five minutes left at the first reading of the clock.\<close>

definition still_good :: "login_flags \<Rightarrow> login_world \<Rightarrow> string \<Rightarrow> file_system \<Rightarrow> bool" where
  "still_good f w path fs \<longleftrightarrow>
     (\<exists>cfg c expiry. LoadConfig (lw_talos w) fs path = Inr cfg \<and>
        map_of (tc_Contexts cfg) (lf_contextName f) = Some (Some c) \<and>
        GetCertificateExpiry (lw_talos w) c = Inr expiry \<and> lw_clock w Checking + 5 * minute \<le> expiry)"

lemma check_no_renewal:
  assumes "check_certificate f w path fs = StillValid \<or> check_certificate f w path fs = WaitFor d"
  shows "still_good f w path fs"
  using assms
  by (auto simp: still_good_def check_certificate_def IsCertificateExpired_def Let_def
      split: sum.splits option.splits if_splits)

section \<open>Rounds that end well\<close>

lemma login_round_installs:
  assumes "login_round f path w s = Some (s', x)" and "installs x" and "yaml_agrees (lw_talos w)"
  shows "(s' = s \<and> still_good f w path (ks_files s)) \<or>
    (\<exists>s1 idToken trust bdy cert. obtainIDToken f w s = Some (s1, Inr idToken) \<and>
      buildHTTPClient f w (ks_files s1) = Inr trust \<and>
      lw_client w trust (exchange_url (lf_serverURL f)) (lw_marshal w idToken) = Some (StatusOK, Some bdy) \<and>
      lw_cert_json w bdy = Some cert \<and> holds_certificate w path (lf_contextName f) cert (ks_files s') \<and>
      (lf_insecure f \<or> trust \<noteq> AnyCertificate \<and> \<not> has_prefix (lf_serverURL f) ''http://''))"
proof (cases "check_certificate f w path (ks_files s)")
  case StillValid
  with assms(1) have "s' = s" by (simp add: login_round_def)
  with check_no_renewal [OF disjI1 [OF StillValid]] show ?thesis by simp
next
  case (WaitFor d)
  with assms(1) have "s' = s" by (simp add: login_round_def)
  with check_no_renewal [OF disjI2 [OF WaitFor]] show ?thesis by simp
next
  case NilContext
  with assms(1,2) show ?thesis by (auto simp: login_round_def)
next
  case Renew
  with assms(1) have "renew f w path s = Some (s', x)" by (simp add: login_round_def)
  then obtain s1 idToken where tok: "obtainIDToken f w s = Some (s1, Inr idToken)"
    and inst: "install f w path idToken s1 = (s', x)" and plain: "\<not> plain_http_refused f"
    using assms(2) by (rule renew_installs)
  from inst assms(2) obtain trust cert fs where inst: "buildHTTPClient f w (ks_files s1) = Inr trust"
    "exchangeTokenForCert w trust (lf_serverURL f) idToken = Inr cert"
    "write_context f w path cert (ks_files s1) = (fs, None)" "s' = s1\<lparr>ks_files := fs\<rparr>"
    by (rule install_installs)
  have "lf_insecure f \<or> trust \<noteq> AnyCertificate \<and> \<not> has_prefix (lf_serverURL f) ''http://''"
    using buildHTTPClient_Inr [OF inst(1)] plain by (auto simp: plain_http_refused_def)
  moreover have "holds_certificate w path (lf_contextName f) cert (ks_files s')"
    using write_context_holds [OF inst(3) assms(3)] inst(4) by simp
  moreover obtain bdy where
    "lw_client w trust (exchange_url (lf_serverURL f)) (lw_marshal w idToken) = Some (StatusOK, Some bdy)"
    "lw_cert_json w bdy = Some cert"
    using inst(2) by (auto simp: exchangeTokenForCert_Inr)
  ultimately show ?thesis using tok inst(1) by blast
qed

lemma login_loop_Done:
  assumes "login_loop f path ws s = Some (s', Some Done)"
  obtains w s0 where "w \<in> set ws" "login_round f path w s0 = Some (s', Done)"
  using assms
proof (induction f path ws s rule: login_loop.induct)
  case (2 f path w ws s)
  obtain s1 x where r: "login_round f path w s = Some (s1, x)"
    using "2.prems"(2) by (cases "login_round f path w s") auto
  show ?case
  proof (cases x)
    case Done
    with r "2.prems" show ?thesis by auto
  next
    case (Sleep d)
    with r "2.prems" "2.IH" [OF r refl Sleep] show ?thesis by auto
  qed (use r "2.prems" in simp_all)
qed simp

section \<open>Properties\<close>

text \<open>
  A login that ends well leaves a usable context: either nothing was changed and the
  certificate in the talosconfig is good for five more minutes, or the context now is the
  answer the exchange server gave, over a connection trusted as the flags say, to the very
  identity token this round obtained; and a plain \<^verbatim>\<open>http://\<close> server is talked to only with
  \<^verbatim>\<open>--insecure\<close>.
\<close>

theorem login_installs_certificate:
  assumes "login_round f path w s = Some (s', x)" and "installs x" and "yaml_agrees (lw_talos w)"
  shows "(s' = s \<and> still_good f w path (ks_files s)) \<or>
    (\<exists>s1 idToken trust bdy cert. obtainIDToken f w s = Some (s1, Inr idToken) \<and>
      buildHTTPClient f w (ks_files s1) = Inr trust \<and>
      lw_client w trust (exchange_url (lf_serverURL f)) (lw_marshal w idToken) = Some (StatusOK, Some bdy) \<and>
      lw_cert_json w bdy = Some cert \<and> holds_certificate w path (lf_contextName f) cert (ks_files s') \<and>
      (lf_insecure f \<or> trust \<noteq> AnyCertificate \<and> \<not> has_prefix (lf_serverURL f) ''http://''))"
  using assms by (rule login_round_installs)


text \<open>
  A watching login never oversleeps: when a round waits for the certificate, it
  waits at most a minute, and not past the moment five minutes before the certificate
  expires. It waits only for a certificate with five minutes left: one of the server's
  default lifetime of five minutes is renewed in every round instead.
\<close>

theorem watch_never_oversleeps:
  assumes "login_round f path w s = Some (s', Sleep d)" and "check_certificate f w path (ks_files s) \<noteq> Renew"
  shows "\<exists>cfg c expiry. LoadConfig (lw_talos w) (ks_files s) path = Inr cfg \<and>
    map_of (tc_Contexts cfg) (lf_contextName f) = Some (Some c) \<and> GetCertificateExpiry (lw_talos w) c = Inr expiry \<and>
    s' = s \<and> 0 \<le> d \<and> d \<le> minute \<and> lw_clock w Waiting + d \<le> max (lw_clock w Waiting) (expiry - 5 * minute) \<and>
    5 * minute \<le> expiry - lw_clock w Checking"
proof -
  have wait: "check_certificate f w path (ks_files s) = WaitFor d" and s: "s' = s"
    using assms(1,2) by (cases "check_certificate f w path (ks_files s)"; simp add: login_round_def)+
  from wait obtain cfg c expiry where x: "LoadConfig (lw_talos w) (ks_files s) path = Inr cfg"
    "map_of (tc_Contexts cfg) (lf_contextName f) = Some (Some c)"
    "GetCertificateExpiry (lw_talos w) c = Inr expiry" "lw_clock w Checking + 5 * minute \<le> expiry"
    "d = max 0 (min minute (expiry - 5 * minute - lw_clock w Waiting))"
    by (rule check_WaitFor)
  have "0 \<le> d \<and> d \<le> minute \<and> lw_clock w Waiting + d \<le> max (lw_clock w Waiting) (expiry - 5 * minute)"
    using x(5) by (auto simp: minute_def second_def)
  with x s show ?thesis by (intro exI [of _ cfg] exI [of _ c] exI [of _ expiry]) simp
qed



section \<open>A concrete client\<close>

definition demo_cached :: StoredToken where
  "demo_cached = \<lparr>s_AccessToken = [], s_RefreshToken = [], s_IDToken = ''id'', s_ExpiresAt = hour, s_Issuer = [],
     s_ClientID = []\<rparr>"

definition demo_flags :: login_flags where
  "demo_flags =
     \<lparr>lf_provider = ''https://idp'', lf_clientID = ''cli'', lf_clientSecret = [], lf_scopes = [], lf_callbackPort = 8900,
      lf_listenAddrs = [], lf_redirectURL = [], lf_localCert = [], lf_localKey = [], lf_serverURL = ''https://srv/'',
      lf_contextName = ''oidc'', lf_talosconfig = ''/t'', lf_serverCA = [], lf_insecure = False, lf_watch = False,
      lf_skipOpenBrowser = True, lf_browserCommand = [], lf_deviceCode = False\<rparr>"

definition demo_client :: login_world where
  "demo_client =
     \<lparr>lw_clock = (\<lambda>m. 0), lw_auth = demo_auth_world, lw_pick = True, lw_early = [], lw_late = [], lw_fuel = 0,
      lw_poll = demo_pending, lw_device_json = (\<lambda>b. None), lw_error_json = (\<lambda>b. None),
      lw_keys = demo_keys\<lparr>kw_json_token := (\<lambda>d. if d = ''T'' then Some demo_cached else None)\<rparr>,
      lw_talos = demo_talos, lw_pool = (\<lambda>p. False), lw_url_ok = (\<lambda>u. True), lw_marshal = (\<lambda>t. t),
      lw_client = (\<lambda>trust url tok.
        if trust = SystemPool \<and> url = ''https://srv/exchange'' \<and> tok = ''id'' then Some (200, Some ''C'') else None),
      lw_error_text = (\<lambda>b. None),
      lw_cert_json = (\<lambda>b. if b = ''C''
        then Some \<lparr>resp_CA = ''ca'', resp_Cert = ''crt'', resp_Key = ''key'', resp_Endpoints = [''10.0.0.1''], resp_TTL = 300\<rparr>
        else None)\<rparr>"

definition demo_cache :: key_store where
  "demo_cache = \<lparr>ks_ring = [''oidc'' \<mapsto> ''T''], ks_files = (\<lambda>p. Absent)\<rparr>"

lemma demo_retrieved: "Retrieve (lw_keys demo_client) ''oidc'' demo_cache = Some demo_cached"
  by (simp add: Retrieve_def ring_token_def file_token_def fileRetrieve_def readTokenFile_def cacheFilePath_def
      cacheDir_def read_file_def bestToken_def demo_client_def demo_keys_def demo_cache_def)

lemma demo_unexpired: "\<not> IsExpired demo_cached 0" "s_IDToken demo_cached = ''id''"
  by (simp_all add: IsExpired_def demo_cached_def hour_def minute_def second_def)

lemma demo_obtained: "obtainIDToken demo_flags demo_client demo_cache = Some (demo_cache, Inr ''id'')"
  using obtain_cached [of demo_client demo_flags demo_cache demo_cached] demo_retrieved demo_unexpired
  by (simp add: demo_flags_def demo_client_def)

lemma demo_url: "exchange_url ''https://srv/'' = ''https://srv/exchange''"
  by (simp add: exchange_url_def trim_right_def)

lemma demo_round: "\<exists>s'. login_round demo_flags ''/t'' demo_client demo_cache = Some (s', Done)"
proof -
  obtain fs where save: "SaveConfig demo_talos ''/t'' demo_ctx (\<lambda>p. Absent) = (fs, None)" by (rule demo_save)
  have check: "check_certificate demo_flags demo_client ''/t'' (ks_files demo_cache) = Renew"
    by (simp add: check_certificate_def LoadConfig_def read_file_def demo_cache_def)
  have plain: "\<not> plain_http_refused demo_flags" by (simp add: plain_http_refused_def has_prefix_def demo_flags_def)
  have "install demo_flags demo_client ''/t'' ''id'' demo_cache = (demo_cache\<lparr>ks_files := fs\<rparr>, Done)"
    using save demo_set
    by (simp add: install_def buildHTTPClient_def exchangeTokenForCert_def demo_url write_context_def
        LoadConfig_def read_file_def demo_flags_def demo_client_def demo_cache_def)
  with check plain demo_obtained show ?thesis by (simp add: login_round_def renew_def)
qed

theorem login_installs_certificate_witness:
  "\<exists>s' cert. login_round demo_flags ''/t'' demo_client demo_cache = Some (s', Done) \<and>
     lw_cert_json demo_client ''C'' = Some cert \<and> holds_certificate demo_client ''/t'' ''oidc'' cert (ks_files s')"
proof -
  obtain s' where s': "login_round demo_flags ''/t'' demo_client demo_cache = Some (s', Done)" using demo_round by blast
  have "yaml_agrees (lw_talos demo_client)" by (simp add: yaml_agrees_def demo_talos_def demo_client_def)
  from login_installs_certificate [OF s' _ this] have
    "still_good demo_flags demo_client ''/t'' (ks_files demo_cache) \<or>
     (\<exists>bdy cert trust tok. lw_client demo_client trust (exchange_url ''https://srv/'') tok = Some (200, Some bdy) \<and>
        lw_cert_json demo_client bdy = Some cert \<and> holds_certificate demo_client ''/t'' ''oidc'' cert (ks_files s'))"
    by (auto simp: demo_flags_def)
  moreover have "\<not> still_good demo_flags demo_client ''/t'' (ks_files demo_cache)"
    by (simp add: still_good_def LoadConfig_def read_file_def demo_cache_def)
  ultimately show ?thesis using s' by (auto simp: demo_client_def split: if_splits)
qed

definition demo_refusing :: login_world where
  "demo_refusing = demo_client\<lparr>lw_client := (\<lambda>trust url tok. Some (401, Some ''{}''))\<rparr>"

lemma demo_retrieved_refusing: "Retrieve (lw_keys demo_refusing) ''oidc'' demo_cache = Some demo_cached"
  using demo_retrieved by (simp add: demo_refusing_def)


text \<open>A certificate with ten minutes left.\<close>

definition demo_waiting :: login_world where
  "demo_waiting = demo_client\<lparr>lw_clock := (\<lambda>m. - (10 * minute))\<rparr>"

definition demo_written :: key_store where
  "demo_written = \<lparr>ks_ring = Map.empty, ks_files = (\<lambda>p. Absent)(''/t'' := Contents ''Y'')\<rparr>"

lemma demo_certificate: "find_certificate demo_talos (length ''crt'') ''crt'' = Some ''crt''"
  by (simp add: demo_talos_def)

lemma demo_expiry: "GetCertificateExpiry demo_talos (pem_context eps ''ca'' ''crt'' ''key'') = Inr 1000"
proof -
  have trim: "trim_space ''crt'' = ''crt''" by code_simp
  have "StdEncoding_Encode ''crt'' \<noteq> []" by (simp add: StdEncoding_Encode_def)
  then have crt: "Crt (pem_context eps ''ca'' ''crt'' ''key'') \<noteq> []"
    by (simp only: pem_context_def Context.simps trim not_False_eq_True)
  have decoded: "StdEncoding_Decode (Crt (pem_context eps ''ca'' ''crt'' ''key'')) = Some ''crt''"
    by (simp only: pem_context_decodes trim)
  have "tw_x509 demo_talos ''crt'' = Some 1000" by (simp add: demo_talos_def)
  then show ?thesis
    by (simp only: GetCertificateExpiry_def crt decoded demo_certificate if_False option.case)
qed

lemma demo_context:
  "LoadConfig demo_talos (ks_files demo_written) ''/t'' = Inr demo_ctx"
  "map_of (tc_Contexts demo_ctx) ''oidc'' = Some (Some (pem_context [''10.0.0.1''] ''ca'' ''crt'' ''key''))"
  by (simp add: LoadConfig_def read_file_def demo_written_def demo_talos_def) (simp add: demo_ctx_def)

lemma demo_waits:
  "check_certificate (demo_flags\<lparr>lf_watch := True\<rparr>) demo_waiting ''/t'' (ks_files demo_written) = WaitFor minute"
proof -
  have w: "lw_talos demo_waiting = demo_talos" "lw_clock demo_waiting m = - (10 * minute)" for m
    by (simp_all add: demo_waiting_def demo_client_def)
  have f: "lf_contextName demo_flags = ''oidc''" by (simp add: demo_flags_def)
  show ?thesis
    using demo_context(2)
    by (simp add: check_certificate_def w f demo_context(1) IsCertificateExpired_def demo_expiry Let_def
        minute_def second_def)
qed

theorem watch_never_oversleeps_witness:
  "login_round (demo_flags\<lparr>lf_watch := True\<rparr>) ''/t'' demo_waiting demo_written = Some (demo_written, Sleep minute) \<and>
   (\<exists>expiry. lw_clock demo_waiting Waiting + minute \<le> max (lw_clock demo_waiting Waiting) (expiry - 5 * minute))"
proof -
  have r: "login_round (demo_flags\<lparr>lf_watch := True\<rparr>) ''/t'' demo_waiting demo_written = Some (demo_written, Sleep minute)"
    by (simp add: login_round_def demo_waits)
  from watch_never_oversleeps [OF r] demo_waits r show ?thesis by auto
qed

text \<open>A cache file with one token, a talosconfig with one context.\<close>

definition demo_talos_out :: talos_world where
  "demo_talos_out = demo_talos
     \<lparr>tw_print := (\<lambda>c. if c = demo_ctx then Some ''Y'' else if c = \<lparr>tc_Context = [], tc_Contexts = []\<rparr> then Some ''E'' else None),
      tw_parse := (\<lambda>d. if d = ''Y'' then Some demo_ctx else if d = ''E'' then Some \<lparr>tc_Context = [], tc_Contexts = []\<rparr> else None)\<rparr>"

definition demo_cache_file :: string where "demo_cache_file = ''/home/u/.config/talosctl-oidc/tokens.json''"

definition demo_logged_in :: key_store where
  "demo_logged_in = \<lparr>ks_ring = Map.empty,
     ks_files = (\<lambda>p. Absent)(''/t'' := Contents ''Y'', demo_cache_file := Contents ''M'')\<rparr>"

lemma demo_cache_path: "cacheFilePath demo_keys = Inr demo_cache_file"
proof -
  have "Join ''/home/u/.config'' serviceName = ''/home/u/.config/talosctl-oidc''" by code_simp
  moreover have "Join ''/home/u/.config/talosctl-oidc'' ''tokens.json'' = demo_cache_file" by code_simp
  ultimately show ?thesis by (simp add: cacheFilePath_def cacheDir_def demo_keys_def)
qed

lemma demo_deleted:
  "fileDelete demo_keys ''oidc'' (ks_files demo_logged_in) = ((ks_files demo_logged_in)(demo_cache_file := Absent), None)"
  by (simp add: fileDelete_def readTokenFile_def demo_cache_path read_file_def demo_logged_in_def)
    (simp add: demo_keys_def)

lemma demo_logout: "\<exists>s'. runLogout demo_keys demo_talos_out ''oidc'' ''/t'' demo_logged_in = (s', None)"
proof -
  have "LoadConfig demo_talos_out (ks_files (Delete demo_keys ''oidc'' demo_logged_in)) ''/t'' = Inr demo_ctx"
    by (simp add: LoadConfig_def Delete_def Let_def demo_deleted read_file_def demo_talos_out_def)
      (simp add: demo_logged_in_def demo_cache_file_def)
  moreover have "RemoveContext demo_ctx ''oidc'' = \<lparr>tc_Context = [], tc_Contexts = []\<rparr>" "HasContext demo_ctx ''oidc''"
    by (simp_all add: RemoveContext_def demo_ctx_def HasContext_def)
  ultimately show ?thesis
    by (simp add: runLogout_def config_path_def Let_def SaveConfig_def save_steps_def write_file_def demo_talos_out_def
        demo_talos_def)
qed


text \<open>A device login that nobody approves.\<close>

definition demo_device_client :: login_world where
  "demo_device_client = demo_client
     \<lparr>lw_auth := demo_auth_world\<lparr>aw_post := (\<lambda>u f. Some (200, []))\<rparr>, lw_device_json := (\<lambda>b. Some demo_auth),
      lw_error_json := (\<lambda>b. Some (''authorization_pending'', [])), lw_fuel := 4\<rparr>"


end
