(* ===== verification/Commands.thy ===== *)
theory Commands
  imports Serve Login
begin

text \<open>
  \<^verbatim>\<open>main.go\<close> and the wiring of \<^verbatim>\<open>cmd\<close>: the build metadata, the flags each command registers
  with their defaults, and what a process makes of its arguments. Reading the arguments
  is the libraries' (\<^verbatim>\<open>cobra\<close>, \<^verbatim>\<open>pflag\<close>), a parameter: which command is meant and which flags
  are given with which values.
\<close>

section \<open>Build metadata\<close>

record build =
  bd_version :: string
  bd_commit :: string
  bd_date :: string

definition default_build :: build where
  "default_build = \<lparr>bd_version = ''dev'', bd_commit = ''unknown'', bd_date = ''unknown''\<rparr>"

definition SetBuildInfo :: "string \<Rightarrow> string \<Rightarrow> string \<Rightarrow> build \<Rightarrow> build" where
  "SetBuildInfo v c d b =
     (let b1 = (if v \<noteq> [] then b\<lparr>bd_version := v\<rparr> else b);
          b2 = (if c \<noteq> [] then b1\<lparr>bd_commit := c\<rparr> else b1)
      in if d \<noteq> [] then b2\<lparr>bd_date := d\<rparr> else b2)"

definition version_lines :: "build \<Rightarrow> string list" where
  "version_lines b =
     [''talosctl-oidc '' @ bd_version b, ''  commit: '' @ bd_commit b, ''  built:  '' @ bd_date b]"

section \<open>Flags\<close>

datatype flag_value = FString string | FStrings "string list" | FInt int | FBool bool

record flag =
  fl_name :: string
  fl_short :: string
  fl_default :: flag_value
  fl_required :: bool

abbreviation optional_flag :: "string \<Rightarrow> flag_value \<Rightarrow> flag" where
  "optional_flag n v \<equiv> \<lparr>fl_name = n, fl_short = [], fl_default = v, fl_required = False\<rparr>"

abbreviation required_flag :: "string \<Rightarrow> flag_value \<Rightarrow> flag" where
  "required_flag n v \<equiv> \<lparr>fl_name = n, fl_short = [], fl_default = v, fl_required = True\<rparr>"

definition login_flag_table :: "flag list" where
  "login_flag_table =
     [required_flag ''provider'' (FString []),
      required_flag ''client-id'' (FString []),
      optional_flag ''client-secret'' (FString []),
      optional_flag ''scopes'' (FStrings [''openid'', ''profile'', ''email'', ''offline_access'']),
      optional_flag ''callback-port'' (FInt 8900),
      optional_flag ''listen-address'' (FStrings []),
      optional_flag ''oidc-redirect-url'' (FString []),
      optional_flag ''local-server-cert'' (FString []),
      optional_flag ''local-server-key'' (FString []),
      required_flag ''server'' (FString []),
      optional_flag ''context-name'' (FString ''oidc''),
      optional_flag ''talosconfig'' (FString []),
      optional_flag ''server-ca'' (FString []),
      optional_flag ''insecure'' (FBool False),
      optional_flag ''watch'' (FBool False),
      optional_flag ''skip-open-browser'' (FBool False),
      optional_flag ''browser-command'' (FString []),
      optional_flag ''device-code'' (FBool False)]"

definition logout_flag_table :: "flag list" where
  "logout_flag_table = [optional_flag ''context-name'' (FString ''oidc''), optional_flag ''talosconfig'' (FString [])]"

definition status_flag_table :: "flag list" where
  "status_flag_table = [optional_flag ''context-name'' (FString ''oidc''), optional_flag ''talosconfig'' (FString [])]"

definition serve_flag_table :: "flag list" where
  "serve_flag_table = [\<lparr>fl_name = ''config'', fl_short = ''c'', fl_default = FString [], fl_required = False\<rparr>]"

datatype command = LoginCmd | LogoutCmd | StatusCmd | ServeCmd | VersionCmd

fun flag_table :: "command \<Rightarrow> flag list" where
  "flag_table LoginCmd = login_flag_table"
| "flag_table LogoutCmd = logout_flag_table"
| "flag_table StatusCmd = status_flag_table"
| "flag_table ServeCmd = serve_flag_table"
| "flag_table VersionCmd = []"

type_synonym given = "string \<Rightarrow> flag_value option"

text \<open>The value a variable bound to a flag has when the command runs: the given one or the default.\<close>

definition flag_value :: "flag list \<Rightarrow> given \<Rightarrow> string \<Rightarrow> flag_value option" where
  "flag_value fs g n =
     (case find (\<lambda>f. fl_name f = n) fs of
        None \<Rightarrow> None
      | Some f \<Rightarrow> Some (case g n of Some v \<Rightarrow> v | None \<Rightarrow> fl_default f))"

definition string_flag :: "flag list \<Rightarrow> given \<Rightarrow> string \<Rightarrow> string" where
  "string_flag fs g n = (case flag_value fs g n of Some (FString x) \<Rightarrow> x | _ \<Rightarrow> [])"

definition strings_flag :: "flag list \<Rightarrow> given \<Rightarrow> string \<Rightarrow> string list" where
  "strings_flag fs g n = (case flag_value fs g n of Some (FStrings x) \<Rightarrow> x | _ \<Rightarrow> [])"

definition int_flag :: "flag list \<Rightarrow> given \<Rightarrow> string \<Rightarrow> int" where
  "int_flag fs g n = (case flag_value fs g n of Some (FInt x) \<Rightarrow> x | _ \<Rightarrow> 0)"

definition bool_flag :: "flag list \<Rightarrow> given \<Rightarrow> string \<Rightarrow> bool" where
  "bool_flag fs g n = (case flag_value fs g n of Some (FBool x) \<Rightarrow> x | _ \<Rightarrow> False)"

text \<open>The struct \<^verbatim>\<open>loginFlags\<close> as \<^verbatim>\<open>init\<close> binds its fields.\<close>

definition bound_login_flags :: "given \<Rightarrow> login_flags" where
  "bound_login_flags g =
     (let str = string_flag login_flag_table g; strs = strings_flag login_flag_table g; yes = bool_flag login_flag_table g in
      \<lparr>lf_provider = str ''provider'', lf_clientID = str ''client-id'', lf_clientSecret = str ''client-secret'',
       lf_scopes = strs ''scopes'', lf_callbackPort = int_flag login_flag_table g ''callback-port'',
       lf_listenAddrs = strs ''listen-address'', lf_redirectURL = str ''oidc-redirect-url'',
       lf_localCert = str ''local-server-cert'', lf_localKey = str ''local-server-key'', lf_serverURL = str ''server'',
       lf_contextName = str ''context-name'', lf_talosconfig = str ''talosconfig'', lf_serverCA = str ''server-ca'',
       lf_insecure = yes ''insecure'', lf_watch = yes ''watch'', lf_skipOpenBrowser = yes ''skip-open-browser'',
       lf_browserCommand = str ''browser-command'', lf_deviceCode = yes ''device-code''\<rparr>)"

text \<open>What \<^verbatim>\<open>cobra\<close> checks before it runs a command: every required flag is given.\<close>

definition required_given :: "command \<Rightarrow> given \<Rightarrow> bool" where
  "required_given c g \<longleftrightarrow> (\<forall>f \<in> set (flag_table c). fl_required f \<longrightarrow> g (fl_name f) \<noteq> None)"

section \<open>A process\<close>

text \<open>What the libraries read: an error, a request for help or no command, or a command with its flags.\<close>

datatype arguments = BadArguments | HelpShown | Invoked command given

record surroundings =
  su_parse :: "string list \<Rightarrow> arguments"
  su_talos :: talos_world
  su_keys :: key_world
  su_rounds :: "login_world list"
  su_now1 :: time
  su_now2 :: time
  su_texts :: status_texts
  su_serve :: serve_world
  su_pki :: pki
  su_disk :: disk
  su_reads :: "nat \<Rightarrow> time"
  su_mkdir :: bool
  su_write :: "string \<Rightarrow> write_outcome"
  su_start :: time
  su_ending :: ending

text \<open>
  \<^verbatim>\<open>Execute\<close> hands on the command's error and \<^verbatim>\<open>main\<close> turns it into status 1; a panic is
  status 2. A \<^verbatim>\<open>--watch\<close> whose rounds have not ended is still running.
\<close>

datatype process = Exit nat | StillRunning

definition exit_of :: "'e option \<Rightarrow> process" where
  "exit_of e = (if e = None then Exit 0 else Exit 1)"

fun login_process :: "login_step option \<Rightarrow> process" where
  "login_process (Some (Failed e)) = Exit 1"
| "login_process (Some Panics) = Exit 2"
| "login_process (Some Done) = Exit 0"
| "login_process _ = StillRunning"

fun status_process :: "status_result \<Rightarrow> string list \<times> process" where
  "status_process (NoPath e) = ([], Exit 1)"
| "status_process (Report ls) = (ls, Exit 0)"
| "status_process (ReportPanics ls) = (ls, Exit 2)"

text \<open>
  The disk and keyring afterwards, the lines printed (those of \<^verbatim>\<open>status\<close> and \<^verbatim>\<open>version\<close>; the progress
  messages of the other commands are left out) and how the process ends.
\<close>

fun run_command ::
  "build \<Rightarrow> surroundings \<Rightarrow> command \<Rightarrow> given \<Rightarrow> key_store \<Rightarrow> (key_store \<times> string list \<times> process) option" where
  "run_command b u LoginCmd g s =
     map_option (\<lambda>(s1, x). (s1, [], login_process x)) (runLogin (su_talos u) (bound_login_flags g) (su_rounds u) s)"
| "run_command b u LogoutCmd g s =
     Some (case runLogout (su_keys u) (su_talos u) (string_flag logout_flag_table g ''context-name'')
             (string_flag logout_flag_table g ''talosconfig'') s of (s1, e) \<Rightarrow> (s1, [], exit_of e))"
| "run_command b u StatusCmd g s =
     Some (s, status_process (runStatus (su_keys u) (su_talos u) (su_texts u) (su_now1 u) (su_now2 u)
       (string_flag status_flag_table g ''context-name'') (string_flag status_flag_table g ''talosconfig'') s))"
| "run_command b u ServeCmd g s =
     Some (case runServe (su_serve u) (su_pki u) (su_disk u) (su_reads u) (su_mkdir u) (su_write u) (su_start u)
             (ks_files s) (su_ending u) (string_flag serve_flag_table g ''config'') of
             (fs, e) \<Rightarrow> (s\<lparr>ks_files := fs\<rparr>, [], exit_of e))"
| "run_command b u VersionCmd g s = Some (s, version_lines b, Exit 0)"

definition Execute :: "build \<Rightarrow> surroundings \<Rightarrow> string list \<Rightarrow> key_store \<Rightarrow> (key_store \<times> string list \<times> process) option" where
  "Execute b u args s =
     (case su_parse u args of
        BadArguments \<Rightarrow> Some (s, [], Exit 1)
      | HelpShown \<Rightarrow> Some (s, [], Exit 0)
      | Invoked c g \<Rightarrow> if \<not> required_given c g then Some (s, [], Exit 1) else run_command b u c g s)"

text \<open>\<^verbatim>\<open>main\<close>, with what the linker put into its variables.\<close>

definition main :: "build \<Rightarrow> surroundings \<Rightarrow> string list \<Rightarrow> key_store \<Rightarrow> (key_store \<times> string list \<times> process) option" where
  "main linked u args s =
     Execute (SetBuildInfo (bd_version linked) (bd_commit linked) (bd_date linked) default_build) u args s"

section \<open>What the arguments become\<close>

lemma SetBuildInfo_fields:
  "bd_version (SetBuildInfo v c d b) = (if v = [] then bd_version b else v)"
  "bd_commit (SetBuildInfo v c d b) = (if c = [] then bd_commit b else c)"
  "bd_date (SetBuildInfo v c d b) = (if d = [] then bd_date b else d)"
  by (simp_all add: SetBuildInfo_def Let_def)

lemma bound_insecure: "lf_insecure (bound_login_flags g) \<longleftrightarrow> g ''insecure'' = Some (FBool True)"
  by (simp add: bound_login_flags_def bool_flag_def flag_value_def login_flag_table_def Let_def
      split: option.split flag_value.split)

lemma bound_context:
  "lf_contextName (bound_login_flags g) =
     (case g ''context-name'' of None \<Rightarrow> ''oidc'' | Some (FString n) \<Rightarrow> n | Some v \<Rightarrow> [])"
  by (simp add: bound_login_flags_def string_flag_def flag_value_def login_flag_table_def Let_def
      split: option.split flag_value.split)

lemma login_process_Exit0: "login_process x = Exit 0 \<longleftrightarrow> x = Some Done"
  by (cases x rule: login_process.cases) simp_all

section \<open>Properties\<close>


text \<open>The client from before, started from a command line.\<close>

definition demo_given :: given where
  "demo_given = [''provider'' \<mapsto> FString ''https://idp'', ''client-id'' \<mapsto> FString ''cli'', ''server'' \<mapsto> FString ''https://srv/'',
     ''scopes'' \<mapsto> FStrings [], ''talosconfig'' \<mapsto> FString ''/t'', ''skip-open-browser'' \<mapsto> FBool True]"

definition demo_surroundings :: surroundings where
  "demo_surroundings =
     \<lparr>su_parse = (\<lambda>args. if args = [''login''] then Invoked LoginCmd demo_given else BadArguments),
      su_talos = demo_talos, su_keys = demo_keys, su_rounds = [demo_client], su_now1 = 0, su_now2 = 0,
      su_texts = \<lparr>st_time = (\<lambda>t. []), st_quote = (\<lambda>x. x), st_error = (\<lambda>e. [])\<rparr>, su_serve = demo_serve [],
      su_pki = demo_pki, su_disk = (\<lambda>t p. None), su_reads = (\<lambda>n. 0), su_mkdir = True, su_write = (\<lambda>p. Written),
      su_start = 0, su_ending = ByItself\<rparr>"

lemma demo_bound: "expand_flags home (bound_login_flags demo_given) = demo_flags"
proof -
  have "expandHome home ''/t'' = ''/t''" "expandHome home [] = []" by (simp_all add: expandHome_def has_prefix_def)
  moreover have "bound_login_flags demo_given = demo_flags"
    by (simp add: bound_login_flags_def string_flag_def strings_flag_def int_flag_def bool_flag_def flag_value_def
        login_flag_table_def demo_given_def demo_flags_def Let_def)
  ultimately show ?thesis by (simp add: expand_flags_def demo_flags_def)
qed


end
