(* ===== verification/Secrets.thy ===== *)
theory Secrets
  imports Serve
begin

text \<open>
  What the answers of the server depend on. The client secret has no influence at all: the
  server passes no list of algorithms to the validation, so the secret is never used. The
  admin token has none on whoever does not offer it. Both are shown by relating the runs of
  two servers whose configurations differ in the secret only, handler by handler.
\<close>

section \<open>Two servers that differ in their configuration\<close>

definition reconfigured :: "(server_config \<Rightarrow> server_config) \<Rightarrow> server \<Rightarrow> server" where
  "reconfigured g s = s\<lparr>sv_cfg := g (sv_cfg s)\<rparr>"

lemma reconfigured_fields [simp]:
  "sv_cfg (reconfigured g s) = g (sv_cfg s)" "sv_limiter (reconfigured g s) = sv_limiter s"
  "sv_anomaly (reconfigured g s) = sv_anomaly s" "sv_logger (reconfigured g s) = sv_logger s"
  "sv_tracker (reconfigured g s) = sv_tracker s" "sv_certlog (reconfigured g s) = sv_certlog s"
  "sv_cache (reconfigured g s) = sv_cache s" "sv_selfSignedCA (reconfigured g s) = sv_selfSignedCA s"
  "sv_sessions (reconfigured g s) = sv_sessions s" "sv_bruteForce (reconfigured g s) = sv_bruteForce s"
  "sv_issue_calls (reconfigured g s) = sv_issue_calls s"
  by (simp_all add: reconfigured_def)

lemma reconfigured_update [simp]:
  "(reconfigured g s)\<lparr>sv_limiter := a\<rparr> = reconfigured g (s\<lparr>sv_limiter := a\<rparr>)"
  "(reconfigured g s)\<lparr>sv_anomaly := b\<rparr> = reconfigured g (s\<lparr>sv_anomaly := b\<rparr>)"
  "(reconfigured g s)\<lparr>sv_logger := c\<rparr> = reconfigured g (s\<lparr>sv_logger := c\<rparr>)"
  "(reconfigured g s)\<lparr>sv_tracker := d\<rparr> = reconfigured g (s\<lparr>sv_tracker := d\<rparr>)"
  "(reconfigured g s)\<lparr>sv_certlog := e\<rparr> = reconfigured g (s\<lparr>sv_certlog := e\<rparr>)"
  "(reconfigured g s)\<lparr>sv_cache := f\<rparr> = reconfigured g (s\<lparr>sv_cache := f\<rparr>)"
  "(reconfigured g s)\<lparr>sv_sessions := h\<rparr> = reconfigured g (s\<lparr>sv_sessions := h\<rparr>)"
  "(reconfigured g s)\<lparr>sv_bruteForce := i\<rparr> = reconfigured g (s\<lparr>sv_bruteForce := i\<rparr>)"
  "(reconfigured g s)\<lparr>sv_issue_calls := j\<rparr> = reconfigured g (s\<lparr>sv_issue_calls := j\<rparr>)"
  by (simp_all add: reconfigured_def)

abbreviation recon :: "(server_config \<Rightarrow> server_config) \<Rightarrow> server \<times> 'a \<Rightarrow> server \<times> 'a" where
  "recon g x \<equiv> (reconfigured g (fst x), snd x)"

lemma exchange_steps_reconfigured [simp]:
  "auditLog w t ev (reconfigured g s) = reconfigured g (auditLog w t ev s)"
  "note_token_use w tok (reconfigured g s) = reconfigured g (note_token_use w tok s)"
  "note_failure ip t (reconfigured g s) = reconfigured g (note_failure ip t s)"
  "limiter_tick t (reconfigured g s) = reconfigured g (limiter_tick t s)"
  by (simp_all add: auditLog_def note_token_use_def note_failure_def limiter_tick_def Let_def
      split: option.split prod.split)

text \<open>
  The contract of a change of configuration the exchange does not notice: it reads the
  same settings before and after, and a token is validated alike.
\<close>

locale unnoticed =
  fixes g :: "server_config \<Rightarrow> server_config"
  assumes same_settings: "sc_CertTTL (g cfg) = sc_CertTTL cfg" "sc_Allowlist (g cfg) = sc_Allowlist cfg"
      "sc_IssuerURL (g cfg) = sc_IssuerURL cfg" "sc_ClientID (g cfg) = sc_ClientID cfg"
    and same_roles: "roles_for w (g cfg) tc = roles_for w cfg tc"
    and same_certificate: "cert_response (g cfg) cert = cert_response cfg cert"
    and same_validation: "ValidateIDToken cr now tok jwks iss aud (sc_ClientSecret (g cfg)) [] =
      ValidateIDToken cr now tok jwks iss aud (sc_ClientSecret cfg) []"
begin

lemma validateToken_recon: "validateToken w tok (reconfigured g s) = recon g (validateToken w tok s)"
proof -
  have j: "jwksCacheForIssuer w (reconfigured g s) = recon g (jwksCacheForIssuer w s)"
    by (simp add: jwksCacheForIssuer_def same_settings Let_def split: option.split sum.split)
  then show ?thesis
    by (simp add: validateToken_def same_settings same_validation Let_def split: sum.split prod.split)
qed

lemma issue_certificate_recon:
  "(issue_certificate w rid ip tc (reconfigured g s) :: server \<times> 'p response) = recon g (issue_certificate w rid ip tc s)"
  by (simp add: issue_certificate_def same_roles same_certificate same_settings Let_def split: sum.split)

lemma handleExchange_recon:
  "(handleExchange w (reconfigured g s) r :: server \<times> 'p response) = recon g (handleExchange w s r)"
  by (simp add: handleExchange_def validateToken_recon issue_certificate_recon Let_def split: sum.split prod.split)

lemma exchange_chain_recon:
  "(exchange_chain w (reconfigured g s0) (reconfigured g s) r :: server \<times> 'p response) = recon g (exchange_chain w s0 s r)"
  by (simp add: exchange_chain_def rl_Middleware_def al_Middleware_def handleExchange_recon same_settings Let_def
      split: option.split prod.split)

end

text \<open>The dashboard and the logout do not look at the configuration at all.\<close>

lemma dashboard_reconfigured:
  "handleAdminDashboard w (reconfigured g s) r = recon g (handleAdminDashboard w s r)"
  "handleAdminLogout (reconfigured g s) r = recon g (handleAdminLogout s r)"
  "handleHealth (reconfigured g s) r = recon g (handleHealth s r :: server \<times> 'p response)"
  "handleCA (reconfigured g s) r = recon g (handleCA s r :: server \<times> 'p response)"
  by (simp_all add: handleAdminDashboard_def handleAdminLogout_def handleHealth_def handleCA_def Let_def
      split: option.split prod.split)

section \<open>Another client secret\<close>

definition with_secret :: "string \<Rightarrow> server \<Rightarrow> server" where
  "with_secret secret = reconfigured (\<lambda>cfg. cfg\<lparr>sc_ClientSecret := secret\<rparr>)"

lemma checkSignature_default:
  "alg \<in> set default_algs \<Longrightarrow> checkSignature cr jwks secret alg kid i s =
     (case findKey jwks kid alg of Inl e \<Rightarrow> Some e | Inr key \<Rightarrow> verifySignature cr alg key i s)"
  by (auto simp: default_algs_def checkSignature_def)

lemma ValidateIDToken_secret:
  "ValidateIDToken cr now tok jwks iss aud secret [] = ValidateIDToken cr now tok jwks iss aud secret' []"
  by (simp add: ValidateIDToken_def list_ex_iff Let_def checkSignature_default split: list.split option.split prod.split)

interpretation secret: unnoticed "\<lambda>cfg. cfg\<lparr>sc_ClientSecret := secret\<rparr>" for secret
proof
  show "ValidateIDToken cr now tok jwks iss aud (sc_ClientSecret (cfg\<lparr>sc_ClientSecret := secret\<rparr>)) [] =
    ValidateIDToken cr now tok jwks iss aud (sc_ClientSecret cfg) []" for cr now tok jwks iss aud cfg
    by (rule ValidateIDToken_secret)
qed (simp_all add: roles_for_def cert_response_def split: option.split)

lemma serve_secret:
  "serve moved (with_secret y s0) w (with_secret y s) r =
     (with_secret y (fst (serve moved s0 w s r)), snd (serve moved s0 w s r))"
proof -
  have api: "(requireAdminToken h (with_secret y s) r :: server \<times> AdminPageData response) =
      (with_secret y (fst (requireAdminToken h s r)), snd (requireAdminToken h s r))"
    if "h (with_secret y s) r = (with_secret y (fst (h s r)), snd (h s r))" for h
    using that by (simp add: requireAdminToken_def with_secret_def Let_def)
  have handlers: "handleAdminStats w (with_secret y s) r = (with_secret y (fst (handleAdminStats w s r)), snd (handleAdminStats w s r :: server \<times> AdminPageData response))"
    "handleAdminCerts w (with_secret y s) r = (with_secret y (fst (handleAdminCerts w s r)), snd (handleAdminCerts w s r :: server \<times> AdminPageData response))"
    "handleAdminLogin w (with_secret y s) r = (with_secret y (fst (handleAdminLogin w s r)), snd (handleAdminLogin w s r))"
    by (simp_all add: handleAdminStats_def handleAdminCerts_def handleAdminLogin_def with_secret_def Let_def
        split: option.split prod.split)
  show ?thesis
    using api [where h = "handleAdminStats w", OF handlers(1)] api [where h = "handleAdminCerts w", OF handlers(2)] handlers(3)
    by (simp add: serve_def with_secret_def secret.exchange_chain_recon dashboard_reconfigured split: route.split)
qed

lemma served_secret:
  "served moved s0 tr s \<Longrightarrow> served moved (with_secret y s0) tr (with_secret y s)"
proof (induction rule: served.induct)
  case started
  show ?case by (rule served.started)
next
  case (answered tr s w r s' resp)
  then have "serve moved (with_secret y s0) w (with_secret y s) r = (with_secret y s', resp)"
    by (simp add: serve_secret)
  with answered.IH show ?case by (rule served.answered)
next
  case (cleaned tr s t)
  from served.cleaned [OF cleaned.IH, of t] show ?case by (simp add: with_secret_def)
qed

section \<open>Another admin token\<close>

definition with_admin_token :: "string \<Rightarrow> server \<Rightarrow> server" where
  "with_admin_token tok = reconfigured (\<lambda>cfg. cfg\<lparr>sc_AdminToken := tok\<rparr>)"

interpretation admin_token: unnoticed "\<lambda>cfg. cfg\<lparr>sc_AdminToken := tok\<rparr>" for tok
  by unfold_locales (simp_all add: roles_for_def cert_response_def split: option.split)

text \<open>A request that offers this text as the admin token, in the header or in the login form.\<close>

definition offers :: "request \<Rightarrow> string \<Rightarrow> bool" where
  "offers r a \<longleftrightarrow>
     header_get r ''Authorization'' = ''Bearer '' @ a \<or> (\<exists>form. Form r = Some form \<and> form_value form ''token'' = a)"

lemma bearer_offers:
  "has_prefix (header_get r ''Authorization'') ''Bearer '' \<Longrightarrow>
   drop (length ''Bearer '') (header_get r ''Authorization'') = a \<Longrightarrow> offers r a"
  unfolding offers_def has_prefix_def by (metis append_take_drop_id)

text \<open>Whoever offers neither token is answered alike by both servers.\<close>

lemma guarded_token:
  assumes "\<not> offers r a" and "\<not> offers r b" and "a \<noteq> []" and "b \<noteq> []"
  shows "\<exists>resp. requireAdminToken h (with_admin_token a s) r = (with_admin_token a s, resp) \<and>
    requireAdminToken h (with_admin_token b s) r = (with_admin_token b s, resp)"
  using assms bearer_offers [of r] by (auto simp: requireAdminToken_def with_admin_token_def Let_def)

lemma login_token:
  assumes "\<not> offers r a" and "\<not> offers r b" and "a \<noteq> []" and "b \<noteq> []"
  shows "\<exists>s' resp. handleAdminLogin w (with_admin_token a s) r = (with_admin_token a s', resp) \<and>
    handleAdminLogin w (with_admin_token b s) r = (with_admin_token b s', resp)"
  using assms by (auto simp: offers_def handleAdminLogin_def with_admin_token_def Let_def split: option.split)

lemma serve_token:
  assumes "\<not> offers r a" and "\<not> offers r b" and "a \<noteq> []" and "b \<noteq> []"
  shows "\<exists>s' resp. serve moved (with_admin_token a s0) w (with_admin_token a s) r = (with_admin_token a s', resp) \<and>
    serve moved (with_admin_token b s0) w (with_admin_token b s) r = (with_admin_token b s', resp)"
proof (cases "route_of (sv_tracker s0 \<noteq> None) r")
  case ToLogin
  with login_token [OF assms, of w s] show ?thesis by (simp add: serve_def with_admin_token_def)
next
  case ToStats
  with guarded_token [OF assms, of "handleAdminStats w :: (server, AdminPageData) handler" s] show ?thesis
    by (auto simp: serve_def with_admin_token_def)
next
  case ToCerts
  with guarded_token [OF assms, of "handleAdminCerts w :: (server, AdminPageData) handler" s] show ?thesis
    by (auto simp: serve_def with_admin_token_def)
qed (auto simp: serve_def with_admin_token_def admin_token.exchange_chain_recon dashboard_reconfigured)

lemma served_token:
  assumes "served moved (with_admin_token a s0) tr s" and "a \<noteq> []" and "b \<noteq> []"
    and "\<forall>(w, r, resp) \<in> set (answers tr). \<not> offers r a \<and> \<not> offers r b"
  shows "\<exists>s1. s = with_admin_token a s1 \<and> served moved (with_admin_token b s0) tr (with_admin_token b s1)"
  using assms(1,4)
proof (induction rule: served.induct)
  case started
  show ?case by (blast intro: served.started)
next
  case (answered tr s w r s' resp)
  then obtain s1 where s1: "s = with_admin_token a s1" "served moved (with_admin_token b s0) tr (with_admin_token b s1)"
    by auto
  have "\<not> offers r a" "\<not> offers r b" using answered.prems by auto
  from serve_token [OF this assms(2,3), of moved s0 w s1] answered(2) s1(1) obtain s2 where
    "s' = with_admin_token a s2" "serve moved (with_admin_token b s0) w (with_admin_token b s1) r = (with_admin_token b s2, resp)"
    by auto
  with served.answered [OF s1(2)] show ?case by blast
next
  case (cleaned tr s t)
  then obtain s1 where s1: "s = with_admin_token a s1" "served moved (with_admin_token b s0) tr (with_admin_token b s1)"
    by auto
  have tick: "limiter_tick t (with_admin_token y s1) = with_admin_token y (limiter_tick t s1)" for y
    by (simp add: with_admin_token_def)
  from served.cleaned [OF s1(2), of t] s1(1) tick show ?case by metis
qed

section \<open>Properties\<close>

text \<open>
  C10. The client secret has no effect: every run of a server is, request by request and
  answer by answer, a run of the server with any other client secret, in a state that
  differs in nothing else, and there the next request is answered alike. The
  configuration documents the secret as the key of HS256 tokens.
\<close>

theorem client_secret_unused:
  assumes "served moved s0 tr s"
  shows "served moved (with_secret secret s0) tr (with_secret secret s) \<and>
    (\<forall>w r. serve moved (with_secret secret s0) w (with_secret secret s) r =
       (case serve moved s0 w s r of (s', resp) \<Rightarrow> (with_secret secret s', resp)))"
  using served_secret [OF assms] by (simp add: serve_secret split: prod.split)


theorem client_secret_unused_witness:
  "\<exists>s resp. served demo_moved demo_admin [Answered demo_world demo_post resp] s \<and>
     served demo_moved (with_secret ''hush'' demo_admin) [Answered demo_world demo_post resp] (with_secret ''hush'' s)"
proof -
  obtain s resp where "serve demo_moved demo_admin demo_world demo_admin demo_post = (s, resp)" by fastforce
  from served.answered [OF served.started this] have run: "served demo_moved demo_admin [Answered demo_world demo_post resp] s"
    by simp
  from client_secret_unused [OF this, of "''hush''"] run show ?thesis by blast
qed


end
