(* ===== verification/Spec2Isabelle.thy ===== *)
theory Spec2Isabelle
  imports Grants MockTalos Commands Secrets
begin

text \<open>
  A verification development for \<^verbatim>\<open>talosctl-oidc\<close>: a server that exchanges OIDC identity
  tokens for short-lived Talos client certificates, and the command line client that logs
  a user in and renews the certificate.

  \<^bold>\<open>The program and the theories.\<close> Each theory follows one package under \<^verbatim>\<open>src/\<close>; a Go struct
  is a record, a method a function that takes and returns it, an error a value of a sum or
  option type, and every reading of the clock, of randomness or of the network an argument.

  \<^item> \<open>Prelude\<close>, \<open>GoStrings\<close>, \<open>GoTime\<close>, \<open>NetIP\<close>, \<open>Encoding\<close>, \<open>UrlQuery\<close>, \<open>Http\<close>, \<open>ServeMux\<close>: what the
    program uses of Go's library, written out: times, strings and constant-time comparison, durations,
    addresses and networks, base 64 and hexadecimal, queries, requests and answers, and the
    choice of a handler for a path. \<open>Http\<close>
    also holds the interface \<open>forwarded_for\<close> that both middlewares keep for the client
    address, \<open>Encoding\<close> the interface \<open>base64\<close> of its three variants.
  \<^item> \<open>Config\<close> (\<^verbatim>\<open>pkg/config\<close> and the first steps of \<^verbatim>\<open>runServe\<close>): merging file, environment and
    defaults; a configuration the server starts with is complete and consistent.
  \<^item> \<open>RateLimit\<close> (\<^verbatim>\<open>pkg/ratelimit\<close>): sequentially a sliding-window log, refined to its
    declarative specification; as a step relation with the two locks of \<^verbatim>\<open>Allow\<close> interleaved
    with \<^verbatim>\<open>Cleanup\<close>, where a reachable run exceeds the limit.
  \<^item> \<open>Allowlist\<close> (\<^verbatim>\<open>pkg/allowlist\<close>), \<open>Rbac\<close> (\<^verbatim>\<open>pkg/rbac\<close>), \<open>Anomaly\<close> (\<^verbatim>\<open>pkg/anomaly\<close>): membership, role
    mapping, alerts, each against a specification.
  \<^item> \<open>AuditLog\<close> (\<^verbatim>\<open>pkg/audit\<close>) and \<open>Admin\<close> (\<^verbatim>\<open>pkg/admin\<close>): the logger with its listeners, the tracker
    and the certificate log, refined to the history of events.
  \<^item> \<open>Jwt\<close>, \<open>JwksCache\<close>, \<open>Provider\<close> (\<^verbatim>\<open>pkg/oidc\<close>): validation of identity tokens with the
    cryptography as a parameter, the key cache, and the requests to the provider.
  \<^item> \<open>AdminLogin\<close>, \<open>Server\<close>, \<open>AdminApi\<close> (\<^verbatim>\<open>pkg/server\<close>): sessions and lockout, the exchange behind its
    middlewares, the other endpoints and the routes. \<open>CertReload\<close> and \<open>SelfSigned\<close>: the served
    certificate, reloaded while the files change, or generated, persisted and loaded again.
  \<^item> \<open>Serve\<close> (\<^verbatim>\<open>cmd/serve.go\<close>, \<^verbatim>\<open>pkg/talosapi\<close>): the server put together from its configuration, the
    issuer that asks the Talos API, and what every run of such a server keeps; \<open>RunLimits\<close>: the
    rate limit seen in the answers of a run; \<open>Grants\<close>: one exchange through all the parts of the
    server; \<open>Secrets\<close>: what the server's behaviour does not depend on, with the interface
    \<open>unnoticed\<close> of a change of the configuration that no answer shows.
  \<^item> \<open>Auth\<close> (\<^verbatim>\<open>pkg/oidc/auth.go\<close>), \<open>Keychain\<close> (\<^verbatim>\<open>pkg/keychain\<close>), \<open>TalosConfig\<close> (\<^verbatim>\<open>pkg/talosconfig\<close>): the
    client's login through a callback server or a device code, its token cache, and the
    file it writes. The disk of both sides is \<open>GoFiles\<close>, with the interface \<open>file_store\<close> of the two
    files of the client.
  \<^item> \<open>Login\<close> (\<^verbatim>\<open>cmd/login.go\<close>, \<^verbatim>\<open>cmd/logout.go\<close>, \<^verbatim>\<open>cmd/status.go\<close>): the commands of the client. A
    round of the login loop is one function, \<open>login_round\<close>; \<open>login_loop\<close> runs it over the list
    of surroundings the rounds find, so a \<^verbatim>\<open>--watch\<close> that is still running is a list that
    has come to its end.
  \<^item> \<open>Commands\<close> (\<^verbatim>\<open>main.go\<close>, \<^verbatim>\<open>cmd/root.go\<close>, \<^verbatim>\<open>cmd/version.go\<close>, the \<^verbatim>\<open>init\<close> functions): the flags with
    their defaults, the variables bound to them, the command that runs and the exit status
    of the process.
  \<^item> \<open>MockTalos\<close> (\<^verbatim>\<open>internal/mocktalos\<close>, \<^verbatim>\<open>hack/mock-talos\<close>): the mock Talos API, which signs what it
    is asked for.
  \<^item> \<open>Spec2Isabelle\<close>, this theory: the login command against a running server, with the
    interface \<open>talos_api\<close> of an API that issues certificates, interpreted on the mock.

  \<^bold>\<open>How they interact.\<close> \<open>exchange_chain\<close> composes limiter, allowlist and handler as \<^verbatim>\<open>New\<close> does;
  the handler calls the detector, the key cache, the validation, the mapper and the issuer,
  and reports to the audit logger, whose listeners are the tracker and the certificate log.
  \<open>serve\<close> adds the routes, and \<open>served\<close> is the set of runs of the whole server, in which
  answers alternate with the limiter's clean-ups;
  \<open>served_exchange\<close> says that at every moment of a run the endpoint is the chain over the
  present state. On the client \<open>login_round\<close> reads the talosconfig, the token cache and, when
  these do not do, the provider, posts the identity token and writes the answer.

  \<^bold>\<open>What is shown.\<close> The theories of single packages refine their code to specifications (a
  sliding window, a history of events, a life time) or state its invariants, bounds, error
  behaviour and round trips. The theorems of \<open>Grants\<close>, \<open>RunLimits\<close> and this theory follow one
  exchange through all parts: the issuer is asked only for who is authorised, who is authorised is served, the
  answer says what happened, the counters of the tracker agree with the answers, a run
  grants no more than its configuration names and answers no address more often than the
  limit allows, and a login against a running server ends
  with the certificate of the Talos API in the user's talosconfig, which the next login
  reads and leaves alone until its renewal is due. Two theorems of \<open>Secrets\<close> compare two servers:
  the client secret of the configuration changes no answer, and the administrator's token
  none to a visitor who presents neither token. Where the code falls
  short, a theorem shows how: the race of the limiter, the lockout a forged header evades,
  the key pair a torn write leaves, the login a forged visit stops, the refused token that
  is sent again.

  \<^bold>\<open>Parameters.\<close> The record \<open>world\<close> holds what is not under \<^verbatim>\<open>src/\<close>: the network, the provider's
  answers, JSON and PEM decoders, SHA-256 and signature verification, random bytes, the
  Talos API. Laws about it are hypotheses of the theorems that need them, and each such
  theorem has a witness with concrete functions in their place.

  \<^bold>\<open>Bounds and fuel.\<close> \<open>PollDeviceToken\<close> runs on fuel; the deadline of the device code bounds the
  number of polls, \<open>PollDeviceToken_ends\<close> shows that much fuel to be enough, and the
  termination of the login loop rests on it. Durations are
  unbounded integers except where the program's 64-bit arithmetic wraps within reach, as in
  the polling interval and the exponent of an RSA key.

  \<^bold>\<open>Not modelled.\<close> Progress messages and debug logging, the HTML templates and the logo, the
  reading of the arguments by the flag library (a parameter of \<open>Commands\<close>), the serving of gRPC,
  and third-party code (Talos client, keyring, YAML). Go's library is modelled as far as the program relies
  on it: an HTTP client's redirects, file permissions and timeouts of connections are not.
\<close>

section \<open>From the login command to the issuer and back\<close>

text \<open>
  The connection between a client and a server: what the server receives for a posted
  body, and the bytes of its answers.
\<close>

record wire =
  wi_request :: "string \<Rightarrow> request"
  wi_answer :: "AdminPageData body \<Rightarrow> string"

definition connected ::
  "wire \<Rightarrow> moved \<Rightarrow> server \<Rightarrow> world \<Rightarrow> server \<Rightarrow> login_flags \<Rightarrow> login_world \<Rightarrow> bool" where
  "connected x moved s0 w s f c \<longleftrightarrow>
     lw_url_ok c (exchange_url (lf_serverURL f)) \<and>
     (\<forall>trust b. lw_client c trust (exchange_url (lf_serverURL f)) b =
        (let resp = snd (serve moved s0 w s (wi_request x b)) in Some (status resp, Some (wi_answer x (body resp))))) \<and>
     (\<forall>b. Method (wi_request x b) = ''POST'' \<and> Body (wi_request x b) = Some b \<and>
        route_of (sv_tracker s0 \<noteq> None) (wi_request x b) = ToExchange)"

text \<open>The server's answer as the client decodes it.\<close>

definition as_response :: "server_config \<Rightarrow> client_cert \<Rightarrow> CertResponse" where
  "as_response cfg cert =
     \<lparr>resp_CA = CaPEM cert, resp_Cert = CertPEM cert, resp_Key = KeyPEM cert, resp_Endpoints = sc_Endpoints cfg,
      resp_TTL = int_seconds (sc_CertTTL cfg)\<rparr>"

text \<open>A client that has to renew its certificate and comes by an identity token.\<close>

definition asks_with :: "login_flags \<Rightarrow> login_world \<Rightarrow> string \<Rightarrow> key_store \<Rightarrow> key_store \<Rightarrow> string \<Rightarrow> bool" where
  "asks_with f c path k k1 tok \<longleftrightarrow>
     check_certificate f c path (ks_files k) = Renew \<and> \<not> plain_http_refused f \<and>
     obtainIDToken f c k = Some (k1, Inr tok) \<and> (\<exists>trust. buildHTTPClient f c (ks_files k1) = Inr trust)"

lemma login_served:
  assumes "served moved s0 tr s" and "connected x moved s0 w s f c" and "asks_with f c path k k1 tok"
    and "earns w s (wi_request x (lw_marshal c tok)) tok roles"
    and "w_issue w roles (sc_CertTTL (sv_cfg s)) = Inr cert"
    and "lw_cert_json c (wi_answer x (Json (cert_response (sv_cfg s) cert))) = Some (as_response (sv_cfg s) cert)"
    and "write_context f c path (as_response (sv_cfg s) cert) (ks_files k1) = (fs, None)"
    and "yaml_agrees (lw_talos c)"
  shows "login_round f path c k =
      Some (k1\<lparr>ks_files := fs\<rparr>, if lf_watch f then Sleep (10 * second) else Done) \<and>
    holds_certificate c path (lf_contextName f) (as_response (sv_cfg s) cert) fs \<and>
    sv_issue_calls (fst (serve moved s0 w s (wi_request x (lw_marshal c tok)))) =
      sv_issue_calls s @ [(roles, sc_CertTTL (sv_cfg s))]"
proof -
  let ?r = "wi_request x (lw_marshal c tok)"
  have r: "route_of (sv_tracker s0 \<noteq> None) ?r = ToExchange" using assms(2) by (simp add: connected_def)
  obtain trust where ask: "check_certificate f c path (ks_files k) = Renew" "\<not> plain_http_refused f"
    "obtainIDToken f c k = Some (k1, Inr tok)" "buildHTTPClient f c (ks_files k1) = Inr trust"
    using assms(3) by (auto simp: asks_with_def)
  obtain s' where sv: "serve moved s0 w s ?r = (s', writeJSON (cert_response (sv_cfg s) cert))"
    "sv_issue_calls s' = sv_issue_calls s @ [(roles, sc_CertTTL (sv_cfg s))]"
    using earns_served [OF assms(4,5), where 'p = AdminPageData] served_exchange [OF assms(1) r, of w] by metis
  have "exchangeTokenForCert c trust (lf_serverURL f) tok = Inr (as_response (sv_cfg s) cert)"
    using assms(2,6) sv(1) unfolding exchangeTokenForCert_Inr by (simp add: connected_def writeJSON_def)
  then have "install f c path tok k1 = (k1\<lparr>ks_files := fs\<rparr>, if lf_watch f then Sleep (10 * second) else Done)"
    using ask(4) assms(7) by (simp add: install_def)
  then have "login_round f path c k = Some (k1\<lparr>ks_files := fs\<rparr>, if lf_watch f then Sleep (10 * second) else Done)"
    using ask(1-3) by (simp add: login_round_def renew_def)
  with sv write_context_holds [OF assms(7,8)] show ?thesis by simp
qed

text \<open>
  C4. The whole way: when a client with an identity token that is valid and earns roles
  logs in against a running server whose gates let it pass, and the Talos API signs, the
  login ends well and the context in the talosconfig is the certificate the Talos API
  returned for exactly those roles, asked for once.
\<close>

theorem login_end_to_end:
  fixes x :: wire and c :: login_world and tok :: string
  defines "r \<equiv> wi_request x (lw_marshal c tok)"
  assumes "served moved s0 tr s" and "connected x moved s0 w s f c"
    and "check_certificate f c path (ks_files k) = Renew" and "\<not> plain_http_refused f"
    and "obtainIDToken f c k = Some (k1, Inr tok)" and "buildHTTPClient f c (ks_files k1) = Inr trust"
    and "length (lw_marshal c tok) \<le> 64 * 1024" and "w_request_json w (lw_marshal c tok) = Some tok" and "tok \<noteq> []"
    and "snd (limiter_gate w s r)" and "allowlist_gate (sv_cfg s) r" and "keys_at_hand w s jwks"
    and "ValidateIDToken (w_crypto w) (Unix (w_clock w 5)) tok jwks (sc_IssuerURL (sv_cfg s))
      (sc_ClientID (sv_cfg s)) (sc_ClientSecret (sv_cfg s)) [] = Inr claims"
    and "roles_for w (sv_cfg s) (token_identity claims) = role # roles"
    and "w_issue w = Issue connect issuer" and "connect (client_options issuer) = Inr call"
    and "call (role # roles) (sc_CertTTL (sv_cfg s)) = Inr (cert # certs)"
    and "lw_cert_json c (wi_answer x (Json (cert_response (sv_cfg s) cert))) = Some (as_response (sv_cfg s) cert)"
    and "write_context f c path (as_response (sv_cfg s) cert) (ks_files k1) = (fs, None)"
    and "yaml_agrees (lw_talos c)" and "\<not> lf_watch f"
  shows "login_round f path c k = Some (k1\<lparr>ks_files := fs\<rparr>, Done) \<and>
    holds_certificate c path (lf_contextName f) (as_response (sv_cfg s) cert) fs \<and>
    sv_issue_calls (fst (serve moved s0 w s r)) = sv_issue_calls s @ [(role # roles, sc_CertTTL (sv_cfg s))]"
proof -
  have r: "Method r = ''POST''" "Body r = Some (lw_marshal c tok)" using assms(3) by (simp_all add: connected_def r_def)
  have "earns w s r tok (role # roles)" using assms(8-15) r by (auto simp: earns_def)
  moreover have "asks_with f c path k k1 tok" using assms(4-7) by (simp add: asks_with_def)
  moreover have "w_issue w (role # roles) (sc_CertTTL (sv_cfg s)) = Inr cert" using assms(16-18) by (simp add: Issue_def)
  ultimately show ?thesis
    using login_served [OF assms(2,3) _ _ _ assms(19-21), of k tok "role # roles"] assms(22) by (simp add: r_def)
qed

text \<open>The server above and a client whose cache holds a token for it.\<close>

definition demo_running :: server where
  "demo_running =
     New_server demo_config None \<lparr>lg_dest = Stdout, lg_lines = [], lg_listeners = []\<rparr> (NewTracker 0) None"

definition demo_wire :: wire where
  "demo_wire = \<lparr>wi_request = (\<lambda>b. demo_post\<lparr>Body := Some b\<rparr>),
     wi_answer = (\<lambda>b. if b = Json (cert_response demo_config demo_cert) then ''C'' else [])\<rparr>"

definition demo_target :: TConfig where
  "demo_target = \<lparr>tc_Context = ''oidc'', tc_Contexts =
     [(''oidc'', Some (pem_context [''10.0.0.1''] (CaPEM demo_cert) (CertPEM demo_cert) (KeyPEM demo_cert)))]\<rparr>"

definition demo_user :: login_world where
  "demo_user = demo_client
     \<lparr>lw_keys := demo_keys\<lparr>kw_json_token := (\<lambda>d. if d = ''T'' then Some (demo_cached\<lparr>s_IDToken := demo_token\<rparr>) else None)\<rparr>,
      lw_talos := demo_talos\<lparr>tw_print := (\<lambda>c. if c = demo_target then Some ''Y'' else None),
        tw_parse := (\<lambda>d. if d = ''Y'' then Some demo_target else None)\<rparr>,
      lw_marshal := (\<lambda>t. ''B''),
      lw_client := (\<lambda>trust u b.
        let resp = snd (serve demo_moved demo_running demo_world demo_running (wi_request demo_wire b))
        in Some (status resp, Some (wi_answer demo_wire (body resp)))),
      lw_cert_json := (\<lambda>b. if b = ''C'' then Some (as_response demo_config demo_cert) else None)\<rparr>"

lemma demo_running_fields:
  "sv_cfg demo_running = demo_config" "sv_cache demo_running = None" "sv_limiter demo_running = None"
  "sv_tracker demo_running \<noteq> None" "sv_issue_calls demo_running = []"
  by (simp_all add: demo_running_def demo_new_server)

lemma demo_arrives: "wi_request demo_wire ''B'' = demo_post"
  by (simp add: demo_wire_def demo_post_def)

lemma demo_connected: "connected demo_wire demo_moved demo_running demo_world demo_running demo_flags demo_user"
proof -
  have "route_of True (demo_post\<lparr>Body := Some b\<rparr>) = ToExchange" for b
    using demo_exchange_route by (simp add: route_of_def Let_def cong: route.case_cong if_cong)
  then show ?thesis
    using demo_running_fields(4) by (simp add: connected_def demo_user_def demo_client_def demo_wire_def demo_post_def)
qed

lemma demo_obtains:
  assumes "lw_keys c = lw_keys demo_user" and "lw_clock c = lw_clock demo_user"
  shows "obtainIDToken demo_flags c demo_cache = Some (demo_cache, Inr demo_token)"
proof (rule obtain_cached [of _ _ _ "demo_cached\<lparr>s_IDToken := demo_token\<rparr>", simplified])
  show "Retrieve (lw_keys c) (lf_contextName demo_flags) demo_cache = Some (demo_cached\<lparr>s_IDToken := demo_token\<rparr>)"
    by (simp add: assms Retrieve_def ring_token_def file_token_def fileRetrieve_def readTokenFile_def cacheFilePath_def
        cacheDir_def read_file_def bestToken_def demo_user_def demo_keys_def demo_cache_def demo_flags_def)
  show "\<not> IsExpired (demo_cached\<lparr>s_IDToken := demo_token\<rparr>) (lw_clock c Using)"
    using demo_unexpired(1) by (simp add: assms IsExpired_def demo_user_def demo_client_def)
  show "demo_token \<noteq> []" by (rule demo_entitled(7))
qed

lemmas demo_user_token = demo_obtains [OF refl refl]

lemma demo_written_context:
  obtains fs where "write_context demo_flags demo_user ''/t'' (as_response demo_config demo_cert) (ks_files demo_cache) = (fs, None)"
proof -
  have "SetContextFromPEM \<lparr>tc_Context = [], tc_Contexts = []\<rparr> ''oidc'' [''10.0.0.1'']
      (CaPEM demo_cert) (CertPEM demo_cert) (KeyPEM demo_cert) = Inr demo_target"
    by (simp add: SetContextFromPEM_def demo_target_def demo_cert_def)
  then show thesis
    using that
    by (simp add: write_context_def LoadConfig_def read_file_def SaveConfig_def save_steps_def write_file_def Let_def
        as_response_def demo_cache_def demo_flags_def demo_user_def demo_config_def demo_talos_def)
qed

theorem login_end_to_end_witness:
  "\<exists>k. login_round demo_flags ''/t'' demo_user demo_cache = Some (k, Done) \<and>
     holds_certificate demo_user ''/t'' ''oidc'' (as_response demo_config demo_cert) (ks_files k)"
proof -
  let ?m = "lw_marshal demo_user demo_token"
  have m: "?m = ''B''" by (simp add: demo_user_def)
  have cfg: "sv_cfg demo_running = sv_cfg demo_server" by (simp add: demo_running_fields demo_server_def)
  obtain fs where fs: "write_context demo_flags demo_user ''/t'' (as_response (sv_cfg demo_running) demo_cert)
      (ks_files demo_cache) = (fs, None)"
    using demo_written_context by (auto simp: demo_running_fields)
  have check: "check_certificate demo_flags demo_user ''/t'' (ks_files demo_cache) = Renew"
    by (simp add: check_certificate_def LoadConfig_def read_file_def demo_cache_def)
  have plain: "\<not> plain_http_refused demo_flags" by (simp add: plain_http_refused_def has_prefix_def demo_flags_def)
  have http: "buildHTTPClient demo_flags demo_user (ks_files demo_cache) = Inr SystemPool"
    by (simp add: buildHTTPClient_def demo_flags_def)
  have gate: "snd (limiter_gate demo_world demo_running (wi_request demo_wire ?m))"
    "allowlist_gate (sv_cfg demo_running) (wi_request demo_wire ?m)"
    by (simp_all add: limiter_gate_def demo_running_fields demo_new_server(6))
  have keys: "keys_at_hand demo_world demo_running [demo_key]"
    using demo_entitled(8) by (simp add: keys_at_hand_def demo_running_fields demo_server_def)
  have issue: "w_issue demo_world = Issue (\<lambda>opts. Inr (\<lambda>roles ttl. Inr [demo_cert])) (NewIssuer [] [''10.0.0.1''])"
    by (simp add: demo_world_def Issue_def fun_eq_iff)
  have json: "lw_cert_json demo_user (wi_answer demo_wire (Json (cert_response (sv_cfg demo_running) demo_cert))) =
      Some (as_response (sv_cfg demo_running) demo_cert)"
    by (simp add: demo_running_fields demo_wire_def demo_user_def)
  have yaml: "yaml_agrees (lw_talos demo_user)" by (simp add: yaml_agrees_def demo_user_def)
  have "login_round demo_flags ''/t'' demo_user demo_cache = Some (demo_cache\<lparr>ks_files := fs\<rparr>, Done) \<and>
    holds_certificate demo_user ''/t'' (lf_contextName demo_flags) (as_response (sv_cfg demo_running) demo_cert) fs \<and>
    sv_issue_calls (fst (serve demo_moved demo_running demo_world demo_running (wi_request demo_wire ?m))) =
      sv_issue_calls demo_running @ [(''os:operator'' # [''os:reader''], sc_CertTTL (sv_cfg demo_running))]"
    by (rule login_end_to_end [OF served.started demo_connected check plain demo_user_token http _ _ demo_entitled(7)
          gate keys demo_entitled(9,10) [folded cfg] issue refl refl json fs yaml])
      (simp_all add: m demo_entitled(6) demo_flags_def)
  then show ?thesis by (auto simp: demo_running_fields demo_flags_def)
qed

section \<open>Client, server and Talos node together\<close>

text \<open>The time until which a PEM text's first certificate is valid, as the client reads it.\<close>

definition reads_expiry :: "talos_world \<Rightarrow> string \<Rightarrow> time \<Rightarrow> bool" where
  "reads_expiry w crt expiry \<longleftrightarrow>
     trim_space crt \<noteq> [] \<and>
     (\<exists>der rest. tw_pem w (trim_space crt) = Some (''CERTIFICATE'', der, rest) \<and> tw_x509 w der = Some expiry)"

lemma GetCertificateExpiry_reads:
  assumes "reads_expiry w crt e" and "StdEncoding_Decode (Crt c) = Some (trim_space crt)"
  shows "GetCertificateExpiry w c = Inr e"
proof -
  obtain der rest where d: "tw_pem w (trim_space crt) = Some (''CERTIFICATE'', der, rest)" "tw_x509 w der = Some e"
    "trim_space crt \<noteq> []" using assms(1) by (auto simp: reads_expiry_def)
  then obtain n where "length (trim_space crt) = Suc n" by (cases "trim_space crt") auto
  with d have "find_certificate w (length (trim_space crt)) (trim_space crt) = Some der" by simp
  moreover have "Crt c \<noteq> []" using assms(2) d(3) by (auto simp: StdEncoding_Decode_def decode64_def)
  ultimately show ?thesis using assms(2) d(2) by (simp add: GetCertificateExpiry_def)
qed

text \<open>What the next look at the certificate a login installed says.\<close>

lemma check_installed:
  assumes "holds_certificate c path (lf_contextName f) resp fs" and "lw_talos c' = lw_talos c"
    and "reads_expiry (lw_talos c) (resp_Cert resp) e" and "\<not> lf_watch f"
  shows "check_certificate f c' path fs = (if lw_clock c' Checking + 5 * minute \<le> e then StillValid else Renew)"
proof -
  obtain cfg ctx where h: "LoadConfig (lw_talos c) fs path = Inr cfg"
    "map_of (tc_Contexts cfg) (lf_contextName f) = Some (Some ctx)"
    "StdEncoding_Decode (Crt ctx) = Some (trim_space (resp_Cert resp))"
    using assms(1) by (auto simp: holds_certificate_def)
  with GetCertificateExpiry_reads [OF assms(3)] show ?thesis
    by (simp add: check_certificate_def IsCertificateExpired_def assms(2,4))
qed

text \<open>
  The contract of a Talos API, as far as the client's renewal rests on it: from the
  certificate it mints for a positive lifetime the client reads the expected end.
\<close>

locale talos_api =
  fixes call :: "'n \<Rightarrow> connection"
    and agrees :: "'n \<Rightarrow> talos_world \<Rightarrow> bool"
    and ends :: "'n \<Rightarrow> duration \<Rightarrow> time"
  assumes minted_expires: "agrees n w \<Longrightarrow> 0 < ttl \<Longrightarrow> call n roles ttl = Inr (cert # certs) \<Longrightarrow>
      reads_expiry w (CertPEM cert) (ends n ttl)"
begin

lemma issued_expires:
  assumes "connect (client_options i) = Inr (call n)" and "Issue connect i roles ttl = Inr cert"
    and "agrees n w" and "0 < ttl"
  shows "reads_expiry w (CertPEM cert) (ends n ttl)"
proof -
  obtain certs where "call n roles ttl = Inr (cert # certs)"
    using assms(1,2) by (auto simp: Issue_def split: sum.splits list.splits)
  with minted_expires [OF assms(3,4)] show ?thesis by blast
qed

lemma next_login:
  assumes "served moved s0 tr s" and "connected x moved s0 w s f c" and "asks_with f c path k k1 tok"
    and "earns w s (wi_request x (lw_marshal c tok)) tok roles"
    and "w_issue w = Issue connect issuer" and "connect (client_options issuer) = Inr (call n)"
    and "Issue connect issuer roles (sc_CertTTL (sv_cfg s)) = Inr cert"
    and "agrees n (lw_talos c)" and "0 < sc_CertTTL (sv_cfg s)"
    and "lw_cert_json c (wi_answer x (Json (cert_response (sv_cfg s) cert))) = Some (as_response (sv_cfg s) cert)"
    and "write_context f c path (as_response (sv_cfg s) cert) (ks_files k1) = (fs, None)"
    and "yaml_agrees (lw_talos c)" and "\<not> lf_watch f" and "lw_talos c' = lw_talos c"
  obtains k2 where "login_round f path c k = Some (k2, Done)"
    "login_round f path c' k2 =
       (if lw_clock c' Checking + 5 * minute \<le> ends n (sc_CertTTL (sv_cfg s)) then Some (k2, Done) else renew f c' path k2)"
proof -
  have issued: "w_issue w roles (sc_CertTTL (sv_cfg s)) = Inr cert" using assms(5,7) by simp
  note login = login_served [OF assms(1-4) issued assms(10-12)]
  have "reads_expiry (lw_talos c) (resp_Cert (as_response (sv_cfg s) cert)) (ends n (sc_CertTTL (sv_cfg s)))"
    using issued_expires [OF assms(6-9)] by (simp add: as_response_def)
  from check_installed [OF _ assms(14) this assms(13)] login
  have "check_certificate f c' path fs =
      (if lw_clock c' Checking + 5 * minute \<le> ends n (sc_CertTTL (sv_cfg s)) then StillValid else Renew)"
    by blast
  with login assms(13) show thesis by (intro that [of "k1\<lparr>ks_files := fs\<rparr>"]) (simp_all add: login_round_def)
qed

end

text \<open>The client and the mock node read PEM and X.509 alike.\<close>

definition same_x509 :: "pki \<Rightarrow> talos_world \<Rightarrow> bool" where
  "same_x509 k w \<longleftrightarrow>
     (\<forall>der u. pk_parse k der = Some u \<longrightarrow> reads_expiry w (pk_pem k ''CERTIFICATE'' der) (tp_NotAfter u))"

lemma mock_certificate_expires:
  assumes "x509_reads_back k" and "same_x509 k w" and "0 < ttl"
    and "mock_connection err k m roles ttl = Inr (cert # certs)"
  shows "reads_expiry w (CertPEM cert) (to_seconds (pk_clock k 0 + ttl))"
proof -
  have "Issue (\<lambda>opts. Inr (mock_connection err k m)) (NewIssuer [] []) roles ttl = Inr cert"
    using assms(4) by (simp add: Issue_def)
  from mock_issues [OF refl assms(1) this] obtain leaf where l: "signed_by k m (CertPEM cert) leaf"
    "read_back (mock_client_template roles (pk_clock k 0) (pk_clock k 0 + (if ttl \<le> 0 then minute else ttl))) leaf"
    by blast
  then have "tp_NotAfter leaf = to_seconds (pk_clock k 0 + ttl)"
    using assms(3) by (simp add: read_back_def mock_client_template_def)
  with l(1) assms(2) show ?thesis unfolding signed_by_def same_x509_def by metis
qed

interpretation mock: talos_api "\<lambda>(err, k, m). mock_connection err k m"
  "\<lambda>(err, k, m) w. x509_reads_back k \<and> same_x509 k w" "\<lambda>(err, k, m) ttl. to_seconds (pk_clock k 0 + ttl)"
  by unfold_locales (auto intro: mock_certificate_expires)

text \<open>
  C5. The three programs together: a client that has to renew logs in with a token that
  earns roles, against a running server whose Talos API is the mock node. The login ends
  well, and from then on a login is a look at the file and no more, changes nothing and
  asks nobody, as long as the certificate the node minted has five minutes left by the
  client's clock; after that it renews. So with a lifetime of at most five minutes, which
  is the server's default, no login after the first one is ever quiet.
\<close>

theorem login_quiet_until_renewal:
  assumes "served moved s0 tr s" and "connected x moved s0 w s f c" and "asks_with f c path k k1 tok"
    and "earns w s (wi_request x (lw_marshal c tok)) tok roles"
    and "w_issue w = Issue connect issuer" and "connect (client_options issuer) = Inr (mock_connection err n m)"
    and "Issue connect issuer roles (sc_CertTTL (sv_cfg s)) = Inr cert"
    and "x509_reads_back n" and "same_x509 n (lw_talos c)" and "0 < sc_CertTTL (sv_cfg s)"
    and "lw_cert_json c (wi_answer x (Json (cert_response (sv_cfg s) cert))) = Some (as_response (sv_cfg s) cert)"
    and "write_context f c path (as_response (sv_cfg s) cert) (ks_files k1) = (fs, None)"
    and "yaml_agrees (lw_talos c)" and "\<not> lf_watch f"
    and "lw_talos c' = lw_talos c"
  shows "\<exists>k2. login_round f path c k = Some (k2, Done) \<and>
    (lw_clock c' Checking + 5 * minute \<le> to_seconds (pk_clock n 0 + sc_CertTTL (sv_cfg s)) \<longrightarrow>
      login_round f path c' k2 = Some (k2, Done)) \<and>
    (to_seconds (pk_clock n 0 + sc_CertTTL (sv_cfg s)) < lw_clock c' Checking + 5 * minute \<longrightarrow>
      login_round f path c' k2 = renew f c' path k2) \<and>
    (sc_CertTTL (sv_cfg s) \<le> 5 * minute \<longrightarrow> pk_clock n 0 < lw_clock c' Checking \<longrightarrow>
      login_round f path c' k2 = renew f c' path k2)"
proof -
  let ?e = "to_seconds (pk_clock n 0 + sc_CertTTL (sv_cfg s))"
  obtain k2 where "login_round f path c k = Some (k2, Done)"
    "login_round f path c' k2 = (if lw_clock c' Checking + 5 * minute \<le> ?e then Some (k2, Done) else renew f c' path k2)"
    using mock.next_login [of moved s0 tr s x w f c path k k1 tok roles connect issuer "(err, n, m)" cert fs c'] assms
    by auto
  then show ?thesis
    using to_seconds_bounds(1) [of "pk_clock n 0 + sc_CertTTL (sv_cfg s)"] by (intro exI [of _ k2]) auto
qed

text \<open>The server and the client from above, with certificates of an hour from the mock node.\<close>

definition demo_lease :: template where
  "demo_lease = mock_client_template [''os:operator'', ''os:reader''] 0 hour"

definition demo_authority :: pki where
  "demo_authority = demo_node
     \<lparr>pk_create := (\<lambda>t parent pub key. if t = demo_lease then Some ''D'' else None),
      pk_parse := (\<lambda>d. if d = ''D'' then Some demo_lease else None), pk_pem := (\<lambda>ty b. ''-'' @ b @ ''-'')\<rparr>"

definition demo_api :: "client_option list \<Rightarrow> string + connection" where
  "demo_api = (\<lambda>opts. Inr (mock_connection (\<lambda>e. []) demo_authority demo_mock))"

definition demo_leased :: client_cert where
  "demo_leased = \<lparr>CaPEM = ''ca'', CertPEM = ''-D-'', KeyPEM = ''-K-''\<rparr>"

definition demo_lessor :: server where
  "demo_lessor = demo_running\<lparr>sv_cfg := demo_config\<lparr>sc_CertTTL := hour\<rparr>\<rparr>"

definition demo_lease_world :: world where
  "demo_lease_world = demo_world\<lparr>w_issue := Issue demo_api (NewIssuer [] [])\<rparr>"

definition demo_lease_wire :: wire where
  "demo_lease_wire = demo_wire\<lparr>wi_answer := (\<lambda>b. if b = Json (cert_response (sv_cfg demo_lessor) demo_leased) then ''C'' else [])\<rparr>"

definition demo_lease_target :: TConfig where
  "demo_lease_target = \<lparr>tc_Context = ''oidc'', tc_Contexts = [(''oidc'', Some (pem_context [''10.0.0.1''] ''ca'' ''-D-'' ''-K-''))]\<rparr>"

definition demo_lease_talos :: talos_world where
  "demo_lease_talos = demo_talos
     \<lparr>tw_print := (\<lambda>c. if c = demo_lease_target then Some ''Y'' else None),
      tw_parse := (\<lambda>d. if d = ''Y'' then Some demo_lease_target else None),
      tw_pem := (\<lambda>d. Some (''CERTIFICATE'', butlast (tl d), [])), tw_x509 := (\<lambda>b. Some hour)\<rparr>"

definition demo_tenant :: login_world where
  "demo_tenant = demo_user
     \<lparr>lw_talos := demo_lease_talos,
      lw_client := (\<lambda>trust u b.
        let resp = snd (serve demo_moved demo_lessor demo_lease_world demo_lessor (wi_request demo_lease_wire b))
        in Some (status resp, Some (wi_answer demo_lease_wire (body resp)))),
      lw_cert_json := (\<lambda>b. if b = ''C'' then Some (as_response (sv_cfg demo_lessor) demo_leased) else None)\<rparr>"

lemma demo_lessor_fields:
  "sv_cfg demo_lessor = demo_config\<lparr>sc_CertTTL := hour\<rparr>" "sv_cache demo_lessor = None" "sv_limiter demo_lessor = None"
  "sv_tracker demo_lessor \<noteq> None"
  using demo_running_fields by (simp_all add: demo_lessor_def)

lemma demo_lease_issued:
  "Issue demo_api (NewIssuer [] []) [''os:operator'', ''os:reader''] hour = Inr demo_leased"
proof -
  have "mock_client_template [''os:operator'', ''os:reader''] 0 hour\<lparr>tp_Serial := 0\<rparr> = demo_lease"
    by (simp add: demo_lease_def mock_client_template_def)
  then show ?thesis
    by (simp add: Issue_def demo_api_def mock_connection_def GenerateClientConfiguration_def mock_issue_def try_or_def
        Let_def demo_authority_def demo_node_def demo_mock_def demo_leased_def time_units)
qed

lemma demo_authority_reads_back: "x509_reads_back demo_authority"
proof -
  have "read_back demo_lease demo_lease"
    by (simp add: demo_lease_def read_back_def mock_client_template_def to_seconds_def time_units)
  then show ?thesis by (auto simp: x509_reads_back_def demo_authority_def split: if_splits)
qed

lemma demo_same_x509: "same_x509 demo_authority demo_lease_talos"
proof -
  have "trim_space ''-D-'' = ''-D-''" by code_simp
  then have "reads_expiry demo_lease_talos ''-D-'' hour" by (simp add: reads_expiry_def demo_lease_talos_def)
  then show ?thesis by (simp add: same_x509_def demo_authority_def demo_lease_def mock_client_template_def)
qed

lemma demo_lease_connected:
  "connected demo_lease_wire demo_moved demo_lessor demo_lease_world demo_lessor demo_flags demo_tenant"
proof -
  have "route_of True (demo_post\<lparr>Body := Some b\<rparr>) = ToExchange" for b
    using demo_exchange_route by (simp add: route_of_def Let_def cong: route.case_cong if_cong)
  then show ?thesis
    using demo_lessor_fields(4)
    by (simp add: connected_def demo_tenant_def demo_user_def demo_client_def demo_lease_wire_def demo_wire_def demo_post_def)
qed

lemma demo_tenant_asks: "asks_with demo_flags demo_tenant ''/t'' demo_cache demo_cache demo_token"
proof -
  have "check_certificate demo_flags demo_tenant ''/t'' (ks_files demo_cache) = Renew"
    by (simp add: check_certificate_def LoadConfig_def read_file_def demo_cache_def)
  moreover have "\<not> plain_http_refused demo_flags" by (simp add: plain_http_refused_def has_prefix_def demo_flags_def)
  moreover have "buildHTTPClient demo_flags demo_tenant (ks_files demo_cache) = Inr SystemPool"
    by (simp add: buildHTTPClient_def demo_flags_def)
  moreover have "obtainIDToken demo_flags demo_tenant demo_cache = Some (demo_cache, Inr demo_token)"
    by (rule demo_obtains) (simp_all add: demo_tenant_def)
  ultimately show ?thesis by (simp add: asks_with_def)
qed

lemma demo_lease_earned:
  "earns demo_lease_world demo_lessor (wi_request demo_lease_wire (lw_marshal demo_tenant demo_token)) demo_token
     [''os:operator'', ''os:reader'']"
proof -
  have r: "wi_request demo_lease_wire (lw_marshal demo_tenant demo_token) = demo_post"
    using demo_arrives by (simp add: demo_lease_wire_def demo_tenant_def demo_user_def)
  have w: "w_crypto demo_lease_world = w_crypto demo_world" "w_clock demo_lease_world = w_clock demo_world"
    "w_request_json demo_lease_world = w_request_json demo_world"
    "roles_for demo_lease_world (demo_config\<lparr>sc_CertTTL := hour\<rparr>) = roles_for demo_world demo_config"
    by (simp_all add: demo_lease_world_def roles_for_def fun_eq_iff split: option.split)
  have cfg: "sv_cfg demo_server = demo_config" by (simp add: demo_server_def)
  have "keys_at_hand demo_lease_world demo_lessor [demo_key]"
    using demo_entitled(8) by (simp add: keys_at_hand_def demo_lessor_fields demo_server_def demo_lease_world_def)
  moreover have "snd (limiter_gate demo_lease_world demo_lessor demo_post)" "allowlist_gate (sv_cfg demo_lessor) demo_post"
    using demo_new_server(6) by (simp_all add: limiter_gate_def allowlist_gate_def demo_lessor_fields)
  ultimately show ?thesis
    unfolding earns_def r using demo_entitled(3-7,9,10)
    by (auto simp: w demo_lessor_fields(1) cfg)
qed

lemma demo_lease_written:
  obtains fs where "write_context demo_flags demo_tenant ''/t'' (as_response (sv_cfg demo_lessor) demo_leased)
    (ks_files demo_cache) = (fs, None)"
proof -
  have "SetContextFromPEM \<lparr>tc_Context = [], tc_Contexts = []\<rparr> ''oidc'' [''10.0.0.1''] ''ca'' ''-D-'' ''-K-'' =
      Inr demo_lease_target"
    by (simp add: SetContextFromPEM_def demo_lease_target_def)
  then show thesis
    using that
    by (simp add: write_context_def LoadConfig_def read_file_def SaveConfig_def save_steps_def write_file_def Let_def
        as_response_def demo_cache_def demo_flags_def demo_tenant_def demo_lessor_fields demo_config_def demo_leased_def
        demo_lease_talos_def demo_talos_def)
qed

theorem login_quiet_until_renewal_witness:
  "\<exists>k. login_round demo_flags ''/t'' demo_tenant demo_cache = Some (k, Done) \<and>
     login_round demo_flags ''/t'' demo_tenant k = Some (k, Done) \<and>
     login_round demo_flags ''/t'' (demo_tenant\<lparr>lw_clock := (\<lambda>m. hour)\<rparr>) k =
       renew demo_flags (demo_tenant\<lparr>lw_clock := (\<lambda>m. hour)\<rparr>) ''/t'' k"
proof -
  let ?later = "demo_tenant\<lparr>lw_clock := (\<lambda>m. hour)\<rparr>"
  obtain fs where fs: "write_context demo_flags demo_tenant ''/t'' (as_response (sv_cfg demo_lessor) demo_leased)
    (ks_files demo_cache) = (fs, None)" by (rule demo_lease_written)
  have ttl: "sc_CertTTL (sv_cfg demo_lessor) = hour" by (simp add: demo_lessor_fields)
  have issue: "w_issue demo_lease_world = Issue demo_api (NewIssuer [] [])" by (simp add: demo_lease_world_def)
  have api: "demo_api (client_options (NewIssuer [] [])) = Inr (mock_connection (\<lambda>e. []) demo_authority demo_mock)"
    by (simp add: demo_api_def)
  have issued: "Issue demo_api (NewIssuer [] []) [''os:operator'', ''os:reader''] (sc_CertTTL (sv_cfg demo_lessor)) = Inr demo_leased"
    using demo_lease_issued by (simp add: ttl)
  have json: "lw_cert_json demo_tenant (wi_answer demo_lease_wire (Json (cert_response (sv_cfg demo_lessor) demo_leased))) =
      Some (as_response (sv_cfg demo_lessor) demo_leased)"
    by (simp add: demo_tenant_def demo_lease_wire_def)
  have talos: "same_x509 demo_authority (lw_talos demo_tenant)" "yaml_agrees (lw_talos demo_tenant)"
    using demo_same_x509 by (simp_all add: demo_tenant_def yaml_agrees_def demo_lease_talos_def)
  have pos: "0 < sc_CertTTL (sv_cfg demo_lessor)" "\<not> lf_watch demo_flags"
    by (simp_all add: ttl time_units demo_flags_def)
  have times: "pk_clock demo_authority 0 = 0" "lw_clock demo_tenant Checking = 0" "to_seconds hour = hour"
    by (simp_all add: demo_authority_def demo_node_def demo_tenant_def demo_user_def demo_client_def to_seconds_def time_units)
  note closed = login_quiet_until_renewal [OF served.started demo_lease_connected demo_tenant_asks demo_lease_earned issue api
      issued demo_authority_reads_back talos(1) pos(1) json fs talos(2) pos(2)]
  have early: "lw_clock demo_tenant Checking + 5 * minute \<le>
      to_seconds (pk_clock demo_authority 0 + sc_CertTTL (sv_cfg demo_lessor))"
    using times ttl by (simp add: time_units to_seconds_def)
  have late: "to_seconds (pk_clock demo_authority 0 + sc_CertTTL (sv_cfg demo_lessor)) < lw_clock ?later Checking + 5 * minute"
    by (simp add: times ttl)
  obtain k where k: "login_round demo_flags ''/t'' demo_tenant demo_cache = Some (k, Done)"
    "login_round demo_flags ''/t'' demo_tenant k = Some (k, Done)"
    using closed [OF refl] early by blast
  have "lw_talos ?later = lw_talos demo_tenant" by simp
  from closed [OF this] k(1) late have "login_round demo_flags ''/t'' ?later k = renew demo_flags ?later ''/t'' k" by auto
  with k show ?thesis by blast
qed

end
